(* ===== verification/Prelude.thy ===== *)
theory Prelude
  imports Main "HOL-Library.Char_ord" "HOL-Library.List_Lexorder"
begin

text \<open>
  Shared vocabulary of the development: the theorem collections the component theories
  fill, the Go types the model uses throughout, the two slice idioms the code repeats
  (\<open>slices.Sort\<close> followed by \<open>slices.Compact\<close>, and table rows kept in a list),
  and the lemmas about them.

  A Go \<open>string\<close> is a HOL \<open>string\<close>, a list of bytes. Strings are ordered
  bytewise, as Go's \<open><\<close> and \<open>slices.Sort\<close> order them (the orders of
  HOL-Library.Char\_ord and HOL-Library.List\_Lexorder). A \<open>time.Time\<close> is the
  \<open>int\<close> of nanoseconds since the zero time, so \<open>IsZero\<close> is a comparison with 0; a
  \<open>time.Duration\<close> is an \<open>int\<close> of nanoseconds.
\<close>

named_theorems run_elims "elimination rules: what a successful run of a computation did"
named_theorems run_simps "equations that run a computation on a world"
named_theorems reads_intros "computations that only read"
named_theorems quiet_intros "computations that start no transaction"
named_theorems pres_intros "statements that keep an invariant"
named_theorems keeps_intros "computations that keep an invariant"
named_theorems db_simps "what a statement leaves of the tables it does not write"

type_synonym time = int
type_synonym duration = int

abbreviation (input) microsecond :: duration where "microsecond \<equiv> 1000"
abbreviation (input) millisecond :: duration where "millisecond \<equiv> 1000000"
abbreviation (input) second :: duration where "second \<equiv> 1000000000"
abbreviation (input) minute :: duration where "minute \<equiv> 60000000000"
abbreviation (input) hour :: duration where "hour \<equiv> 3600000000000"

text \<open>\<open>time.Time.Truncate\<close> and, on a non-negative value, \<open>time.Duration.Truncate\<close>.\<close>

definition truncate_to :: "int \<Rightarrow> int \<Rightarrow> int" where
  "truncate_to t d = (if d \<le> 0 then t else t - t mod d)"

lemma truncate_to_le: "0 < d \<Longrightarrow> truncate_to t d \<le> t"
  by (simp add: truncate_to_def)

lemma truncate_to_idem [simp]: "truncate_to (truncate_to t d) d = truncate_to t d"
  by (simp add: truncate_to_def minus_mod_eq_mult_div)

text \<open>\<open>time.Duration.Microseconds\<close>, which rounds toward zero, as a duration again.\<close>

definition Microseconds :: "duration \<Rightarrow> duration" where
  "Microseconds d = sgn d * (\<bar>d\<bar> div microsecond * microsecond)"

text \<open>\<open>time.Time.Unix\<close> and \<open>time.Unix\<close>: seconds since 1970, where times count from the year 1.\<close>

definition epoch :: time where "epoch = 62135596800 * second"

definition Unix :: "time \<Rightarrow> int" where
  "Unix t = (t - epoch) div second"

definition from_Unix :: "int \<Rightarrow> time" where
  "from_Unix s = epoch + s * second"

section \<open>Sorted lists without duplicates\<close>

text \<open>\<open>slices.Sort\<close> then \<open>slices.Compact\<close>.\<close>

definition sort_compact :: "'a::linorder list \<Rightarrow> 'a list" where
  "sort_compact xs = remdups_adj (sort xs)"

lemma set_sort_compact [simp]: "set (sort_compact xs) = set xs"
  by (simp add: sort_compact_def)

lemma sorted_sort_compact [simp]: "sorted (sort_compact xs)"
  by (simp add: sort_compact_def sorted_remdups_adj)

lemma sorted_distinct_remdups_adj: "sorted xs \<Longrightarrow> distinct (remdups_adj xs)"
  by (induction xs rule: remdups_adj.induct) (auto simp: order.antisym)

lemma distinct_sort_compact [simp]: "distinct (sort_compact xs)"
  by (simp add: sort_compact_def sorted_distinct_remdups_adj)

lemma sort_compact_eq_sorted_list_of_set:
  "sort_compact xs = sorted_list_of_set (set xs)"
  using sorted_list_of_set.idem_if_sorted_distinct [of "sort_compact xs"] by simp

lemma sort_compact_idem [simp]: "sort_compact (sort_compact xs) = sort_compact xs"
  by (simp add: sort_compact_eq_sorted_list_of_set)

lemma sort_compact_cong: "set xs = set ys \<Longrightarrow> sort_compact xs = sort_compact ys"
  by (simp add: sort_compact_eq_sorted_list_of_set)

lemma sort_compact_Nil [simp]: "sort_compact [] = []"
  by (simp add: sort_compact_def)

lemma length_sort_compact_le: "length (sort_compact xs) \<le> length xs"
  unfolding sort_compact_def by (metis length_sort remdups_adj_length)

section \<open>Tables\<close>

text \<open>
  A SQL table is the list of its rows. \<open>UPDATE t SET f WHERE p\<close> is \<open>update_where p f\<close>,
  \<open>DELETE FROM t WHERE p\<close> is \<open>filter (\<lambda>r. \<not> p r)\<close>, a query by primary key is
  \<open>List.find\<close>, and \<open>count(*)\<close> is \<open>count_where\<close>.
\<close>

definition update_where :: "('r \<Rightarrow> bool) \<Rightarrow> ('r \<Rightarrow> 'r) \<Rightarrow> 'r list \<Rightarrow> 'r list" where
  "update_where p f rs = map (\<lambda>r. if p r then f r else r) rs"

definition count_where :: "('r \<Rightarrow> bool) \<Rightarrow> 'r list \<Rightarrow> nat" where
  "count_where p rs = length (filter p rs)"

lemma set_update_where: "set (update_where p f rs) = (\<lambda>r. if p r then f r else r) ` set rs"
  by (simp add: update_where_def)

lemma update_where_memE:
  assumes "r' \<in> set (update_where p f rs)"
  obtains r where "r \<in> set rs" "p r" "r' = f r" | "r' \<in> set rs" "\<not> p r'"
  using assms unfolding set_update_where by (auto split: if_splits)

lemma length_update_where [simp]: "length (update_where p f rs) = length rs"
  by (simp add: update_where_def)

lemma update_where_none: "(\<And>r. r \<in> set rs \<Longrightarrow> \<not> p r) \<Longrightarrow> update_where p f rs = rs"
  unfolding update_where_def by (induction rs) auto

lemma map_update_where_keep:
  "(\<And>r. p r \<Longrightarrow> key (f r) = key r) \<Longrightarrow> map key (update_where p f rs) = map key rs"
  by (simp add: update_where_def)

lemma count_where_eq_0: "count_where p rs = 0 \<longleftrightarrow> (\<forall>r \<in> set rs. \<not> p r)"
  by (auto simp: count_where_def filter_empty_conv)

lemma count_where_pos: "0 < count_where p rs \<longleftrightarrow> (\<exists>r \<in> set rs. p r)"
  by (metis bot_nat_0.not_eq_extremum count_where_eq_0)

lemma find_SomeD: "List.find p rs = Some r \<Longrightarrow> r \<in> set rs \<and> p r"
  by (induction rs) (auto split: if_splits)

lemma find_NoneD: "List.find p rs = None \<Longrightarrow> r \<in> set rs \<Longrightarrow> \<not> p r"
  by (induction rs) (auto split: if_splits)

lemma find_append_new: "List.find p rs = None \<Longrightarrow> p r \<Longrightarrow> List.find p (rs @ [r]) = Some r"
  by (induction rs) (auto split: if_splits)

lemma find_update_where:
  "List.find p rs = Some r \<Longrightarrow> (\<And>r. p r \<Longrightarrow> p (f r)) \<Longrightarrow> List.find p (update_where p f rs) = Some (f r)"
  unfolding update_where_def by (induction rs) (auto split: if_splits)

lemma filter_rest_update: "(\<And>r. p r \<Longrightarrow> p (f r)) \<Longrightarrow> filter (\<lambda>r. \<not> p r) (update_where p f rs) = filter (\<lambda>r. \<not> p r) rs"
  unfolding update_where_def by (induction rs) auto

lemma distinct_map_unique:
  "distinct (map key rs) \<Longrightarrow> r \<in> set rs \<Longrightarrow> r' \<in> set rs \<Longrightarrow> key r = key r' \<Longrightarrow> r = r'"
  by (metis distinct_map inj_onD)

lemma distinct_map_filterI: "distinct (map key rs) \<Longrightarrow> distinct (map key (filter p rs))"
  by (induction rs) auto

text \<open>Deleting the first rows that match, in some order, by their keys: that many rows match afterwards.\<close>

lemma count_deleted_batch:
  assumes "distinct (map key rs)"
  shows "count_where p (filter (\<lambda>r. key r \<notin> key ` set (take n (sort_key f (filter p rs)))) rs) = count_where p rs - n"
proof -
  let ?m = "filter p rs" and ?gone = "take n (sort_key f (filter p rs))"
  have d: "distinct ?m" using assms by (auto simp: distinct_map)
  have sub: "set ?gone \<subseteq> set ?m" by (auto dest: in_set_takeD)
  have mem: "key r \<in> key ` set ?gone \<longleftrightarrow> r \<in> set ?gone" if "r \<in> set ?m" for r
    using that sub distinct_map_unique [OF assms, of r] by auto
  have "filter p (filter (\<lambda>r. key r \<notin> key ` set ?gone) rs) = filter (\<lambda>r. r \<notin> set ?gone) ?m"
    using mem by (auto simp: filter_filter intro: filter_cong)
  moreover have "length (filter (\<lambda>r. r \<in> set ?gone) ?m) = length ?gone"
  proof -
    have "set (filter (\<lambda>r. r \<in> set ?gone) ?m) = set ?gone" using sub by auto
    moreover have "distinct ?gone" using d by simp
    ultimately show ?thesis using d by (metis distinct_card distinct_filter)
  qed
  moreover have "length (filter (\<lambda>r. r \<in> set ?gone) ?m) + length (filter (\<lambda>r. r \<notin> set ?gone) ?m) = length ?m"
    by (rule sum_length_filter_compl)
  ultimately show ?thesis by (simp add: count_where_def)
qed

text \<open>The first separator of a text splits it in one way.\<close>

lemma separator_unique: "z \<notin> set x \<Longrightarrow> z \<notin> set x' \<Longrightarrow> x @ z # y = x' @ z # y' \<Longrightarrow> x = x' \<and> y = y'"
proof (induction x arbitrary: x')
  case Nil
  then show ?case by (cases x') auto
next
  case (Cons c x)
  then show ?case by (cases x') auto
qed

section \<open>Results\<close>

text \<open>A fallible call without effects returns \<open>Inl\<close> of the error or \<open>Inr\<close> of the value.\<close>

definition bind_res :: "('e + 'a) \<Rightarrow> ('a \<Rightarrow> 'e + 'b) \<Rightarrow> 'e + 'b" where
  "bind_res r f = (case r of Inl e \<Rightarrow> Inl e | Inr x \<Rightarrow> f x)"

lemma bind_res_simps [simp]: "bind_res (Inl e) f = Inl e" "bind_res (Inr x) f = f x"
  by (simp_all add: bind_res_def)

lemma bind_res_Inr: "bind_res r f = Inr y \<longleftrightarrow> (\<exists>x. r = Inr x \<and> f x = Inr y)"
  by (cases r) auto

end
