(* ===== verification/Go_Text.thy ===== *)
theory Go_Text
  imports Prelude
begin

text \<open>
  The parts of Go's \<open>strings\<close>, \<open>unicode\<close> and \<open>unicode/utf8\<close> packages the
  modelled code calls, on byte strings: \<open>TrimSpace\<close> with every Unicode space,
  \<open>Cut\<close>, \<open>CutPrefix\<close>, \<open>HasPrefix\<close>, \<open>Split\<close>, \<open>EqualFold\<close> on ASCII, the UTF-8 decoder
  behind \<open>range\<close> and \<open>RuneCountInString\<close>, and the anchored regular expressions
  for dotted lowercase names. These model the language's library, not the repository.
\<close>

abbreviation byte :: "char \<Rightarrow> nat" where "byte c \<equiv> of_char c"

definition bytes_of :: "nat list \<Rightarrow> string" where
  "bytes_of = map char_of"

section \<open>Prefixes and separators\<close>

definition has_prefix :: "string \<Rightarrow> string \<Rightarrow> bool" where
  "has_prefix s p = (take (length p) s = p)"

definition cut_prefix :: "string \<Rightarrow> string \<Rightarrow> string option" where
  "cut_prefix s p = (if has_prefix s p then Some (drop (length p) s) else None)"

lemma has_prefix_append [simp]: "has_prefix (p @ s) p"
  by (simp add: has_prefix_def)

lemma cut_prefix_append [simp]: "cut_prefix (p @ s) p = Some s"
  by (simp add: cut_prefix_def)

lemma cut_prefix_Some: "cut_prefix s p = Some r \<longleftrightarrow> s = p @ r"
proof
  assume "cut_prefix s p = Some r"
  then have "take (length p) s = p" and "drop (length p) s = r"
    by (auto simp: cut_prefix_def has_prefix_def split: if_splits)
  then show "s = p @ r" by (metis append_take_drop_id)
qed simp

text \<open>\<open>strings.Split\<close> on a one-byte separator: one more part than there are separators.\<close>

fun split_on :: "char \<Rightarrow> string \<Rightarrow> string list" where
  "split_on c [] = [[]]"
| "split_on c (x # s) =
     (if x = c then [] # split_on c s
      else case split_on c s of [] \<Rightarrow> [[x]] | p # ps \<Rightarrow> (x # p) # ps)"

text \<open>\<open>strings.Cut\<close> on a one-byte separator.\<close>

definition cut_at :: "char \<Rightarrow> string \<Rightarrow> string \<times> string \<times> bool" where
  "cut_at c s =
     (if c \<in> set s then (takeWhile (\<lambda>x. x \<noteq> c) s, drop 1 (dropWhile (\<lambda>x. x \<noteq> c) s), True)
      else (s, [], False))"

lemma split_on_not_Nil [simp]: "split_on c s \<noteq> []"
  by (cases s) (auto split: list.splits)

lemma cut_at_join: "cut_at c (a @ c # b) = (a, b, True)" if "c \<notin> set a"
proof -
  from that have tw: "takeWhile (\<lambda>x. x \<noteq> c) (a @ c # b) = a"
    by (subst takeWhile_append2) auto
  from that have dw: "dropWhile (\<lambda>x. x \<noteq> c) (a @ c # b) = c # b"
    by (subst dropWhile_append2) auto
  show ?thesis by (simp add: cut_at_def tw dw)
qed

section \<open>White space\<close>

text \<open>The UTF-8 encodings of the characters \<open>unicode.IsSpace\<close> accepts.\<close>

definition space_seqs :: "string list" where
  "space_seqs = map bytes_of
     ([[9], [10], [11], [12], [13], [32], [194, 133], [194, 160], [225, 154, 128]]
      @ map (\<lambda>b. [226, 128, b]) [128, 129, 130, 131, 132, 133, 134, 135, 136, 137, 138, 168, 169, 175]
      @ [[226, 129, 159], [227, 128, 128]])"

definition leading_space :: "string \<Rightarrow> string option" where
  "leading_space s = List.find (\<lambda>w. has_prefix s w) space_seqs"

fun trim_left :: "nat \<Rightarrow> string \<Rightarrow> string" where
  "trim_left 0 s = s"
| "trim_left (Suc n) s =
     (case leading_space s of None \<Rightarrow> s | Some w \<Rightarrow> trim_left n (drop (length w) s))"

definition trailing_space :: "string \<Rightarrow> string option" where
  "trailing_space s = List.find (\<lambda>w. has_prefix (rev s) (rev w)) space_seqs"

fun trim_right :: "nat \<Rightarrow> string \<Rightarrow> string" where
  "trim_right 0 s = s"
| "trim_right (Suc n) s =
     (case trailing_space s of None \<Rightarrow> s
      | Some w \<Rightarrow> trim_right n (take (length s - length w) s))"

text \<open>Each round removes at least one byte, so \<open>length s\<close> rounds are enough.\<close>

definition TrimSpace :: "string \<Rightarrow> string" where
  "TrimSpace s = (let t = trim_left (length s) s in trim_right (length t) t)"

lemma space_seqs_nonempty: "w \<in> set space_seqs \<Longrightarrow> w \<noteq> []"
  by (auto simp: space_seqs_def bytes_of_def)

lemma leading_space_shorter:
  assumes "leading_space s = Some w"
  shows "length (drop (length w) s) < length s"
proof -
  from assms have "w \<in> set space_seqs" and "has_prefix s w"
    by (auto simp: leading_space_def dest: find_SomeD)
  then have "w \<noteq> []" and "length w \<le> length s"
    by (auto simp: space_seqs_nonempty has_prefix_def dest: arg_cong [where f = length])
  then show ?thesis by (cases w) auto
qed

lemma trim_left_done: "length s \<le> n \<Longrightarrow> leading_space (trim_left n s) = None"
proof (induction n arbitrary: s)
  case 0
  then show ?case by (simp add: leading_space_def space_seqs_def bytes_of_def has_prefix_def)
next
  case (Suc n)
  show ?case
  proof (cases "leading_space s")
    case (Some w)
    with leading_space_shorter Suc.prems have "length (drop (length w) s) \<le> n" by force
    with Some Suc.IH show ?thesis by simp
  qed simp
qed

lemma trailing_space_shorter:
  assumes "trailing_space s = Some w"
  shows "length (take (length s - length w) s) < length s"
proof -
  from assms have "w \<in> set space_seqs" and "has_prefix (rev s) (rev w)"
    by (auto simp: trailing_space_def dest: find_SomeD)
  then have "w \<noteq> []" and "length w \<le> length s"
    by (auto simp: space_seqs_nonempty has_prefix_def dest: arg_cong [where f = length])
  then show ?thesis by (cases w) auto
qed

lemma trim_right_done: "length s \<le> n \<Longrightarrow> trailing_space (trim_right n s) = None"
proof (induction n arbitrary: s)
  case 0
  then show ?case by (simp add: trailing_space_def space_seqs_def bytes_of_def has_prefix_def)
next
  case (Suc n)
  show ?case
  proof (cases "trailing_space s")
    case (Some w)
    with trailing_space_shorter Suc.prems have "length (take (length s - length w) s) \<le> n" by force
    with Some Suc.IH show ?thesis by simp
  qed simp
qed

lemma trailing_space_TrimSpace: "trailing_space (TrimSpace s) = None"
  by (simp add: TrimSpace_def Let_def trim_right_done)

lemma trim_left_None: "leading_space s = None \<Longrightarrow> trim_left n s = s"
  by (cases n) auto

lemma trim_right_None: "trailing_space s = None \<Longrightarrow> trim_right n s = s"
  by (cases n) auto

lemma TrimSpace_Nil [simp]: "TrimSpace [] = []"
  by (simp add: TrimSpace_def)

lemma space_seqs_ends: "w \<in> set space_seqs \<Longrightarrow> w \<noteq> [] \<and> (byte (hd w) \<le> 32 \<or> 128 \<le> byte (hd w)) \<and> (byte (last w) \<le> 32 \<or> 128 \<le> byte (last w))"
  by (auto simp: space_seqs_def bytes_of_def)

lemma has_prefix_hd: "has_prefix s w \<Longrightarrow> w \<noteq> [] \<Longrightarrow> s \<noteq> [] \<and> hd w = hd s"
  by (cases s; cases w) (auto simp: has_prefix_def)

text \<open>Text that starts and ends with visible ASCII stays as it is.\<close>

lemma TrimSpace_plain:
  assumes "32 < byte (hd s)" "byte (hd s) < 128" "32 < byte (last s)" "byte (last s) < 128"
  shows "TrimSpace s = s"
proof -
  have "\<not> has_prefix s w" if "w \<in> set space_seqs" for w
    using space_seqs_ends [OF that] has_prefix_hd [of s w] assms by auto
  then have "leading_space s = None" by (auto simp: leading_space_def find_None_iff)
  moreover have "\<not> has_prefix (rev s) (rev w)" if "w \<in> set space_seqs" for w
    using space_seqs_ends [OF that] has_prefix_hd [of "rev s" "rev w"] assms by (auto simp: hd_rev)
  then have "trailing_space s = None" by (auto simp: trailing_space_def find_None_iff)
  ultimately show ?thesis by (simp add: TrimSpace_def trim_left_None trim_right_None)
qed

section \<open>Runes\<close>

text \<open>\<open>utf8.DecodeRuneInString\<close>: the rune and its width; invalid input is U+FFFD of width 1.\<close>

definition cont_ok :: "nat \<Rightarrow> nat \<Rightarrow> nat \<Rightarrow> bool" where
  "cont_ok lo hi b = (lo \<le> b \<and> b \<le> hi)"

fun decode_rune :: "string \<Rightarrow> nat \<times> nat" where
  "decode_rune [] = (65533, 0)"
| "decode_rune (a # s) =
     (let b0 = byte a in
      if b0 < 128 then (b0, 1)
      else if 194 \<le> b0 \<and> b0 \<le> 223 then
        (case s of
           b # _ \<Rightarrow> if cont_ok 128 191 (byte b) then ((b0 - 192) * 64 + (byte b - 128), 2) else (65533, 1)
         | [] \<Rightarrow> (65533, 1))
      else if 224 \<le> b0 \<and> b0 \<le> 239 then
        (let lo = (if b0 = 224 then 160 else 128); hi = (if b0 = 237 then 159 else 191) in
         case s of
           b # c # _ \<Rightarrow>
             if cont_ok lo hi (byte b) \<and> cont_ok 128 191 (byte c)
             then ((b0 - 224) * 4096 + (byte b - 128) * 64 + (byte c - 128), 3) else (65533, 1)
         | _ \<Rightarrow> (65533, 1))
      else if 240 \<le> b0 \<and> b0 \<le> 244 then
        (let lo = (if b0 = 240 then 144 else 128); hi = (if b0 = 244 then 143 else 191) in
         case s of
           b # c # d # _ \<Rightarrow>
             if cont_ok lo hi (byte b) \<and> cont_ok 128 191 (byte c) \<and> cont_ok 128 191 (byte d)
             then ((b0 - 240) * 262144 + (byte b - 128) * 4096 + (byte c - 128) * 64 + (byte d - 128), 4)
             else (65533, 1)
         | _ \<Rightarrow> (65533, 1))
      else (65533, 1))"

fun runes :: "string \<Rightarrow> nat list" where
  "runes [] = []"
| "runes (a # s) = fst (decode_rune (a # s)) # runes (drop (snd (decode_rune (a # s)) - 1) s)"

definition rune_count :: "string \<Rightarrow> nat" where
  "rune_count s = length (runes s)"

definition is_control :: "nat \<Rightarrow> bool" where
  "is_control r = (r < 32 \<or> (127 \<le> r \<and> r < 160))"

lemma runes_ascii: "\<forall>c \<in> set s. byte c < 128 \<Longrightarrow> runes s = map byte s"
  by (induction s) auto

lemma rune_count_le: "rune_count s \<le> length s"
proof -
  have "length (runes s) \<le> length s" for s
  proof (induction s rule: runes.induct)
    case (2 a s)
    let ?n = "snd (decode_rune (a # s)) - 1"
    have "length (runes (drop ?n s)) \<le> length (drop ?n s)" by (rule "2.IH")
    also have "\<dots> \<le> length s" by (simp only: length_drop diff_le_self)
    finally show ?case by (simp only: runes.simps length_Cons Suc_le_mono)
  qed simp
  then show ?thesis by (simp add: rune_count_def)
qed

section \<open>Dotted lowercase names\<close>

definition name_start :: "char \<Rightarrow> bool" where
  "name_start c = (97 \<le> byte c \<and> byte c \<le> 122)"

definition name_char :: "char \<Rightarrow> bool" where
  "name_char c = (name_start c \<or> (48 \<le> byte c \<and> byte c \<le> 57) \<or> c = CHR ''_'')"

text \<open>\<open>^[a-z][a-z0-9_]*$\<close>\<close>

fun snake_name :: "string \<Rightarrow> bool" where
  "snake_name [] = False"
| "snake_name (c # s) = (name_start c \<and> list_all name_char s)"

text \<open>\<open>^[a-z][a-z0-9_]*(\.[a-z][a-z0-9_]*)*$\<close>, and with \<open>+\<close> for the last star.\<close>

definition dotted_name :: "string \<Rightarrow> bool" where
  "dotted_name s = list_all snake_name (split_on CHR ''.'' s)"

definition dotted_name2 :: "string \<Rightarrow> bool" where
  "dotted_name2 s = (dotted_name s \<and> 2 \<le> length (split_on CHR ''.'' s))"

lemma split_on_mem: "c \<in> set s \<Longrightarrow> c \<noteq> z \<Longrightarrow> \<exists>p \<in> set (split_on z s). c \<in> set p"
proof (induction s)
  case (Cons x s)
  then show ?case by (cases "split_on z s") auto
qed simp

lemma dotted_name_chars: "dotted_name s \<Longrightarrow> c \<in> set s \<Longrightarrow> c = CHR ''.'' \<or> name_char c"
proof -
  assume d: "dotted_name s" "c \<in> set s"
  have "snake_name p \<Longrightarrow> c \<in> set p \<Longrightarrow> name_char c" for p
    by (cases p) (auto simp: name_char_def list_all_iff)
  with d split_on_mem [of c s "CHR ''.''"] show ?thesis by (auto simp: dotted_name_def list_all_iff)
qed

section \<open>Header names\<close>

text \<open>\<open>http.CanonicalHeaderKey\<close>, which the header map's methods apply to names.\<close>

definition header_byte :: "char \<Rightarrow> bool" where
  "header_byte c = (48 \<le> byte c \<and> byte c \<le> 57 \<or> 65 \<le> byte c \<and> byte c \<le> 90 \<or> 97 \<le> byte c \<and> byte c \<le> 122 \<or>
     byte c \<in> {33, 35, 36, 37, 38, 39, 42, 43, 45, 46, 94, 95, 96, 124, 126})"

fun canon :: "bool \<Rightarrow> string \<Rightarrow> string" where
  "canon upper [] = []"
| "canon upper (c # s) =
     (if upper \<and> 97 \<le> byte c \<and> byte c \<le> 122 then char_of (byte c - 32)
      else if \<not> upper \<and> 65 \<le> byte c \<and> byte c \<le> 90 then char_of (byte c + 32) else c) # canon (c = CHR ''-'') s"

definition CanonicalHeaderKey :: "string \<Rightarrow> string" where
  "CanonicalHeaderKey s = (if list_all header_byte s then canon True s else s)"

end
