(* ===== verification/Access.thy ===== *)
theory Access
  imports Go_Text
begin

text \<open>
  Who acts and what they may do: actors and the permission check (\<open>actor/actor.go\<close>,
  \<open>actor/require.go\<close>), the catalog of permissions and roles with its two-factor rule
  (\<open>modules/auth/catalog.go\<close>, \<open>catalog_mfa.go\<close>), and the principal of a request with the
  restriction of API keys (\<open>modules/auth/middleware.go\<close>, \<open>apikey.go\<close>).

  A declaration that panics returns \<open>None\<close>. The catalog's invariant \<open>catalog_ok\<close> (role
  names are declared once, a role grants declared permissions only, sorted and without
  duplicates, and two-factor roles are declared roles) holds of the empty catalog and is
  kept by every declaration.
\<close>

section \<open>Actors\<close>

type_synonym Kind = string

abbreviation KindUser :: Kind where "KindUser \<equiv> ''user''"
abbreviation KindService :: Kind where "KindService \<equiv> ''service''"
abbreviation KindSystem :: Kind where "KindSystem \<equiv> ''system''"
abbreviation KindAnonymous :: Kind where "KindAnonymous \<equiv> ''anonymous''"

record Actor =
  a_Kind :: Kind
  a_ID :: string
  a_Label :: string
  a_OrgID :: string
  a_Permissions :: "string list"
  a_StepUp :: "string list"

definition Anonymous :: Actor where
  "Anonymous = \<lparr>a_Kind = KindAnonymous, a_ID = [], a_Label = [], a_OrgID = [],
     a_Permissions = [], a_StepUp = []\<rparr>"

definition System :: "string \<Rightarrow> Actor" where
  "System name = \<lparr>a_Kind = KindSystem, a_ID = name, a_Label = name, a_OrgID = [],
     a_Permissions = [], a_StepUp = []\<rparr>"

definition Can :: "Actor \<Rightarrow> string \<Rightarrow> bool" where
  "Can a permission = (permission \<in> set (a_Permissions a))"

section \<open>Principals\<close>

record Principal =
  p_UserID :: string
  p_SessionID :: string
  p_Permissions :: "string list"
  p_StepUp :: "string list"
  p_MFAVerified :: bool
  p_MFAVerifiedAt :: time
  p_SignedInAt :: time
  p_APIKeyID :: string
  p_Scopes :: "string list"
  p_ServiceAccountID :: string
  p_OrgID :: string

text \<open>Go's zero \<open>Principal\<close>, which \<open>PrincipalFrom\<close> returns when the context has none.\<close>

definition zero_Principal :: Principal where
  "zero_Principal = \<lparr>p_UserID = [], p_SessionID = [], p_Permissions = [], p_StepUp = [],
     p_MFAVerified = False, p_MFAVerifiedAt = 0, p_SignedInAt = 0, p_APIKeyID = [], p_Scopes = [],
     p_ServiceAccountID = [], p_OrgID = []\<rparr>"

record Client =
  cl_IP :: string
  cl_UserAgent :: string

text \<open>The values of a \<open>context.Context\<close> the modelled code reads; the trace ID is that of the span
  in the context, empty without one.\<close>

record ctx =
  ctx_actor :: "Actor option"
  ctx_principal :: "Principal option"
  ctx_request_id :: string
  ctx_trace_id :: string
  ctx_client :: "Client option"

definition Background :: ctx where
  "Background = \<lparr>ctx_actor = None, ctx_principal = None, ctx_request_id = [], ctx_trace_id = [],
     ctx_client = None\<rparr>"

definition With :: "ctx \<Rightarrow> Actor \<Rightarrow> ctx" where
  "With c a = c\<lparr>ctx_actor := Some a\<rparr>"

definition From :: "ctx \<Rightarrow> Actor option" where
  "From c = ctx_actor c"

definition FromOrAnonymous :: "ctx \<Rightarrow> Actor" where
  "FromOrAnonymous c = (case From c of Some a \<Rightarrow> a | None \<Rightarrow> Anonymous)"

definition PrincipalFrom :: "ctx \<Rightarrow> Principal option" where
  "PrincipalFrom c = ctx_principal c"

definition WithClient :: "ctx \<Rightarrow> Client \<Rightarrow> ctx" where
  "WithClient c cl = c\<lparr>ctx_client := Some cl\<rparr>"

definition ClientFrom :: "ctx \<Rightarrow> Client option" where
  "ClientFrom c = ctx_client c"

definition RecentVerification :: duration where
  "RecentVerification = 10 * minute"

definition RecentlySignedIn :: "Principal \<Rightarrow> time \<Rightarrow> bool" where
  "RecentlySignedIn p now = (p_SignedInAt p \<noteq> 0 \<and> now - p_SignedInAt p < RecentVerification)"

definition RecentlyVerified :: "Principal \<Rightarrow> time \<Rightarrow> bool" where
  "RecentlyVerified p now =
     (p_MFAVerified p \<and> p_MFAVerifiedAt p \<noteq> 0 \<and> now - p_MFAVerifiedAt p < RecentVerification)"

definition APIKey :: "Principal \<Rightarrow> bool" where
  "APIKey p = (p_APIKeyID p \<noteq> [])"

definition Restrict :: "Principal \<Rightarrow> string list \<Rightarrow> string list \<Rightarrow> string list \<times> string list" where
  "Restrict p granted stepUp =
     (if \<not> APIKey p then (granted, stepUp)
      else if p_Scopes p = [] then (granted, [])
      else (filter (\<lambda>perm. perm \<in> set (p_Scopes p)) granted, []))"

definition WithPrincipal :: "ctx \<Rightarrow> Principal \<Rightarrow> ctx" where
  "WithPrincipal c p =
     (let (perms, step) = Restrict p (p_Permissions p) (p_StepUp p);
          p' = p\<lparr>p_Permissions := perms, p_StepUp := step\<rparr>;
          a = \<lparr>a_Kind = KindUser, a_ID = p_UserID p', a_Label = [], a_OrgID = [],
               a_Permissions = perms, a_StepUp = step\<rparr>;
          a' = (if p_ServiceAccountID p' \<noteq> []
                then a\<lparr>a_Kind := KindService, a_ID := p_ServiceAccountID p'\<rparr> else a)
      in With (c\<lparr>ctx_principal := Some p'\<rparr>) a')"

section \<open>The permission check\<close>

datatype access_error = ErrUnauthenticated | ErrForbidden | ErrStepUpRequired

definition Require :: "ctx \<Rightarrow> string \<Rightarrow> access_error + unit" where
  "Require c permission =
     (case From c of
        None \<Rightarrow> Inl ErrUnauthenticated
      | Some a \<Rightarrow>
          if a_Kind a = KindAnonymous then Inl ErrUnauthenticated
          else if Can a permission then Inr ()
          else if permission \<in> set (a_StepUp a) then Inl ErrStepUpRequired
          else Inl ErrForbidden)"

section \<open>The catalog\<close>

record Role =
  role_Name :: string
  role_Description :: string
  role_Permissions :: "string list"

record Permission =
  perm_Name :: string
  perm_Description :: string

record Catalog =
  c_permissions :: "Permission list"
  c_roles :: "Role list"
  c_mfaRoles :: "string list"
  c_frozen :: bool

definition NewCatalog :: Catalog where
  "NewCatalog = \<lparr>c_permissions = [], c_roles = [], c_mfaRoles = [], c_frozen = False\<rparr>"

definition hasPermission :: "Catalog \<Rightarrow> string \<Rightarrow> bool" where
  "hasPermission c name = (name \<in> perm_Name ` set (c_permissions c))"

definition HasRole :: "Catalog \<Rightarrow> string \<Rightarrow> bool" where
  "HasRole c role = (role \<in> role_Name ` set (c_roles c))"

definition declare_Permission :: "Catalog \<Rightarrow> string \<Rightarrow> string \<Rightarrow> Catalog option" where
  "declare_Permission c name description =
     (if c_frozen c then None
      else if \<not> dotted_name name then None
      else if hasPermission c name then None
      else Some (c\<lparr>c_permissions := c_permissions c @
             [\<lparr>perm_Name = name, perm_Description = description\<rparr>]\<rparr>))"

definition declare_Role :: "Catalog \<Rightarrow> string \<Rightarrow> string \<Rightarrow> string list \<Rightarrow> Catalog option" where
  "declare_Role c name description permissions =
     (if c_frozen c then None
      else if \<not> dotted_name name then None
      else if HasRole c name then None
      else if \<not> list_all (hasPermission c) permissions then None
      else Some (c\<lparr>c_roles := c_roles c @
             [\<lparr>role_Name = name, role_Description = description,
               role_Permissions = sort_compact permissions\<rparr>]\<rparr>))"

fun RequireMFA :: "Catalog \<Rightarrow> string list \<Rightarrow> Catalog option" where
  "RequireMFA c [] = Some c"
| "RequireMFA c (r # rs) =
     (if c_frozen c then None
      else if \<not> HasRole c r then None
      else RequireMFA (if r \<in> set (c_mfaRoles c) then c
                       else c\<lparr>c_mfaRoles := c_mfaRoles c @ [r]\<rparr>) rs)"

definition Freeze :: "Catalog \<Rightarrow> Catalog" where
  "Freeze c = c\<lparr>c_frozen := True\<rparr>"

definition RequiresMFA :: "Catalog \<Rightarrow> string list \<Rightarrow> bool" where
  "RequiresMFA c roles = (\<exists>r \<in> set roles. r \<in> set (c_mfaRoles c))"

definition Permissions :: "Catalog \<Rightarrow> string list \<Rightarrow> string list" where
  "Permissions c roles =
     sort_compact (concat (map role_Permissions (filter (\<lambda>r. role_Name r \<in> set roles) (c_roles c))))"

definition PermissionsFor :: "Catalog \<Rightarrow> string list \<Rightarrow> bool \<Rightarrow> string list \<times> string list" where
  "PermissionsFor c roles mfaVerified =
     (let held = filter (\<lambda>r. role_Name r \<in> set roles) (c_roles c);
          free = filter (\<lambda>r. mfaVerified \<or> role_Name r \<notin> set (c_mfaRoles c)) held;
          strong = filter (\<lambda>r. \<not> (mfaVerified \<or> role_Name r \<notin> set (c_mfaRoles c))) held;
          granted = sort_compact (concat (map role_Permissions free));
          stepUp = filter (\<lambda>p. p \<notin> set granted) (concat (map role_Permissions strong))
      in (granted, sort_compact stepUp))"

section \<open>The catalog's invariant\<close>

definition catalog_ok :: "Catalog \<Rightarrow> bool" where
  "catalog_ok c \<longleftrightarrow>
     distinct (map perm_Name (c_permissions c)) \<and> distinct (map role_Name (c_roles c)) \<and>
     (\<forall>r \<in> set (c_roles c). sorted (role_Permissions r) \<and> distinct (role_Permissions r) \<and>
        (\<forall>p \<in> set (role_Permissions r). hasPermission c p)) \<and>
     distinct (c_mfaRoles c) \<and> (\<forall>r \<in> set (c_mfaRoles c). HasRole c r)"

lemma catalog_ok_New: "catalog_ok NewCatalog"
  by (simp add: catalog_ok_def NewCatalog_def)

lemma declare_Permission_ok:
  "catalog_ok c \<Longrightarrow> declare_Permission c n d = Some c' \<Longrightarrow> catalog_ok c'"
  by (auto simp: catalog_ok_def declare_Permission_def hasPermission_def HasRole_def split: if_splits)

lemma declare_Role_ok:
  "catalog_ok c \<Longrightarrow> declare_Role c n d ps = Some c' \<Longrightarrow> catalog_ok c'"
  by (auto simp: catalog_ok_def declare_Role_def hasPermission_def HasRole_def list_all_iff
      split: if_splits)

lemma catalog_ok_add_mfa:
  "catalog_ok c \<Longrightarrow> HasRole c r \<Longrightarrow> r \<notin> set (c_mfaRoles c) \<Longrightarrow>
     catalog_ok (c\<lparr>c_mfaRoles := c_mfaRoles c @ [r]\<rparr>)"
  by (simp add: catalog_ok_def hasPermission_def HasRole_def)

lemma RequireMFA_ok: "catalog_ok c \<Longrightarrow> RequireMFA c rs = Some c' \<Longrightarrow> catalog_ok c'"
proof (induction rs arbitrary: c)
  case (Cons r rs)
  let ?c = "if r \<in> set (c_mfaRoles c) then c else c\<lparr>c_mfaRoles := c_mfaRoles c @ [r]\<rparr>"
  from Cons.prems have "HasRole c r" and run: "RequireMFA ?c rs = Some c'"
    by (simp_all split: if_splits)
  with Cons.prems have "catalog_ok ?c" by (simp add: catalog_ok_add_mfa)
  then show ?case using run by (rule Cons.IH)
qed simp

lemma Freeze_ok: "catalog_ok c \<Longrightarrow> catalog_ok (Freeze c)"
  by (simp add: catalog_ok_def Freeze_def hasPermission_def HasRole_def)

text \<open>A run of declarations, in any order, as start-up code makes them.\<close>

datatype decl_step =
    DeclPermission string string
  | DeclRole string string "string list"
  | DeclMFA "string list"
  | DeclFreeze

fun declare1 :: "Catalog \<Rightarrow> decl_step \<Rightarrow> Catalog option" where
  "declare1 c (DeclPermission n d) = declare_Permission c n d"
| "declare1 c (DeclRole n d ps) = declare_Role c n d ps"
| "declare1 c (DeclMFA rs) = RequireMFA c rs"
| "declare1 c DeclFreeze = Some (Freeze c)"

fun declare_all :: "Catalog \<Rightarrow> decl_step list \<Rightarrow> Catalog option" where
  "declare_all c [] = Some c"
| "declare_all c (d # ds) = Option.bind (declare1 c d) (\<lambda>c'. declare_all c' ds)"

lemma declare1_ok: "catalog_ok c \<Longrightarrow> declare1 c d = Some c' \<Longrightarrow> catalog_ok c'"
  by (cases d) (auto intro: declare_Permission_ok declare_Role_ok RequireMFA_ok Freeze_ok)

lemma declare_all_ok: "catalog_ok c \<Longrightarrow> declare_all c ds = Some c' \<Longrightarrow> catalog_ok c'"
  by (induction ds arbitrary: c) (auto simp: bind_eq_Some_conv intro: declare1_ok)

lemma frozen_declares_nothing:
  "c_frozen c \<Longrightarrow> declare1 c d = Some c' \<Longrightarrow> c' = c"
  by (cases "(c, d)" rule: declare1.cases)
    (auto simp: declare_Permission_def declare_Role_def Freeze_def elim: RequireMFA.elims)

section \<open>What roles grant\<close>

lemma set_Permissions:
  "set (Permissions c roles) =
     \<Union> (set ` role_Permissions ` {r \<in> set (c_roles c). role_Name r \<in> set roles})"
  by (auto simp: Permissions_def)

lemma set_PermissionsFor:
  "set (fst (PermissionsFor c roles mfa)) =
     \<Union> (set ` role_Permissions ` {r \<in> set (c_roles c). role_Name r \<in> set roles \<and>
       (mfa \<or> role_Name r \<notin> set (c_mfaRoles c))})"
  by (auto simp: PermissionsFor_def Let_def)

lemma PermissionsFor_disjoint:
  "set (fst (PermissionsFor c roles mfa)) \<inter> set (snd (PermissionsFor c roles mfa)) = {}"
  by (auto simp: PermissionsFor_def Let_def)

lemma PermissionsFor_union:
  "set (fst (PermissionsFor c roles mfa)) \<union> set (snd (PermissionsFor c roles mfa)) =
     set (Permissions c roles)"
  by (auto simp: PermissionsFor_def Let_def Permissions_def)

lemma PermissionsFor_verified: "PermissionsFor c roles True = (Permissions c roles, [])"
  by (simp add: PermissionsFor_def Permissions_def Let_def)

lemma PermissionsFor_le: "set (fst (PermissionsFor c roles mfa)) \<subseteq> set (Permissions c roles)"
  using PermissionsFor_union by blast

lemma Restrict_fst_subset: "set (fst (Restrict p g s)) \<subseteq> set g"
  by (auto simp: Restrict_def)

lemma Restrict_APIKey_snd: "APIKey p \<Longrightarrow> snd (Restrict p g s) = []"
  by (simp add: Restrict_def)

lemma Restrict_scoped:
  "APIKey p \<Longrightarrow> p_Scopes p \<noteq> [] \<Longrightarrow> set (fst (Restrict p g s)) = set g \<inter> set (p_Scopes p)"
  by (auto simp: Restrict_def)

lemma Permissions_undeclared:
  "(\<And>r. r \<in> set roles \<Longrightarrow> \<not> HasRole c r) \<Longrightarrow> Permissions c roles = []"
proof -
  assume "\<And>r. r \<in> set roles \<Longrightarrow> \<not> HasRole c r"
  then have "filter (\<lambda>r. role_Name r \<in> set roles) (c_roles c) = []"
    by (auto simp: HasRole_def filter_empty_conv)
  then show ?thesis by (simp add: Permissions_def)
qed

end
