(* ===== verification/Audit_Events.thy ===== *)
theory Audit_Events
  imports Access
begin

text \<open>
  Audit events (\<open>audit/audit.go\<close>): the event, its validation and how a recorder completes it
  from the request's context; and request IDs (\<open>requestid/requestid.go\<close>).
\<close>

section \<open>Request IDs\<close>

definition MaxLength :: nat where
  "MaxLength = 128"

definition id_char :: "char \<Rightarrow> bool" where
  "id_char c = ((97 \<le> byte c \<and> byte c \<le> 122) \<or> (65 \<le> byte c \<and> byte c \<le> 90) \<or>
     (48 \<le> byte c \<and> byte c \<le> 57) \<or> c \<in> set ''-_.:'')"

definition Valid_request_id :: "string \<Rightarrow> bool" where
  "Valid_request_id s = (s \<noteq> [] \<and> length s \<le> MaxLength \<and> list_all id_char s)"

section \<open>Events\<close>

type_synonym Outcome = string

abbreviation OutcomeSuccess :: Outcome where "OutcomeSuccess \<equiv> ''success''"
abbreviation OutcomeFailure :: Outcome where "OutcomeFailure \<equiv> ''failure''"
abbreviation OutcomeDenied :: Outcome where "OutcomeDenied \<equiv> ''denied''"

text \<open>The kinds of value the modelled code puts in an event's metadata.\<close>

datatype meta = MStr string | MBool bool | MInt int | MTime time

record Event =
  e_OccurredAt :: time
  e_ActorKind :: Kind
  e_ActorID :: string
  e_ActorLabel :: string
  e_Action :: string
  e_ResourceType :: string
  e_ResourceID :: string
  e_Outcome :: Outcome
  e_OrgID :: string
  e_RequestID :: string
  e_TraceID :: string
  e_IP :: string
  e_UserAgent :: string
  e_Metadata :: "(string \<times> meta) list"

definition zero_Event :: Event where
  "zero_Event = \<lparr>e_OccurredAt = 0, e_ActorKind = [], e_ActorID = [], e_ActorLabel = [], e_Action = [],
     e_ResourceType = [], e_ResourceID = [], e_Outcome = [], e_OrgID = [], e_RequestID = [],
     e_TraceID = [], e_IP = [], e_UserAgent = [], e_Metadata = []\<rparr>"

definition Validate_event :: "Event \<Rightarrow> bool" where
  "Validate_event e = (dotted_name2 (e_Action e) \<and>
     e_Outcome e \<in> {OutcomeSuccess, OutcomeFailure, OutcomeDenied})"

definition fill_actor :: "ctx \<Rightarrow> Event \<Rightarrow> Event" where
  "fill_actor c e =
     (case From c of
        None \<Rightarrow> e
      | Some a \<Rightarrow>
          let e = (if e_ActorKind e = [] then e\<lparr>e_ActorKind := a_Kind a, e_ActorID := a_ID a, e_ActorLabel := a_Label a\<rparr> else e)
          in if e_OrgID e = [] then e\<lparr>e_OrgID := a_OrgID a\<rparr> else e)"

definition FromContext :: "ctx \<Rightarrow> Event \<Rightarrow> Event" where
  "FromContext c e =
     (let e = fill_actor c e;
          e = (if e_ActorKind e = [] then e\<lparr>e_ActorKind := KindAnonymous\<rparr> else e);
          e = (if e_RequestID e = [] then e\<lparr>e_RequestID := ctx_request_id c\<rparr> else e);
          e = (if e_TraceID e = [] then e\<lparr>e_TraceID := ctx_trace_id c\<rparr> else e)
      in case ClientFrom c of
           None \<Rightarrow> e
         | Some cl \<Rightarrow>
             let e = (if e_IP e = [] then e\<lparr>e_IP := cl_IP cl\<rparr> else e)
             in if e_UserAgent e = [] then e\<lparr>e_UserAgent := cl_UserAgent cl\<rparr> else e)"

text \<open>\<open>LogRecorder.Record\<close>, up to the line it logs: the completed event, or no event.\<close>

definition LogRecorder_Record :: "time \<Rightarrow> ctx \<Rightarrow> Event \<Rightarrow> Event option" where
  "LogRecorder_Record now c e =
     (let e = FromContext c e in
      if \<not> Validate_event e then None
      else Some (if e_OccurredAt e = 0 then e\<lparr>e_OccurredAt := now\<rparr> else e))"

section \<open>Facts\<close>

lemma FromContext_keeps:
  "e_Action (FromContext c e) = e_Action e" "e_Outcome (FromContext c e) = e_Outcome e"
  "e_ResourceType (FromContext c e) = e_ResourceType e" "e_ResourceID (FromContext c e) = e_ResourceID e"
  "e_Metadata (FromContext c e) = e_Metadata e" "e_OccurredAt (FromContext c e) = e_OccurredAt e"
  by (simp_all add: FromContext_def fill_actor_def Let_def split: option.splits)

lemma FromContext_OrgID:
  "e_OrgID (FromContext c e) =
     (if e_OrgID e \<noteq> [] then e_OrgID e else case From c of None \<Rightarrow> [] | Some a \<Rightarrow> a_OrgID a)"
  by (simp add: FromContext_def fill_actor_def Let_def split: option.splits)

lemma FromContext_ActorKind: "e_ActorKind (FromContext c e) \<noteq> []"
  by (simp add: FromContext_def fill_actor_def Let_def split: option.splits)

end
