(* ===== verification/Txn.thy ===== *)
theory Txn
  imports Prelude
begin

text \<open>
  The database boundary of the modules, from \<open>modules/postgres/tx.go\<close>: a computation
  runs statements against tables, and any statement, \<open>BEGIN\<close>, \<open>COMMIT\<close> or \<open>ROLLBACK\<close>
  may fail. A \<open>world\<close> carries the tables, the schedule of faults the driver will meet, the
  changes other sessions commit before the next transactions start, and a state of the
  component's own outside the database (audit events, outgoing email, limiters).

  A transaction runs atomically on the tables it finds: the row and advisory locks the
  statements take serialise the transactions that touch the same rows. What other
  sessions do between a use case's statements outside a transaction and its transaction
  is the next entry of \<open>others\<close>.
\<close>

text \<open>What happens to one round trip: it works, it fails before it has an effect, or its
  effect happens and the answer is lost.\<close>

datatype fault = Works | Fails | Lost

text \<open>Go errors: a driver error, an error of the module, or \<open>errors.Join\<close> of several.\<close>

datatype 'e goerr = Driver | Err 'e | Join "'e goerr list"

fun errors_is :: "'e goerr \<Rightarrow> 'e \<Rightarrow> bool" where
  "errors_is Driver t = False"
| "errors_is (Err e) t = (e = t)"
| "errors_is (Join es) t = (\<exists>e \<in> set es. errors_is e t)"

record ('db, 'x) world =
  db :: 'db
  faults :: "fault list"
  others :: "('db \<Rightarrow> 'db) list"
  ext :: 'x

type_synonym ('db, 'x, 'e, 'a) comp =
  "('db, 'x) world \<Rightarrow> ('e goerr + 'a) \<times> ('db, 'x) world"

section \<open>Computations\<close>

definition retC :: "'a \<Rightarrow> ('db, 'x, 'e, 'a) comp" where
  "retC x = (\<lambda>w. (Inr x, w))"

definition failC :: "'e goerr \<Rightarrow> ('db, 'x, 'e, 'a) comp" where
  "failC e = (\<lambda>w. (Inl e, w))"

definition bindC ::
  "('db, 'x, 'e, 'a) comp \<Rightarrow> ('a \<Rightarrow> ('db, 'x, 'e, 'b) comp) \<Rightarrow> ('db, 'x, 'e, 'b) comp" where
  "bindC m f = (\<lambda>w. case m w of (Inl e, w') \<Rightarrow> (Inl e, w') | (Inr x, w') \<Rightarrow> f x w')"

text \<open>A call whose error the caller inspects.\<close>

definition tryC :: "('db, 'x, 'e, 'a) comp \<Rightarrow> ('db, 'x, 'e, 'e goerr + 'a) comp" where
  "tryC m = (\<lambda>w. case m w of (r, w') \<Rightarrow> (Inr r, w'))"

text \<open>A call whose error the caller replaces (\<open>storeError\<close>, \<open>fmt.Errorf\<close>).\<close>

definition mapErrC :: "('e goerr \<Rightarrow> 'e goerr) \<Rightarrow> ('db, 'x, 'e, 'a) comp \<Rightarrow> ('db, 'x, 'e, 'a) comp" where
  "mapErrC g m = (\<lambda>w. case m w of (Inl e, w') \<Rightarrow> (Inl (g e), w') | (Inr x, w') \<Rightarrow> (Inr x, w'))"

text \<open>A pure check that fails with an error of the module.\<close>

definition liftC :: "('e + 'a) \<Rightarrow> ('db, 'x, 'e, 'a) comp" where
  "liftC r = (case r of Inl e \<Rightarrow> failC (Err e) | Inr x \<Rightarrow> retC x)"

definition extC :: "('x \<Rightarrow> 'x) \<Rightarrow> ('db, 'x, 'e, unit) comp" where
  "extC f = (\<lambda>w. (Inr (), w\<lparr>ext := f (ext w)\<rparr>))"

section \<open>Statements and transactions\<close>

fun pop :: "fault list \<Rightarrow> fault \<times> fault list" where
  "pop [] = (Works, [])"
| "pop (f # fs) = (f, fs)"

text \<open>One statement: a query or a change of the tables, with the errors it reports itself.\<close>

definition stmt :: "('db \<Rightarrow> ('e goerr + 'a) \<times> 'db) \<Rightarrow> ('db, 'x, 'e, 'a) comp" where
  "stmt f = (\<lambda>w. let (k, fs) = pop (faults w); w' = w\<lparr>faults := fs\<rparr> in
     case k of
       Works \<Rightarrow> (case f (db w) of (r, d) \<Rightarrow> (r, w'\<lparr>db := d\<rparr>))
     | Fails \<Rightarrow> (Inl Driver, w')
     | Lost \<Rightarrow> (Inl Driver, w'\<lparr>db := snd (f (db w))\<rparr>))"

definition query :: "('db \<Rightarrow> 'e goerr + 'a) \<Rightarrow> ('db, 'x, 'e, 'a) comp" where
  "query q = stmt (\<lambda>d. (q d, d))"

definition interfere :: "('db, 'x) world \<Rightarrow> ('db, 'x) world" where
  "interfere w = (case others w of [] \<Rightarrow> w | f # fs \<Rightarrow> w\<lparr>db := f (db w), others := fs\<rparr>)"

definition InTxWithOptions :: "('db, 'x, 'e, 'a) comp \<Rightarrow> ('db, 'x, 'e, 'a) comp" where
  "InTxWithOptions fn = (\<lambda>w.
     let (k, fs) = pop (faults w); w0 = interfere (w\<lparr>faults := fs\<rparr>) in
     if k \<noteq> Works then (Inl Driver, w0)
     else case fn w0 of
       (Inl e, w1) \<Rightarrow>
         (let (k, fs) = pop (faults w1); w2 = w1\<lparr>db := db w0, faults := fs\<rparr> in
          (Inl (if k = Works then e else Join [e, Driver]), w2))
     | (Inr x, w1) \<Rightarrow>
         (let (k, fs) = pop (faults w1); w2 = w1\<lparr>faults := fs\<rparr> in
          case k of
            Works \<Rightarrow> (Inr x, w2)
          | Fails \<Rightarrow> (Inl Driver, w2\<lparr>db := db w0\<rparr>)
          | Lost \<Rightarrow> (Inl Driver, w2)))"

definition InTx :: "('db, 'x, 'e, 'a) comp \<Rightarrow> ('db, 'x, 'e, 'a) comp" where
  "InTx fn = InTxWithOptions fn"

text \<open>
  \<open>pgx.BeginFunc\<close>, as documented: it begins a transaction, runs the function, commits when it succeeds
  and rolls back when it fails, and then returns the function's error whatever the rollback did.
\<close>

definition BeginFunc :: "('db, 'x, 'e, 'a) comp \<Rightarrow> ('db, 'x, 'e, 'a) comp" where
  "BeginFunc fn = (\<lambda>w.
     let (k, fs) = pop (faults w); w0 = interfere (w\<lparr>faults := fs\<rparr>) in
     if k \<noteq> Works then (Inl Driver, w0)
     else case fn w0 of
       (Inl e, w1) \<Rightarrow> (Inl e, w1\<lparr>db := db w0, faults := snd (pop (faults w1))\<rparr>)
     | (Inr x, w1) \<Rightarrow>
         (let (k, fs) = pop (faults w1); w2 = w1\<lparr>faults := fs\<rparr> in
          case k of
            Works \<Rightarrow> (Inr x, w2)
          | Fails \<Rightarrow> (Inl Driver, w2\<lparr>db := db w0\<rparr>)
          | Lost \<Rightarrow> (Inl Driver, w2)))"

definition getC :: "('db, 'x, 'e, 'x) comp" where
  "getC = (\<lambda>w. (Inr (ext w), w))"

section \<open>Successful runs\<close>

lemma retC_run [run_elims]: "retC x w = (Inr y, w') \<longleftrightarrow> y = x \<and> w' = w"
  by (auto simp: retC_def)

lemma failC_run [run_elims]: "failC e w = (Inr y, w') \<longleftrightarrow> False"
  by (simp add: failC_def)

lemma bindC_run [run_elims]:
  "bindC m f w = (Inr y, w') \<longleftrightarrow> (\<exists>x w1. m w = (Inr x, w1) \<and> f x w1 = (Inr y, w'))"
  by (auto simp: bindC_def split: prod.splits sum.splits)

lemma tryC_run [run_elims]: "tryC m w = (Inr r, w') \<longleftrightarrow> m w = (r, w')"
  by (auto simp: tryC_def split: prod.splits)

lemma mapErrC_run [run_elims]: "mapErrC g m w = (Inr x, w') \<longleftrightarrow> m w = (Inr x, w')"
  by (auto simp: mapErrC_def split: prod.splits sum.splits)

lemma liftC_run [run_elims]: "liftC r w = (Inr x, w') \<longleftrightarrow> r = Inr x \<and> w' = w"
  by (auto simp: liftC_def failC_def retC_def split: sum.splits)

lemma extC_run [run_elims]: "extC f w = (Inr u, w') \<longleftrightarrow> w' = w\<lparr>ext := f (ext w)\<rparr>"
  by (auto simp: extC_def)

lemma if_run [run_elims]:
  "(if b then m else n) w = (Inr y, w') \<longleftrightarrow> b \<and> m w = (Inr y, w') \<or> \<not> b \<and> n w = (Inr y, w')"
  by simp

lemma case_sum_run [run_elims]:
  "case_sum f g r w = (Inr y, w') \<longleftrightarrow>
     (\<exists>e. r = Inl e \<and> f e w = (Inr y, w')) \<or> (\<exists>x. r = Inr x \<and> g x w = (Inr y, w'))"
  by (cases r) auto

lemma case_option_run [run_elims]:
  "case_option m g r w = (Inr y, w') \<longleftrightarrow>
     r = None \<and> m w = (Inr y, w') \<or> (\<exists>x. r = Some x \<and> g x w = (Inr y, w'))"
  by (cases r) auto

lemma case_prod_run [run_elims]:
  "case_prod f p w = (Inr y, w') \<longleftrightarrow> (\<exists>a b. p = (a, b) \<and> f a b w = (Inr y, w'))"
  by (cases p) auto

lemma stmt_run [run_elims]:
  "stmt f w = (Inr x, w') \<longleftrightarrow>
     (\<exists>fs d. pop (faults w) = (Works, fs) \<and> f (db w) = (Inr x, d) \<and> w' = w\<lparr>faults := fs, db := d\<rparr>)"
  by (auto simp: stmt_def Let_def split: prod.splits fault.splits)

lemma query_run [run_elims]:
  "query q w = (Inr x, w') \<longleftrightarrow>
     (\<exists>fs. pop (faults w) = (Works, fs) \<and> q (db w) = Inr x \<and> w' = w\<lparr>faults := fs\<rparr>)"
  by (auto simp: query_def stmt_run)

lemma query_fail: "query q w = (Inl e, w') \<Longrightarrow> e = Driver \<or> q (db w) = Inl e"
  by (auto simp: query_def stmt_def Let_def split: prod.splits fault.splits)

lemma InTx_run:
  "InTx fn w = (Inr x, w') \<longleftrightarrow>
     (\<exists>fs w1 fs'. pop (faults w) = (Works, fs) \<and> fn (interfere (w\<lparr>faults := fs\<rparr>)) = (Inr x, w1) \<and>
        pop (faults w1) = (Works, fs') \<and> w' = w1\<lparr>faults := fs'\<rparr>)"
  by (auto simp: InTx_def InTxWithOptions_def Let_def
      split: prod.splits sum.splits fault.splits if_splits)

lemma BeginFunc_InTx: "snd (BeginFunc fn w) = snd (InTx fn w)"
  by (auto simp: BeginFunc_def InTx_def InTxWithOptions_def Let_def split: prod.splits sum.splits fault.splits)

lemma BeginFunc_run:
  "BeginFunc fn w = (Inr x, w') \<longleftrightarrow>
     (\<exists>fs w1 fs'. pop (faults w) = (Works, fs) \<and> fn (interfere (w\<lparr>faults := fs\<rparr>)) = (Inr x, w1) \<and>
        pop (faults w1) = (Works, fs') \<and> w' = w1\<lparr>faults := fs'\<rparr>)"
  by (auto simp: BeginFunc_def Let_def split: prod.splits sum.splits fault.splits if_splits)

lemma getC_run [run_elims]: "getC w = (Inr x, w') \<longleftrightarrow> x = ext w \<and> w' = w"
  by (auto simp: getC_def)

text \<open>
  Whatever the faults, a transaction leaves the tables either as it found them or as a
  successful run of its body made them.
\<close>

lemma InTx_db_cases:
  assumes "InTx fn w = (r, w')"
  obtains "db w' = db (interfere w)"
  | w0 x w1 where "db w0 = db (interfere w)" "fn w0 = (Inr x, w1)" "db w' = db w1"
      "ext w0 = ext w"
proof -
  define fs where "fs = snd (pop (faults w))"
  define w0 where "w0 = interfere (w\<lparr>faults := fs\<rparr>)"
  have w0: "db w0 = db (interfere w)" "ext w0 = ext w"
    by (auto simp: w0_def interfere_def split: list.splits)
  show thesis
    using assms w0 that(1) that(2) [of w0]
    by (auto simp: InTx_def InTxWithOptions_def Let_def w0_def fs_def
        split: prod.splits sum.splits fault.splits if_splits)
qed

text \<open>An invariant of the tables that other sessions keep and the body keeps on success.\<close>

definition others_keep :: "('db \<Rightarrow> bool) \<Rightarrow> ('db, 'x) world \<Rightarrow> bool" where
  "others_keep I w = (\<forall>f \<in> set (others w). \<forall>d. I d \<longrightarrow> I (f d))"

lemma interfere_keeps: "others_keep I w \<Longrightarrow> I (db w) \<Longrightarrow> I (db (interfere w))"
  by (auto simp: others_keep_def interfere_def split: list.splits)

lemma InTx_keeps:
  assumes "I (db w)" and "others_keep I w"
    and "\<And>w0 x w1. db w0 = db (interfere w) \<Longrightarrow> I (db w0) \<Longrightarrow> fn w0 = (Inr x, w1) \<Longrightarrow> I (db w1)"
  shows "I (db (snd (InTx fn w)))"
proof -
  have I0: "I (db (interfere w))" using assms(1,2) by (rule interfere_keeps [rotated])
  obtain r w' where run: "InTx fn w = (r, w')" by fastforce
  from run show ?thesis
  proof (cases rule: InTx_db_cases)
    case 1
    with I0 run show ?thesis by simp
  next
    case (2 w0 x w1)
    with assms(3) I0 run show ?thesis by simp
  qed
qed

lemma pop_Nil_iff [simp]: "pop [] = (k, fs) \<longleftrightarrow> k = Works \<and> fs = []"
  by auto

section \<open>Computations that only read\<close>

text \<open>A query changes nothing of the world but the fault schedule it has used up.\<close>

definition reads :: "('db, 'x, 'e, 'a) comp \<Rightarrow> bool" where
  "reads m \<longleftrightarrow> (\<forall>w. \<exists>fs. snd (m w) = w\<lparr>faults := fs\<rparr>)"

lemma faults_self: "\<exists>fs. w = w\<lparr>faults := fs\<rparr>"
  by (rule exI [of _ "faults w"]) simp

lemma reads_retC [reads_intros]: "reads (retC x)"
  by (simp add: reads_def retC_def faults_self)

lemma reads_failC [reads_intros]: "reads (failC e)"
  by (simp add: reads_def failC_def faults_self)

lemma reads_liftC [reads_intros]: "reads (liftC r)"
  by (auto simp: liftC_def reads_retC reads_failC split: sum.splits)

lemma reads_query [reads_intros]: "reads (query q)"
  by (auto simp: reads_def query_def stmt_def Let_def split: prod.splits fault.splits)

lemma reads_bindC [reads_intros]:
  assumes "reads m" "\<And>x. reads (f x)" shows "reads (bindC m f)"
  unfolding reads_def
proof
  fix w
  obtain r w1 where m: "m w = (r, w1)" by fastforce
  obtain fs where w1: "w1 = w\<lparr>faults := fs\<rparr>" using assms(1) m by (metis reads_def snd_conv)
  show "\<exists>fs. snd (bindC m f w) = w\<lparr>faults := fs\<rparr>"
  proof (cases r)
    case (Inl e)
    with m w1 show ?thesis by (auto simp: bindC_def)
  next
    case (Inr x)
    obtain fs' where "snd (f x w1) = w1\<lparr>faults := fs'\<rparr>" using assms(2) by (metis reads_def)
    with m w1 Inr show ?thesis by (auto simp: bindC_def)
  qed
qed

lemma reads_tryC [reads_intros]: "reads m \<Longrightarrow> reads (tryC m)"
  by (auto simp: reads_def tryC_def split: prod.splits) (metis snd_conv)

lemma snd_mapErrC [simp]: "snd (mapErrC g m w) = snd (m w)"
  by (simp add: mapErrC_def split: prod.splits sum.splits)

lemma reads_mapErrC [reads_intros]: "reads m \<Longrightarrow> reads (mapErrC g m)"
  by (simp add: reads_def)

lemma reads_if [reads_intros]: "(b \<Longrightarrow> reads m) \<Longrightarrow> (\<not> b \<Longrightarrow> reads n) \<Longrightarrow> reads (if b then m else n)"
  by simp

lemma reads_case_sum [reads_intros]:
  "(\<And>e. reads (f e)) \<Longrightarrow> (\<And>x. reads (g x)) \<Longrightarrow> reads (case_sum f g r)"
  by (simp split: sum.splits)

lemma reads_case_option [reads_intros]:
  "reads m \<Longrightarrow> (\<And>x. reads (g x)) \<Longrightarrow> reads (case_option m g r)"
  by (simp split: option.splits)

lemma reads_case_prod [reads_intros]: "(\<And>x y. reads (f x y)) \<Longrightarrow> reads (case_prod f p)"
  by (simp split: prod.splits)

lemma readsD: "reads m \<Longrightarrow> m w = (r, w') \<Longrightarrow> db w' = db w \<and> others w' = others w \<and> ext w' = ext w"
  unfolding reads_def by (drule spec [of _ w]) auto

section \<open>Runs without faults\<close>

text \<open>With no faults scheduled a statement does its work and leaves no faults scheduled.\<close>

lemma stmt_works [run_simps]:
  "faults w = [] \<Longrightarrow> stmt f w = (fst (f (db w)), w\<lparr>db := snd (f (db w))\<rparr>)"
  by (cases w) (simp add: stmt_def Let_def split: prod.splits)

lemma query_works [run_simps]: "faults w = [] \<Longrightarrow> query q w = (q (db w), w)"
  by (cases w) (simp add: query_def stmt_def)

lemma interfere_none [run_simps]: "others w = [] \<Longrightarrow> interfere w = w"
  by (simp add: interfere_def)

lemmas comp_defs = retC_def failC_def bindC_def tryC_def mapErrC_def liftC_def extC_def

section \<open>Invariants of the tables\<close>

text \<open>
  \<open>keeps I m\<close>: whatever faults happen and whatever the other sessions do within the
  invariant, \<open>m\<close> leaves tables that satisfy \<open>I\<close>. \<open>quiet m\<close>: \<open>m\<close> starts no transaction,
  so no other session's change comes in between.
\<close>

definition quiet :: "('db, 'x, 'e, 'a) comp \<Rightarrow> bool" where
  "quiet m \<longleftrightarrow> (\<forall>w. others (snd (m w)) = others w)"

definition keeps :: "('db \<Rightarrow> bool) \<Rightarrow> ('db, 'x, 'e, 'a) comp \<Rightarrow> bool" where
  "keeps I m \<longleftrightarrow> (\<forall>w. I (db w) \<longrightarrow> others_keep I w \<longrightarrow> I (db (snd (m w))) \<and> others_keep I (snd (m w)))"

lemma quiet_reads: "reads m \<Longrightarrow> quiet m"
  unfolding reads_def quiet_def by (metis select_convs(3) surjective update_convs(2))

lemma quiet_stmt [quiet_intros]: "quiet (stmt f)"
  by (auto simp: quiet_def stmt_def Let_def split: prod.splits fault.splits)

lemma quiet_query [quiet_intros]: "quiet (query q)"
  by (simp add: quiet_reads reads_query)

lemma quiet_extC [quiet_intros]: "quiet (extC f)"
  by (simp add: quiet_def extC_def)

lemma quiet_pure [quiet_intros]: "quiet (retC x)" "quiet (failC e)" "quiet (liftC r)"
  by (simp_all add: quiet_reads reads_intros)

lemma quiet_bindC [quiet_intros]: "quiet m \<Longrightarrow> (\<And>x. quiet (f x)) \<Longrightarrow> quiet (bindC m f)"
  unfolding quiet_def by (auto simp: bindC_def split: prod.splits sum.splits) (metis snd_conv)+

lemma quiet_tryC [quiet_intros]: "quiet m \<Longrightarrow> quiet (tryC m)"
  unfolding quiet_def by (auto simp: tryC_def split: prod.splits) (metis snd_conv)

lemma quiet_mapErrC [quiet_intros]: "quiet m \<Longrightarrow> quiet (mapErrC g m)"
  by (simp add: quiet_def)

lemma quiet_if [quiet_intros]: "(b \<Longrightarrow> quiet m) \<Longrightarrow> (\<not> b \<Longrightarrow> quiet n) \<Longrightarrow> quiet (if b then m else n)"
  by simp

lemma quiet_case_sum [quiet_intros]:
  "(\<And>e. quiet (f e)) \<Longrightarrow> (\<And>x. quiet (g x)) \<Longrightarrow> quiet (case_sum f g r)"
  by (simp split: sum.splits)

lemma quiet_case_option [quiet_intros]:
  "quiet m \<Longrightarrow> (\<And>x. quiet (g x)) \<Longrightarrow> quiet (case_option m g r)"
  by (simp split: option.splits)

lemma quiet_case_prod [quiet_intros]: "(\<And>x y. quiet (f x y)) \<Longrightarrow> quiet (case_prod f p)"
  by (simp split: prod.splits)

lemma keeps_reads: "reads m \<Longrightarrow> keeps I m"
  unfolding keeps_def others_keep_def by (metis prod.collapse readsD)

lemma keeps_pure [keeps_intros]: "keeps I (retC x)" "keeps I (failC e)" "keeps I (liftC r)" "keeps I (query q)"
  by (simp_all add: keeps_reads reads_intros)

lemma keeps_extC [keeps_intros]: "keeps I (extC f)"
  by (simp add: keeps_def extC_def others_keep_def)

lemma keeps_bindC [keeps_intros]: "keeps I m \<Longrightarrow> (\<And>x. keeps I (f x)) \<Longrightarrow> keeps I (bindC m f)"
  unfolding keeps_def by (auto simp: bindC_def split: prod.splits sum.splits)

lemma keeps_tryC [keeps_intros]: "keeps I m \<Longrightarrow> keeps I (tryC m)"
  unfolding keeps_def by (auto simp: tryC_def split: prod.splits)

lemma keeps_mapErrC [keeps_intros]: "keeps I m \<Longrightarrow> keeps I (mapErrC g m)"
  by (simp add: keeps_def)

lemma keeps_if [keeps_intros]: "(b \<Longrightarrow> keeps I m) \<Longrightarrow> (\<not> b \<Longrightarrow> keeps I n) \<Longrightarrow> keeps I (if b then m else n)"
  by simp

lemma keeps_case_sum [keeps_intros]:
  "(\<And>e. keeps I (f e)) \<Longrightarrow> (\<And>x. keeps I (g x)) \<Longrightarrow> keeps I (case_sum f g r)"
  by (simp split: sum.splits)

lemma keeps_case_option [keeps_intros]:
  "keeps I m \<Longrightarrow> (\<And>x. keeps I (g x)) \<Longrightarrow> keeps I (case_option m g r)"
  by (simp split: option.splits)

lemma keeps_case_prod [keeps_intros]: "(\<And>x y. keeps I (f x y)) \<Longrightarrow> keeps I (case_prod f p)"
  by (simp split: prod.splits)

lemma keeps_stmt: "(\<And>d. I d \<Longrightarrow> I (snd (f d))) \<Longrightarrow> keeps I (stmt f)"
  by (auto simp: keeps_def stmt_def Let_def others_keep_def split: prod.splits fault.splits) (metis snd_conv)+

lemma InTx_others:
  assumes "quiet fn" shows "set (others (snd (InTx fn w))) \<subseteq> set (others w)"
proof -
  have q: "others (snd (fn w0)) = others w0" for w0 using assms by (simp add: quiet_def)
  define w0 where "w0 = interfere (w\<lparr>faults := snd (pop (faults w))\<rparr>)"
  have "set (others w0) \<subseteq> set (others w)"
    by (auto simp: w0_def interfere_def split: list.splits)
  moreover have "others (snd (InTx fn w)) = others w0"
    using q [of w0]
    by (auto simp: InTx_def InTxWithOptions_def Let_def w0_def split: prod.splits sum.splits fault.splits)
  ultimately show ?thesis by simp
qed

text \<open>A transaction keeps an invariant when its body does on the runs that succeed.\<close>

lemma keeps_InTx [keeps_intros]:
  assumes "quiet fn" and "\<And>w0 x w1. I (db w0) \<Longrightarrow> fn w0 = (Inr x, w1) \<Longrightarrow> I (db w1)"
  shows "keeps I (InTx fn)"
  unfolding keeps_def
proof (intro allI impI conjI)
  fix w :: "('a, 'b) world"
  assume "I (db w)" "others_keep I w"
  then show "I (db (snd (InTx fn w)))" using assms(2) by (rule InTx_keeps)
  show "others_keep I (snd (InTx fn w))"
    using \<open>others_keep I w\<close> InTx_others [OF assms(1), of w] by (auto simp: others_keep_def)
qed

lemma keeps_BeginFunc:
  assumes "quiet fn" and "\<And>w0 x w1. I (db w0) \<Longrightarrow> fn w0 = (Inr x, w1) \<Longrightarrow> I (db w1)"
  shows "keeps I (BeginFunc fn)"
  using keeps_InTx [of fn I, OF assms] by (simp add: keeps_def BeginFunc_InTx)

lemma keeps_getC [keeps_intros]: "keeps I getC"
  by (simp add: keeps_def getC_def)

text \<open>\<open>pres I m\<close>: the statements of \<open>m\<close>, run without interruption, keep \<open>I\<close>.\<close>

definition pres :: "('db \<Rightarrow> bool) \<Rightarrow> ('db, 'x, 'e, 'a) comp \<Rightarrow> bool" where
  "pres I m \<longleftrightarrow> (\<forall>w. I (db w) \<longrightarrow> I (db (snd (m w))))"

lemma presD: "pres I m \<Longrightarrow> I (db w) \<Longrightarrow> m w = (r, w') \<Longrightarrow> I (db w')"
  unfolding pres_def by (metis snd_conv)

lemma pres_reads: "reads m \<Longrightarrow> pres I m"
  unfolding pres_def by (metis prod.collapse readsD)

lemma pres_pure [pres_intros]: "pres I (retC x)" "pres I (failC e)" "pres I (liftC r)" "pres I (query q)"
  by (simp_all add: pres_reads reads_intros)

lemma pres_extC [pres_intros]: "pres I (extC f)"
  by (simp add: pres_def extC_def)

lemma pres_bindC [pres_intros]: "pres I m \<Longrightarrow> (\<And>x. pres I (f x)) \<Longrightarrow> pres I (bindC m f)"
  unfolding pres_def by (auto simp: bindC_def split: prod.splits sum.splits)

lemma pres_tryC [pres_intros]: "pres I m \<Longrightarrow> pres I (tryC m)"
  unfolding pres_def by (auto simp: tryC_def split: prod.splits)

lemma pres_mapErrC [pres_intros]: "pres I m \<Longrightarrow> pres I (mapErrC g m)"
  by (simp add: pres_def)

lemma pres_if [pres_intros]: "(b \<Longrightarrow> pres I m) \<Longrightarrow> (\<not> b \<Longrightarrow> pres I n) \<Longrightarrow> pres I (if b then m else n)"
  by simp

lemma pres_case_sum [pres_intros]:
  "(\<And>e. pres I (f e)) \<Longrightarrow> (\<And>x. pres I (g x)) \<Longrightarrow> pres I (case_sum f g r)"
  by (simp split: sum.splits)

lemma pres_case_option [pres_intros]:
  "pres I m \<Longrightarrow> (\<And>x. pres I (g x)) \<Longrightarrow> pres I (case_option m g r)"
  by (simp split: option.splits)

lemma pres_case_prod [pres_intros]: "(\<And>x y. pres I (f x y)) \<Longrightarrow> pres I (case_prod f p)"
  by (simp split: prod.splits)

lemma pres_stmt: "(\<And>d. I d \<Longrightarrow> I (snd (f d))) \<Longrightarrow> pres I (stmt f)"
  by (auto simp: pres_def stmt_def Let_def split: prod.splits fault.splits) (metis snd_conv)+

lemma pres_imp_keeps: "pres I m \<Longrightarrow> quiet m \<Longrightarrow> keeps I m"
  by (simp add: pres_def quiet_def keeps_def others_keep_def)

end
