(* ===== verification/Orgs_Domain.thy ===== *)
theory Orgs_Domain
  imports Audit_Events Txn
begin

text \<open>
  The entities and rules of the organisations module: organisation IDs
  (\<open>modules/orgs/orgs.go\<close>), organisations, members and invitations
  (\<open>gorbital/orgshttp/internal/domain\<close>) and the errors its layers return.
\<close>

datatype org_error =
    Access access_error
  | ErrOrgNotFound | ErrNotMember | ErrInvalidID
  | DErrUnauthenticated | DErrForbidden | ErrSessionRequired | ErrInvalidName
  | ErrOrgVersionConflict | ErrPersonalWorkspace | ErrMemberNotFound | ErrUnknownRole
  | ErrRoleNotAllowed | ErrLastOwner | ErrSoleOwner "(string \<times> bool \<times> nat) list"
  | ErrAlreadyMember | ErrAlreadyInvited | ErrInvitationNotFound | ErrInvitationEmail
  | ErrTooManyInvitations | ErrEmailNotVerified | ErrTooManyOrgs | ErrInvalidEmail
  | ErrOpaque string

abbreviation RoleOwner :: string where "RoleOwner \<equiv> ''owner''"
abbreviation RoleAdmin :: string where "RoleAdmin \<equiv> ''admin''"
abbreviation RoleMember :: string where "RoleMember \<equiv> ''member''"

section \<open>Organisation IDs\<close>

definition idPrefix :: string where
  "idPrefix = ''org_''"

text \<open>16 bytes are 26 characters of unpadded base32.\<close>

definition idLength :: nat where
  "idLength = length idPrefix + 26"

definition base32_char :: "char \<Rightarrow> bool" where
  "base32_char c = ((97 \<le> byte c \<and> byte c \<le> 122) \<or> (50 \<le> byte c \<and> byte c \<le> 55))"

text \<open>Go's \<open>base32.DecodeString\<close> drops line breaks before it decodes and reports every other
  byte outside the alphabet.\<close>

definition base32_decodes :: "string \<Rightarrow> bool" where
  "base32_decodes s = list_all base32_char (filter (\<lambda>c. byte c \<noteq> 10 \<and> byte c \<noteq> 13) s)"

definition ParseID :: "string \<Rightarrow> org_error + string" where
  "ParseID s =
     (if length s \<noteq> idLength \<or> \<not> has_prefix s idPrefix then Inl ErrInvalidID
      else if \<not> base32_decodes (drop (length idPrefix) s) then Inl ErrInvalidID
      else Inr s)"

section \<open>Organisations\<close>

definition MaxNameLength :: nat where
  "MaxNameLength = 100"

definition PersonalName :: string where
  "PersonalName = ''Personal''"

record Org =
  o_ID :: string
  o_Name :: string
  o_Personal :: bool
  o_CreatedBy :: string
  o_Version :: int
  o_CreatedAt :: time
  o_UpdatedAt :: time
  o_DeletedAt :: "time option"
  o_PurgeAfter :: "time option"

type_synonym Membership = "Org \<times> string"

record Member =
  m_OrgID :: string
  m_UserID :: string
  m_Email :: string
  m_Role :: string
  m_JoinedAt :: time
  m_AddedBy :: string

definition NormalizeName :: "string \<Rightarrow> org_error + string" where
  "NormalizeName name =
     (let n = TrimSpace name in
      if n = [] \<or> rune_count n > MaxNameLength \<or> (\<exists>r \<in> set (runes n). is_control r)
      then Inl ErrInvalidName else Inr n)"

definition NewOrg :: "string \<Rightarrow> string \<Rightarrow> string \<Rightarrow> bool \<Rightarrow> time \<Rightarrow> org_error + Org" where
  "NewOrg oid name userID personal now =
     bind_res (NormalizeName name) (\<lambda>n.
       Inr \<lparr>o_ID = oid, o_Name = n, o_Personal = personal, o_CreatedBy = userID, o_Version = 1,
            o_CreatedAt = now, o_UpdatedAt = now, o_DeletedAt = None, o_PurgeAfter = None\<rparr>)"

section \<open>Invitations\<close>

text \<open>\<open>i_SentAt\<close> is a column of the table only: when the email was last sent.\<close>

record Invitation =
  i_ID :: string
  i_OrgID :: string
  i_Email :: string
  i_NormalizedEmail :: string
  i_Role :: string
  i_TokenHash :: string
  i_InvitedBy :: string
  i_CreatedAt :: time
  i_ExpiresAt :: time
  i_AcceptedAt :: "time option"
  i_RevokedAt :: "time option"
  i_SentAt :: time

definition PendingAt :: "Invitation \<Rightarrow> time \<Rightarrow> bool" where
  "PendingAt i now = (i_AcceptedAt i = None \<and> i_RevokedAt i = None \<and> now < i_ExpiresAt i)"

section \<open>Facts\<close>

lemma NormalizeName_Inr:
  "NormalizeName name = Inr n \<Longrightarrow>
     n = TrimSpace name \<and> n \<noteq> [] \<and> rune_count n \<le> MaxNameLength \<and> (\<forall>r \<in> set (runes n). \<not> is_control r)"
  by (auto simp: NormalizeName_def Let_def split: if_splits)

lemma NewOrg_Inr:
  "NewOrg oid name u p now = Inr o1 \<Longrightarrow>
     o_ID o1 = oid \<and> o_Personal o1 = p \<and> o_CreatedBy o1 = u \<and> o_Version o1 = 1 \<and>
     o_DeletedAt o1 = None \<and> o_PurgeAfter o1 = None \<and> NormalizeName name = Inr (o_Name o1)"
  by (auto simp: NewOrg_def bind_res_Inr)

lemma ParseID_Inr: "ParseID s = Inr t \<Longrightarrow> t = s \<and> length s = 30 \<and> has_prefix s ''org_''"
  by (auto simp: ParseID_def idLength_def idPrefix_def split: if_splits)

end
