(* ===== verification/Orgs_Store.thy ===== *)
theory Orgs_Store
  imports Orgs_Domain "HOL-Library.Product_Lexorder"
begin

text \<open>
  The repository of the organisations module (\<open>gorbital/orgshttp/internal/repository\<close>), one
  definition per SQL statement, over the tables of \<open>00001_orgs.sql\<close> and the columns the
  statements read of the auth module's \<open>auth_users\<close> and \<open>auth_service_accounts\<close>. Inserts and
  updates check the tables' constraints: a unique violation the code names becomes its domain
  error, every other violation is a driver error. Row and advisory locks do not change a
  statement's result; a transaction is atomic (theory \<open>Txn\<close>). IDs are lowercase base32
  with a prefix, on which the database's text order and the byte order agree.
\<close>

record member_row =
  mr_org :: string
  mr_user :: string
  mr_role :: string
  mr_joined :: time
  mr_by :: string

record user_row =
  u_id :: string
  u_email :: string
  u_email_normalized :: string
  u_verified_at :: "time option"
  u_deleted_at :: "time option"

record service_account_row =
  sa_id :: string
  sa_org :: "string option"
  sa_roles :: "string list"
  sa_disabled_at :: "time option"

record orgdb =
  t_orgs :: "Org list"
  t_members :: "member_row list"
  t_invitations :: "Invitation list"
  t_users :: "user_row list"
  t_service_accounts :: "service_account_row list"

type_synonym ('x, 'a) orgc = "(orgdb, 'x, org_error, 'a) comp"

definition live_org :: "orgdb \<Rightarrow> string \<Rightarrow> bool" where
  "live_org d oid = (\<exists>o1 \<in> set (t_orgs d). o_ID o1 = oid \<and> o_DeletedAt o1 = None)"

definition live_user :: "orgdb \<Rightarrow> string \<Rightarrow> bool" where
  "live_user d uid = (\<exists>u \<in> set (t_users d). u_id u = uid \<and> u_deleted_at u = None)"

definition known_user :: "orgdb \<Rightarrow> string \<Rightarrow> bool" where
  "known_user d uid = (\<exists>u \<in> set (t_users d). u_id u = uid)"

definition found :: "org_error \<Rightarrow> 'a option \<Rightarrow> org_error goerr + 'a" where
  "found e r = (case r of None \<Rightarrow> Inl (Err e) | Some x \<Rightarrow> Inr x)"

section \<open>Organisations\<close>

definition InsertOrg :: "Org \<Rightarrow> ('x, Org) orgc" where
  "InsertOrg o1 = stmt (\<lambda>d.
     let row = o1\<lparr>o_DeletedAt := None, o_PurgeAfter := None\<rparr> in
     if o_ID o1 \<in> o_ID ` set (t_orgs d)
        \<or> (o_Personal o1 \<and> (\<exists>r \<in> set (t_orgs d). o_Personal r \<and> o_CreatedBy r = o_CreatedBy o1))
        \<or> rune_count (o_Name o1) < 1 \<or> 100 < rune_count (o_Name o1)
     then (Inl Driver, d)
     else (Inr row, d\<lparr>t_orgs := t_orgs d @ [row]\<rparr>))"

definition SelectOrg :: "string \<Rightarrow> bool \<Rightarrow> ('x, Org) orgc" where
  "SelectOrg oid lock = query (\<lambda>d.
     found ErrOrgNotFound (List.find (\<lambda>r. o_ID r = oid \<and> o_DeletedAt r = None) (t_orgs d)))"

definition SelectDeletedOrg :: "string \<Rightarrow> ('x, Org) orgc" where
  "SelectDeletedOrg oid = query (\<lambda>d.
     found ErrOrgNotFound (List.find (\<lambda>r. o_ID r = oid \<and> o_DeletedAt r \<noteq> None) (t_orgs d)))"

definition SelectPersonalOrg :: "string \<Rightarrow> ('x, Org option) orgc" where
  "SelectPersonalOrg userID = query (\<lambda>d.
     Inr (List.find (\<lambda>r. o_CreatedBy r = userID \<and> o_Personal r) (t_orgs d)))"

definition SelectMemberships :: "(string \<Rightarrow> string) \<Rightarrow> string \<Rightarrow> ('x, Membership list) orgc" where
  "SelectMemberships pg_lower userID = query (\<lambda>d.
     Inr (sort_key (\<lambda>(o1, _). (\<not> o_Personal o1, pg_lower (o_Name o1), o_ID o1))
       (concat (map (\<lambda>m. map (\<lambda>o1. (o1, mr_role m))
          (filter (\<lambda>o1. o_ID o1 = mr_org m \<and> o_DeletedAt o1 = None) (t_orgs d)))
          (filter (\<lambda>m. mr_user m = userID) (t_members d))))))"

definition UpdateOrgName :: "string \<Rightarrow> string \<Rightarrow> int \<Rightarrow> time \<Rightarrow> ('x, Org) orgc" where
  "UpdateOrgName oid name version now = stmt (\<lambda>d.
     let p = (\<lambda>r. o_ID r = oid \<and> o_Version r = version \<and> o_DeletedAt r = None);
         f = (\<lambda>r. r\<lparr>o_Name := name, o_UpdatedAt := now, o_Version := o_Version r + 1\<rparr>) in
     case List.find p (t_orgs d) of
       None \<Rightarrow> (Inl (Err ErrOrgVersionConflict), d)
     | Some r \<Rightarrow>
         if rune_count name < 1 \<or> 100 < rune_count name then (Inl Driver, d)
         else (Inr (f r), d\<lparr>t_orgs := update_where p f (t_orgs d)\<rparr>))"

definition LockUserOrgs :: "string \<Rightarrow> ('x, unit) orgc" where
  "LockUserOrgs userID = query (\<lambda>d. Inr ())"

definition owns_live :: "orgdb \<Rightarrow> string \<Rightarrow> member_row \<Rightarrow> Org \<Rightarrow> bool" where
  "owns_live d userID m o1 =
     (mr_user m = userID \<and> mr_role m = RoleOwner \<and> o_ID o1 = mr_org m \<and> \<not> o_Personal o1 \<and> o_DeletedAt o1 = None)"

definition CountOwnedOrgs :: "string \<Rightarrow> ('x, nat) orgc" where
  "CountOwnedOrgs userID = query (\<lambda>d.
     Inr (count_where (\<lambda>(m, o1). owns_live d userID m o1) (List.product (t_members d) (t_orgs d))))"

definition MarkOrgDeleted :: "string \<Rightarrow> time \<Rightarrow> time \<Rightarrow> ('x, unit) orgc" where
  "MarkOrgDeleted oid now purgeAfter = stmt (\<lambda>d.
     (Inr (), d\<lparr>t_orgs := update_where (\<lambda>r. o_ID r = oid \<and> o_DeletedAt r = None)
        (\<lambda>r. r\<lparr>o_DeletedAt := Some now, o_PurgeAfter := Some purgeAfter, o_UpdatedAt := now,
               o_Version := o_Version r + 1\<rparr>) (t_orgs d)\<rparr>))"

definition RestoreOrg :: "string \<Rightarrow> time \<Rightarrow> ('x, unit) orgc" where
  "RestoreOrg oid now = stmt (\<lambda>d.
     (Inr (), d\<lparr>t_orgs := update_where (\<lambda>r. o_ID r = oid \<and> o_DeletedAt r \<noteq> None)
        (\<lambda>r. r\<lparr>o_DeletedAt := None, o_PurgeAfter := None, o_UpdatedAt := now,
               o_Version := o_Version r + 1\<rparr>) (t_orgs d)\<rparr>))"

definition purgeable :: "time \<Rightarrow> Org \<Rightarrow> bool" where
  "purgeable now r =
     (o_DeletedAt r \<noteq> None \<and> (case o_PurgeAfter r of None \<Rightarrow> False | Some t \<Rightarrow> t \<le> now))"

definition SelectOrgsToPurge :: "time \<Rightarrow> nat \<Rightarrow> ('x, string list) orgc" where
  "SelectOrgsToPurge now limit = query (\<lambda>d.
     Inr (take limit (map o_ID (sort_key (\<lambda>r. (the (o_PurgeAfter r), o_ID r))
       (filter (purgeable now) (t_orgs d))))))"

definition purge_tables :: "string \<Rightarrow> orgdb \<Rightarrow> orgdb" where
  "purge_tables oid d = d\<lparr>
     t_orgs := filter (\<lambda>r. o_ID r \<noteq> oid) (t_orgs d),
     t_members := filter (\<lambda>m. mr_org m \<noteq> oid) (t_members d),
     t_invitations := filter (\<lambda>i. i_OrgID i \<noteq> oid) (t_invitations d),
     t_service_accounts := filter (\<lambda>a. sa_org a \<noteq> Some oid) (t_service_accounts d)\<rparr>"

definition DeleteOrg :: "string \<Rightarrow> time \<Rightarrow> ('x, bool) orgc" where
  "DeleteOrg oid now = stmt (\<lambda>d.
     if \<exists>r \<in> set (t_orgs d). o_ID r = oid \<and> purgeable now r
     then (Inr True, purge_tables oid d) else (Inr False, d))"

section \<open>Members\<close>

definition user_of :: "orgdb \<Rightarrow> string \<Rightarrow> user_row option" where
  "user_of d uid = List.find (\<lambda>u. u_id u = uid) (t_users d)"

definition to_Member :: "orgdb \<Rightarrow> member_row \<Rightarrow> Member" where
  "to_Member d m = \<lparr>m_OrgID = mr_org m, m_UserID = mr_user m,
     m_Email = (case user_of d (mr_user m) of Some u \<Rightarrow> u_email u | None \<Rightarrow> []),
     m_Role = mr_role m, m_JoinedAt = mr_joined m, m_AddedBy = mr_by m\<rparr>"

definition InsertMember :: "Member \<Rightarrow> ('x, unit) orgc" where
  "InsertMember m = stmt (\<lambda>d.
     if \<not> snake_name (m_Role m) then (Inl Driver, d)
     else if \<exists>r \<in> set (t_members d). mr_org r = m_OrgID m \<and> mr_user r = m_UserID m
     then (Inl (Err ErrAlreadyMember), d)
     else if m_OrgID m \<notin> o_ID ` set (t_orgs d) \<or> \<not> known_user d (m_UserID m) then (Inl Driver, d)
     else (Inr (), d\<lparr>t_members := t_members d @
       [\<lparr>mr_org = m_OrgID m, mr_user = m_UserID m, mr_role = m_Role m,
         mr_joined = m_JoinedAt m, mr_by = m_AddedBy m\<rparr>]\<rparr>))"

definition SelectMember :: "string \<Rightarrow> string \<Rightarrow> ('x, Member) orgc" where
  "SelectMember orgID userID = query (\<lambda>d.
     found ErrMemberNotFound (map_option (to_Member d)
       (List.find (\<lambda>m. mr_org m = orgID \<and> mr_user m = userID \<and> known_user d userID) (t_members d))))"

definition SelectMembers :: "string \<Rightarrow> ('x, Member list) orgc" where
  "SelectMembers orgID = query (\<lambda>d.
     Inr (map (to_Member d) (sort_key (\<lambda>m. (mr_role m \<noteq> RoleOwner, mr_joined m, mr_user m))
       (filter (\<lambda>m. mr_org m = orgID \<and> known_user d (mr_user m)) (t_members d)))))"

definition IsMemberEmail :: "string \<Rightarrow> string \<Rightarrow> ('x, bool) orgc" where
  "IsMemberEmail orgID normalizedEmail = query (\<lambda>d.
     Inr (\<exists>m \<in> set (t_members d). mr_org m = orgID \<and>
       (\<exists>u \<in> set (t_users d). u_id u = mr_user m \<and> u_email_normalized u = normalizedEmail \<and>
          u_verified_at u \<noteq> None)))"

definition UpdateMemberRole :: "string \<Rightarrow> string \<Rightarrow> string \<Rightarrow> ('x, unit) orgc" where
  "UpdateMemberRole orgID userID role = stmt (\<lambda>d.
     let p = (\<lambda>m. mr_org m = orgID \<and> mr_user m = userID) in
     if \<not> (\<exists>m \<in> set (t_members d). p m) then (Inl (Err ErrMemberNotFound), d)
     else if \<not> snake_name role then (Inl Driver, d)
     else (Inr (), d\<lparr>t_members := update_where p (\<lambda>m. m\<lparr>mr_role := role\<rparr>) (t_members d)\<rparr>))"

definition DeleteMember :: "string \<Rightarrow> string \<Rightarrow> ('x, unit) orgc" where
  "DeleteMember orgID userID = stmt (\<lambda>d.
     let p = (\<lambda>m. mr_org m = orgID \<and> mr_user m = userID) in
     if \<not> (\<exists>m \<in> set (t_members d). p m) then (Inl (Err ErrMemberNotFound), d)
     else (Inr (), d\<lparr>t_members := filter (\<lambda>m. \<not> p m) (t_members d)\<rparr>))"

definition CountOwners :: "string \<Rightarrow> string \<Rightarrow> ('x, nat) orgc" where
  "CountOwners orgID excludeUserID = query (\<lambda>d.
     Inr (count_where (\<lambda>m. mr_org m = orgID \<and> mr_role m = RoleOwner \<and> mr_user m \<noteq> excludeUserID \<and>
       live_user d (mr_user m)) (t_members d)))"

text \<open>One of a user's organisations: its ID, personal, deleted, the user's role, owners, members.\<close>

record UserOrg =
  uo_OrgID :: string
  uo_Personal :: bool
  uo_Deleted :: bool
  uo_Role :: string
  uo_Owners :: nat
  uo_Members :: nat

definition to_UserOrg :: "orgdb \<Rightarrow> member_row \<Rightarrow> Org \<Rightarrow> UserOrg" where
  "to_UserOrg d m o1 = \<lparr>uo_OrgID = o_ID o1, uo_Personal = o_Personal o1,
     uo_Deleted = (o_DeletedAt o1 \<noteq> None), uo_Role = mr_role m,
     uo_Owners = count_where (\<lambda>x. mr_org x = o_ID o1 \<and> mr_role x = RoleOwner \<and> live_user d (mr_user x)) (t_members d),
     uo_Members = count_where (\<lambda>x. mr_org x = o_ID o1 \<and> live_user d (mr_user x)) (t_members d)\<rparr>"

definition SelectUserOrgs :: "string \<Rightarrow> ('x, UserOrg list) orgc" where
  "SelectUserOrgs userID = query (\<lambda>d.
     Inr (sort_key uo_OrgID
       (concat (map (\<lambda>m. map (to_UserOrg d m) (filter (\<lambda>o1. o_ID o1 = mr_org m) (t_orgs d)))
          (filter (\<lambda>m. mr_user m = userID) (t_members d))))))"

definition SelectEarliestMember :: "string \<Rightarrow> string \<Rightarrow> string \<Rightarrow> ('x, Member) orgc" where
  "SelectEarliestMember orgID role excludeUserID = query (\<lambda>d.
     found ErrMemberNotFound (case sort_key (\<lambda>m. (mr_joined m, mr_user m))
         (filter (\<lambda>m. mr_org m = orgID \<and> (role = [] \<or> mr_role m = role) \<and>
            mr_user m \<noteq> excludeUserID \<and> live_user d (mr_user m)) (t_members d)) of
       [] \<Rightarrow> None | m # _ \<Rightarrow> Some (to_Member d m)))"

definition MemberRole :: "string \<Rightarrow> string \<Rightarrow> ('x, string) orgc" where
  "MemberRole orgID userID = query (\<lambda>d.
     found ErrNotMember (map_option mr_role
       (List.find (\<lambda>m. mr_org m = orgID \<and> mr_user m = userID \<and> live_org d orgID) (t_members d))))"

definition ServiceAccountRole :: "string \<Rightarrow> string \<Rightarrow> ('x, string) orgc" where
  "ServiceAccountRole orgID serviceAccountID = query (\<lambda>d.
     found ErrNotMember (map_option (\<lambda>a. hd (sa_roles a))
       (List.find (\<lambda>a. sa_org a = Some orgID \<and> sa_id a = serviceAccountID \<and> sa_disabled_at a = None \<and>
          length (sa_roles a) = 1 \<and> live_org d orgID) (t_service_accounts d))))"

text \<open>An account's email address, its normalized form and whether it is verified.\<close>

definition SelectUserEmail :: "string \<Rightarrow> ('x, string \<times> string \<times> bool) orgc" where
  "SelectUserEmail userID = query (\<lambda>d.
     found ErrMemberNotFound (map_option (\<lambda>u. (u_email u, u_email_normalized u, u_verified_at u \<noteq> None))
       (List.find (\<lambda>u. u_id u = userID \<and> u_deleted_at u = None) (t_users d))))"

section \<open>Invitations\<close>

definition open_inv :: "Invitation \<Rightarrow> bool" where
  "open_inv i = (i_AcceptedAt i = None \<and> i_RevokedAt i = None)"

definition InsertInvitation :: "Invitation \<Rightarrow> ('x, Invitation) orgc" where
  "InsertInvitation iv = stmt (\<lambda>d.
     let row = iv\<lparr>i_AcceptedAt := None, i_RevokedAt := None, i_SentAt := i_CreatedAt iv\<rparr> in
     if \<not> snake_name (i_Role iv) \<or> i_ID iv \<in> i_ID ` set (t_invitations d)
        \<or> i_TokenHash iv \<in> i_TokenHash ` set (t_invitations d) then (Inl Driver, d)
     else if \<exists>i \<in> set (t_invitations d). open_inv i \<and> i_OrgID i = i_OrgID iv \<and>
          i_NormalizedEmail i = i_NormalizedEmail iv then (Inl (Err ErrAlreadyInvited), d)
     else if i_OrgID iv \<notin> o_ID ` set (t_orgs d) then (Inl Driver, d)
     else (Inr row, d\<lparr>t_invitations := t_invitations d @ [row]\<rparr>))"

definition SelectInvitation :: "string \<Rightarrow> string \<Rightarrow> ('x, Invitation) orgc" where
  "SelectInvitation orgID iid = query (\<lambda>d.
     found ErrInvitationNotFound (List.find (\<lambda>i. i_OrgID i = orgID \<and> i_ID i = iid) (t_invitations d)))"

definition SelectInvitationByTokenHash :: "string \<Rightarrow> bool \<Rightarrow> ('x, Invitation) orgc" where
  "SelectInvitationByTokenHash tokenHash lock = query (\<lambda>d.
     found ErrInvitationNotFound (List.find (\<lambda>i. i_TokenHash i = tokenHash) (t_invitations d)))"

definition SelectOpenInvitations :: "string \<Rightarrow> ('x, Invitation list) orgc" where
  "SelectOpenInvitations orgID = query (\<lambda>d.
     Inr (rev (sort_key (\<lambda>i. (i_CreatedAt i, i_ID i))
       (filter (\<lambda>i. i_OrgID i = orgID \<and> open_inv i) (t_invitations d)))))"

definition CountInvitationsSince :: "string \<Rightarrow> time \<Rightarrow> ('x, nat) orgc" where
  "CountInvitationsSince orgID since = query (\<lambda>d.
     Inr (count_where (\<lambda>i. i_OrgID i = orgID \<and> since < i_SentAt i) (t_invitations d)))"

definition ReplaceInvitationToken :: "string \<Rightarrow> string \<Rightarrow> string \<Rightarrow> time \<Rightarrow> time \<Rightarrow> ('x, unit) orgc" where
  "ReplaceInvitationToken iid tokenHash invitedBy now expiresAt = stmt (\<lambda>d.
     if (\<exists>i \<in> set (t_invitations d). i_ID i = iid) \<and>
        (\<exists>i \<in> set (t_invitations d). i_ID i \<noteq> iid \<and> i_TokenHash i = tokenHash) then (Inl Driver, d)
     else (Inr (), d\<lparr>t_invitations := update_where (\<lambda>i. i_ID i = iid)
        (\<lambda>i. i\<lparr>i_TokenHash := tokenHash, i_InvitedBy := invitedBy, i_SentAt := now,
               i_ExpiresAt := expiresAt\<rparr>) (t_invitations d)\<rparr>))"

definition RevokeInvitation_sql :: "string \<Rightarrow> time \<Rightarrow> ('x, unit) orgc" where
  "RevokeInvitation_sql iid now = stmt (\<lambda>d.
     (Inr (), d\<lparr>t_invitations := update_where (\<lambda>i. i_ID i = iid \<and> open_inv i)
        (\<lambda>i. i\<lparr>i_RevokedAt := Some now\<rparr>) (t_invitations d)\<rparr>))"

definition RevokeExpiredInvitation :: "string \<Rightarrow> string \<Rightarrow> time \<Rightarrow> ('x, unit) orgc" where
  "RevokeExpiredInvitation orgID normalizedEmail now = stmt (\<lambda>d.
     (Inr (), d\<lparr>t_invitations := update_where (\<lambda>i. i_OrgID i = orgID \<and>
          i_NormalizedEmail i = normalizedEmail \<and> open_inv i \<and> i_ExpiresAt i \<le> now)
        (\<lambda>i. i\<lparr>i_RevokedAt := Some now\<rparr>) (t_invitations d)\<rparr>))"

definition AcceptInvitation_sql :: "string \<Rightarrow> time \<Rightarrow> ('x, unit) orgc" where
  "AcceptInvitation_sql iid now = stmt (\<lambda>d.
     (Inr (), d\<lparr>t_invitations := update_where (\<lambda>i. i_ID i = iid \<and> open_inv i)
        (\<lambda>i. i\<lparr>i_AcceptedAt := Some now\<rparr>) (t_invitations d)\<rparr>))"

end
