(* ===== verification/Orgs_Access.thy ===== *)
theory Orgs_Access
  imports Orgs_Store
begin

text \<open>
  The membership check every organisation operation starts with
  (\<open>modules/orgs/member.go\<close>). The \<open>Memberships\<close> interface is the locale \<open>memberships\<close>:
  a lookup that only reads and whose answers say what the tables hold. It is interpreted on
  the repository's \<open>MemberRole\<close> and on \<open>resourceMemberships\<close>, which also answers for the
  organisation's service accounts.
\<close>

text \<open>The library's \<open>Member\<close>: a membership, or a service account's role.\<close>

record OrgMember =
  om_OrgID :: string
  om_UserID :: string
  om_Role :: string

definition memberActor :: "ctx \<Rightarrow> Actor option" where
  "memberActor c =
     (case From c of
        None \<Rightarrow> None
      | Some a \<Rightarrow>
          if a_ID a = [] then None
          else if a_Kind a = KindUser then Some a
          else if a_Kind a = KindService then
            (case PrincipalFrom c of
               Some p \<Rightarrow> if APIKey p \<and> p_ServiceAccountID p = a_ID a then Some a else None
             | None \<Rightarrow> None)
          else None)"

text \<open>The context comes back with every answer, as in Go.\<close>

definition Authorize :: "ctx \<Rightarrow> Catalog \<Rightarrow> OrgMember \<Rightarrow> string \<Rightarrow> ctx \<times> (org_error + unit)" where
  "Authorize c catalog member permission =
     (case memberActor c of
        None \<Rightarrow> (c, Inl (Access ErrUnauthenticated))
      | Some a \<Rightarrow>
          if isl (ParseID (om_OrgID member)) \<or> om_UserID member \<noteq> a_ID a then (c, Inl ErrOrgNotFound)
          else let p = (case PrincipalFrom c of Some p \<Rightarrow> p | None \<Rightarrow> zero_Principal) in
          if a_Kind a = KindService \<and> p_OrgID p \<noteq> om_OrgID member then (c, Inl ErrOrgNotFound)
          else
            let (granted, stepUp) = PermissionsFor catalog [om_Role member] (p_MFAVerified p);
                (perms, step) = Restrict p granted stepUp;
                c' = With c (a\<lparr>a_OrgID := om_OrgID member, a_Permissions := perms, a_StepUp := step\<rparr>)
            in case Require c' permission of
                 Inl e \<Rightarrow> (c', Inl (Access e))
               | Inr _ \<Rightarrow> (c', Inr ()))"

text \<open>The callers drop the context of a refused request, so an error carries none.\<close>

definition RequireMember ::
  "ctx \<Rightarrow> (string \<Rightarrow> string \<Rightarrow> ('x, string) orgc) \<Rightarrow> Catalog \<Rightarrow> string \<Rightarrow> string \<Rightarrow> ('x, ctx \<times> OrgMember) orgc" where
  "RequireMember c m catalog orgID permission =
     (case memberActor c of
        None \<Rightarrow> failC (Err (Access ErrUnauthenticated))
      | Some a \<Rightarrow>
         (case ParseID orgID of
            Inl _ \<Rightarrow> failC (Err ErrOrgNotFound)
          | Inr _ \<Rightarrow>
              bindC (tryC (m orgID (a_ID a))) (\<lambda>r.
                case r of
                  Inl e \<Rightarrow> failC (if errors_is e ErrNotMember then Err ErrOrgNotFound else e)
                | Inr role \<Rightarrow>
                    let member = \<lparr>om_OrgID = orgID, om_UserID = a_ID a, om_Role = role\<rparr> in
                    (case Authorize c catalog member permission of
                       (c', Inl e) \<Rightarrow> failC (Err e)
                     | (c', Inr _) \<Rightarrow> retC (c', member)))))"

definition resourceMemberships :: "string \<Rightarrow> string \<Rightarrow> ('x, string) orgc" where
  "resourceMemberships orgID uid =
     (if has_prefix uid ''svc_'' then ServiceAccountRole orgID uid else MemberRole orgID uid)"

section \<open>What an allowed request was\<close>

lemma memberActor_Some:
  "memberActor c = Some a \<Longrightarrow> From c = Some a \<and> a_ID a \<noteq> [] \<and> (a_Kind a = KindUser \<or>
     a_Kind a = KindService \<and> (\<exists>p. PrincipalFrom c = Some p \<and> APIKey p \<and> p_ServiceAccountID p = a_ID a))"
  by (auto simp: memberActor_def split: option.splits if_splits)

text \<open>What the catalog grants a role for the principal of a request.\<close>

definition allowed_perms :: "ctx \<Rightarrow> Catalog \<Rightarrow> string \<Rightarrow> string list" where
  "allowed_perms c catalog role =
     (let p = (case PrincipalFrom c of Some p \<Rightarrow> p | None \<Rightarrow> zero_Principal);
          (granted, stepUp) = PermissionsFor catalog [role] (p_MFAVerified p)
      in fst (Restrict p granted stepUp))"

lemma allowed_perms_subset: "set (allowed_perms c cat role) \<subseteq> set (Permissions cat [role])"
  unfolding allowed_perms_def Let_def
  by (auto split: prod.splits option.splits dest!: subsetD [OF Restrict_fst_subset])
    (metis PermissionsFor_le fst_conv subsetD)+

lemma Authorize_Inr:
  assumes "Authorize c cat m perm = (c', Inr u)"
  obtains a where "memberActor c = Some a" "om_UserID m = a_ID a" "ParseID (om_OrgID m) = Inr (om_OrgID m)"
    "perm \<in> set (allowed_perms c cat (om_Role m))"
    "a_Kind a = KindService \<longrightarrow> (\<exists>p. PrincipalFrom c = Some p \<and> p_OrgID p = om_OrgID m)"
    "\<exists>stepUp. c' = With c (a\<lparr>a_OrgID := om_OrgID m,
       a_Permissions := allowed_perms c cat (om_Role m), a_StepUp := stepUp\<rparr>)"
proof -
  from assms obtain a where a: "memberActor c = Some a"
    by (auto simp: Authorize_def split: option.splits)
  have id: "ParseID (om_OrgID m) = Inr (om_OrgID m)"
    using assms a ParseID_Inr by (cases "ParseID (om_OrgID m)") (auto simp: Authorize_def)
  show thesis
    by (rule that [OF a _ id]; insert assms a memberActor_Some [OF a])
      (auto simp: Authorize_def Let_def allowed_perms_def Require_def With_def From_def Can_def
        split: if_splits prod.splits sum.splits option.splits)
qed

section \<open>The Memberships interface\<close>

text \<open>
  \<open>holds d orgID uid role\<close> says that in the tables \<open>d\<close> the member or service account
  \<open>uid\<close> has \<open>role\<close> in the live organisation \<open>orgID\<close>.
\<close>

locale memberships =
  fixes role_of :: "string \<Rightarrow> string \<Rightarrow> ('x, string) orgc"
    and holds :: "orgdb \<Rightarrow> string \<Rightarrow> string \<Rightarrow> string \<Rightarrow> bool"
  assumes lookup_reads: "reads (role_of orgID uid)"
    and lookup_sound: "role_of orgID uid w = (Inr role, w') \<Longrightarrow> holds (db w) orgID uid role"
    and lookup_missing: "faults w = [] \<Longrightarrow> \<forall>role. \<not> holds (db w) orgID uid role \<Longrightarrow>
      role_of orgID uid w = (Inl (Err ErrNotMember), w)"
begin

lemma RequireMember_reads [reads_intros]: "reads (RequireMember c role_of cat orgID perm)"
  unfolding RequireMember_def Let_def by (intro reads_intros lookup_reads)

text \<open>
  A request that passes is made by the member whose role the tables hold at that moment, and
  that role grants the permission.
\<close>

lemma RequireMember_Inr:
  assumes "RequireMember c role_of cat orgID perm w = (Inr (c', m), w')"
  shows "\<exists>a. memberActor c = Some a \<and> om_OrgID m = orgID \<and> om_UserID m = a_ID a \<and>
    holds (db w) orgID (a_ID a) (om_Role m) \<and> perm \<in> set (allowed_perms c cat (om_Role m)) \<and>
    (a_Kind a = KindService \<longrightarrow> (\<exists>p. PrincipalFrom c = Some p \<and> p_OrgID p = orgID)) \<and>
    (\<exists>su. c' = With c (a\<lparr>a_OrgID := orgID, a_Permissions := allowed_perms c cat (om_Role m), a_StepUp := su\<rparr>))"
proof -
  from assms obtain a role w1 where a: "memberActor c = Some a"
    and role: "role_of orgID (a_ID a) w = (Inr role, w1)"
    and m: "m = \<lparr>om_OrgID = orgID, om_UserID = a_ID a, om_Role = role\<rparr>"
    and auth: "Authorize c cat m perm = (c', Inr ())"
    by (auto simp: RequireMember_def Let_def run_elims)
  from auth a m show ?thesis
    by (elim Authorize_Inr) (auto simp: lookup_sound [OF role])
qed

text \<open>
  To someone without a membership, an organisation that never existed, one that is deleted, one
  they don't belong to and a malformed ID all look the same, whatever the permission asked for.
\<close>

lemma RequireMember_stranger:
  assumes "memberActor c = Some a" "faults w = []" "\<forall>role. \<not> holds (db w) orgID (a_ID a) role"
  shows "RequireMember c role_of cat orgID perm w = (Inl (Err ErrOrgNotFound), w)"
  using assms lookup_missing [OF assms(2,3)]
  by (auto simp: RequireMember_def comp_defs split: sum.splits)

end

definition member_holds :: "orgdb \<Rightarrow> string \<Rightarrow> string \<Rightarrow> string \<Rightarrow> bool" where
  "member_holds d orgID uid role \<longleftrightarrow>
     live_org d orgID \<and> (\<exists>m \<in> set (t_members d). mr_org m = orgID \<and> mr_user m = uid \<and> mr_role m = role)"

definition service_account_holds :: "orgdb \<Rightarrow> string \<Rightarrow> string \<Rightarrow> string \<Rightarrow> bool" where
  "service_account_holds d orgID uid role \<longleftrightarrow>
     live_org d orgID \<and> (\<exists>a \<in> set (t_service_accounts d). sa_org a = Some orgID \<and> sa_id a = uid \<and>
       sa_disabled_at a = None \<and> sa_roles a = [role])"

definition resource_holds :: "orgdb \<Rightarrow> string \<Rightarrow> string \<Rightarrow> string \<Rightarrow> bool" where
  "resource_holds d orgID uid role \<longleftrightarrow>
     (if has_prefix uid ''svc_'' then service_account_holds d orgID uid role else member_holds d orgID uid role)"

lemma find_None_iff: "List.find p xs = None \<longleftrightarrow> (\<forall>x \<in> set xs. \<not> p x)"
  by (induction xs) auto

interpretation members: memberships MemberRole member_holds
proof
  show "reads (MemberRole orgID uid)" for orgID uid
    by (simp add: MemberRole_def reads_query)
  show "member_holds (db w) orgID uid role"
    if "MemberRole orgID uid w = (Inr role, w')" for orgID uid w role w'
    using that by (auto simp: MemberRole_def run_elims found_def member_holds_def
        split: option.splits dest!: find_SomeD)
  show "MemberRole orgID uid w = (Inl (Err ErrNotMember), w)"
    if "faults w = []" "\<forall>role. \<not> member_holds (db w) orgID uid role" for w orgID uid
  proof -
    from that(2) have "List.find (\<lambda>m. mr_org m = orgID \<and> mr_user m = uid \<and> live_org (db w) orgID)
        (t_members (db w)) = None"
      by (auto simp: member_holds_def find_None_iff)
    with that(1) show ?thesis by (simp add: MemberRole_def run_simps found_def)
  qed
qed

lemma ServiceAccountRole_Inr:
  "ServiceAccountRole orgID uid w = (Inr role, w') \<Longrightarrow> service_account_holds (db w) orgID uid role"
  by (auto simp: ServiceAccountRole_def run_elims found_def service_account_holds_def length_Suc_conv
      split: option.splits dest!: find_SomeD)

lemma ServiceAccountRole_missing:
  assumes "faults w = []" "\<forall>role. \<not> service_account_holds (db w) orgID uid role"
  shows "ServiceAccountRole orgID uid w = (Inl (Err ErrNotMember), w)"
proof -
  from assms(2) have "List.find (\<lambda>a. sa_org a = Some orgID \<and> sa_id a = uid \<and> sa_disabled_at a = None \<and>
      length (sa_roles a) = 1 \<and> live_org (db w) orgID) (t_service_accounts (db w)) = None"
    by (auto simp: service_account_holds_def find_None_iff length_Suc_conv)
  with assms(1) show ?thesis by (simp add: ServiceAccountRole_def run_simps found_def)
qed

interpretation resources: memberships resourceMemberships resource_holds
proof
  show "reads (resourceMemberships orgID uid)" for orgID uid
    by (simp add: resourceMemberships_def members.lookup_reads ServiceAccountRole_def reads_query)
  show "resource_holds (db w) orgID uid role"
    if "resourceMemberships orgID uid w = (Inr role, w')" for orgID uid w role w'
    using that by (auto simp: resourceMemberships_def resource_holds_def
        dest: members.lookup_sound ServiceAccountRole_Inr split: if_splits)
  show "resourceMemberships orgID uid w = (Inl (Err ErrNotMember), w)"
    if "faults w = []" "\<forall>role. \<not> resource_holds (db w) orgID uid role" for w orgID uid
    using that by (auto simp: resourceMemberships_def resource_holds_def
        members.lookup_missing ServiceAccountRole_missing)
qed

end
