(* ===== verification/Orgs_Service.thy ===== *)
theory Orgs_Service
  imports Orgs_Access
begin

text \<open>
  The organisations service (\<open>gorbital/orgshttp/internal/usecase\<close>: \<open>service.go\<close>,
  \<open>roles.go\<close>, \<open>orgs.go\<close> and the personal workspace of \<open>accounts.go\<close>).

  A use case is a computation over the tables. Its arguments after the context are the clock's
  reading and the random values it draws (IDs, tokens), then the request's own arguments. What
  the service does outside the database is in \<open>orgext\<close>: the events handed to the audit
  recorder, the emails handed to the mailer and the state of the invitation limiter.
\<close>

record Email =
  em_To :: string
  em_OrgName :: string
  em_InvitedBy :: string
  em_Role :: string
  em_URL :: string
  em_ExpiresIn :: duration

record 'l orgext =
  x_audit :: "(ctx \<times> Event) list"
  x_outbox :: "Email list"
  x_limiter :: 'l

text \<open>
  The library functions whose definition is outside the repository: SHA-256, \<open>net/mail\<close>'s address
  parser, Unicode lowercasing and PostgreSQL's \<open>lower\<close>.
\<close>

record stdlib =
  l_sha256 :: "string \<Rightarrow> string"
  l_ParseAddress :: "string \<Rightarrow> string option"
  l_rune_ToLower :: "nat \<Rightarrow> nat"
  l_ToLower :: "string \<Rightarrow> string"
  l_pg_lower :: "string \<Rightarrow> string"

text \<open>A limiter: its answer for a key, or \<open>None\<close> when it can't decide, and its next state.\<close>

type_synonym 'l taker = "string \<Rightarrow> 'l \<Rightarrow> bool option \<times> 'l"

text \<open>
  The service's configuration and the service. A dependency that may be nil is an option, or
  whether it is set when the model does not look inside it. Settings are the values they have
  during the request.
\<close>

record 'l Config =
  cfg_Store :: bool
  cfg_Catalog :: "Catalog option"
  cfg_Recorder :: bool
  cfg_Emails :: bool
  cfg_InvitationURL :: "string option"
  cfg_InvitationTTL :: "duration option"
  cfg_DeletedOrgRetention :: "duration option"
  cfg_MaxOwnedOrgs :: "int option"
  cfg_InvitationLimiter :: "'l taker option"

record 'l Service =
  s_catalog :: Catalog
  s_invitationURL :: string
  s_invitationTTL :: duration
  s_retention :: duration
  s_maxOwned :: int
  s_take :: "'l taker"
  s_lib :: stdlib

type_synonym ('l, 'a) uc = "('l orgext, 'a) orgc"

abbreviation PermOrgRead :: string where "PermOrgRead \<equiv> ''orgs.org.read''"
abbreviation PermOrgUpdate :: string where "PermOrgUpdate \<equiv> ''orgs.org.update''"
abbreviation PermOrgDelete :: string where "PermOrgDelete \<equiv> ''orgs.org.delete''"
abbreviation PermMembersRead :: string where "PermMembersRead \<equiv> ''orgs.members.read''"
abbreviation PermMembersManage :: string where "PermMembersManage \<equiv> ''orgs.members.manage''"
abbreviation PermServiceAccountsManage :: string where
  "PermServiceAccountsManage \<equiv> ''orgs.service_accounts.manage''"
abbreviation PermOrgCreate :: string where "PermOrgCreate \<equiv> ''orgs.org.create''"
abbreviation PermOrgList :: string where "PermOrgList \<equiv> ''orgs.org.list''"

definition DefaultInvitationTTL :: duration where "DefaultInvitationTTL = 7 * 24 * hour"
definition DefaultDeletedOrgRetention :: duration where "DefaultDeletedOrgRetention = 30 * 24 * hour"
definition DefaultMaxOwnedOrgs :: int where "DefaultMaxOwnedOrgs = 20"
definition InvitationsPerHour :: nat where "InvitationsPerHour = 20"
definition purgeBatch :: nat where "purgeBatch = 100"
definition purgeBudget :: duration where "purgeBudget = 5 * minute"

section \<open>Shared steps\<close>

definition or_default :: "'a option \<Rightarrow> 'a \<Rightarrow> 'a" where
  "or_default x d = (case x of Some v \<Rightarrow> v | None \<Rightarrow> d)"

text \<open>\<open>memory\<close> is the in-memory limiter used without a configured one.\<close>

definition NewService :: "stdlib \<Rightarrow> 'l taker \<Rightarrow> 'l Config \<Rightarrow> 'l Service option" where
  "NewService lib memory c =
     (case (cfg_Catalog c, cfg_InvitationURL c) of
        (Some cat, Some url) \<Rightarrow>
          if \<not> cfg_Store c \<or> \<not> cfg_Recorder c \<or> \<not> cfg_Emails c then None
          else if \<not> list_all (HasRole cat) [RoleOwner, RoleAdmin, RoleMember] then None
          else Some \<lparr>s_catalog = Freeze cat, s_invitationURL = url,
            s_invitationTTL = or_default (cfg_InvitationTTL c) DefaultInvitationTTL,
            s_retention = or_default (cfg_DeletedOrgRetention c) DefaultDeletedOrgRetention,
            s_maxOwned = or_default (cfg_MaxOwnedOrgs c) DefaultMaxOwnedOrgs,
            s_take = or_default (cfg_InvitationLimiter c) memory, s_lib = lib\<rparr>
      | _ \<Rightarrow> None)"

definition clock :: "time \<Rightarrow> time" where
  "clock now = truncate_to now microsecond"

definition userID :: "ctx \<Rightarrow> org_error + string" where
  "userID c =
     (case From c of
        None \<Rightarrow> Inl DErrUnauthenticated
      | Some a \<Rightarrow> if a_Kind a \<noteq> KindUser \<or> a_ID a = [] then Inl DErrUnauthenticated else Inr (a_ID a))"

definition requireUser :: "ctx \<Rightarrow> string \<Rightarrow> org_error + string" where
  "requireUser c permission =
     bind_res (userID c) (\<lambda>uid.
       case Require c permission of Inl _ \<Rightarrow> Inl DErrForbidden | Inr _ \<Rightarrow> Inr uid)"

definition requireSession :: "ctx \<Rightarrow> org_error + string" where
  "requireSession c =
     bind_res (userID c) (\<lambda>uid.
       case PrincipalFrom c of
         Some p \<Rightarrow> if APIKey p then Inl ErrSessionRequired else Inr uid
       | None \<Rightarrow> Inr uid)"

definition lockOrg :: "'l Service \<Rightarrow> ctx \<Rightarrow> string \<Rightarrow> string \<Rightarrow> ('l, Org \<times> OrgMember) uc" where
  "lockOrg s c orgID permission =
     bindC (SelectOrg orgID True) (\<lambda>o1.
     bindC (RequireMember c MemberRole (s_catalog s) orgID permission) (\<lambda>(_, me).
     retC (o1, me)))"

definition requireVerified :: "string \<Rightarrow> ('l, string) uc" where
  "requireVerified uid =
     bindC (tryC (SelectUserEmail uid)) (\<lambda>r.
       case r of
         Inl e \<Rightarrow> failC (if errors_is e ErrMemberNotFound then Err DErrUnauthenticated else e)
       | Inr (email, _, verified) \<Rightarrow> if \<not> verified then failC (Err ErrEmailNotVerified) else retC email)"

definition by_actor :: "ctx \<Rightarrow> string" where
  "by_actor c = (let a = FromOrAnonymous c in a_Kind a @ '':'' @ a_ID a)"

definition audit_ev ::
  "ctx \<Rightarrow> string \<Rightarrow> string \<Rightarrow> string \<Rightarrow> string \<Rightarrow> (string \<times> meta) list \<Rightarrow> ('l, unit) uc" where
  "audit_ev c action orgID resourceType resourceID metadata =
     extC (\<lambda>x. x\<lparr>x_audit := x_audit x @ [(c, zero_Event\<lparr>e_Action := action, e_OrgID := orgID,
       e_ResourceType := resourceType, e_ResourceID := resourceID, e_Outcome := OutcomeSuccess,
       e_Metadata := metadata\<rparr>)]\<rparr>)"

fun known_error :: "org_error \<Rightarrow> bool" where
  "known_error ErrNotMember = False"
| "known_error ErrInvalidID = False"
| "known_error ErrInvalidEmail = False"
| "known_error (ErrOpaque _) = False"
| "known_error _ = True"

fun known :: "org_error goerr \<Rightarrow> bool" where
  "known Driver = False"
| "known (Err e) = known_error e"
| "known (Join es) = (\<exists>e \<in> set es. known e)"

definition storeError :: "string \<Rightarrow> org_error goerr \<Rightarrow> org_error goerr" where
  "storeError op e = (if known e then e else Err (ErrOpaque op))"

definition canAssign :: "'l Service \<Rightarrow> string \<Rightarrow> string \<Rightarrow> bool" where
  "canAssign s actorRole role =
     (if role = RoleOwner then actorRole = RoleOwner
      else list_all (\<lambda>p. p \<in> set (Permissions (s_catalog s) [actorRole])) (Permissions (s_catalog s) [role]))"

definition AuthorizeServiceAccounts :: "'l Service \<Rightarrow> ctx \<Rightarrow> string \<Rightarrow> ('l, ctx \<times> string) uc" where
  "AuthorizeServiceAccounts s c orgID =
     bindC (mapErrC (storeError ''authorize'')
       (RequireMember c MemberRole (s_catalog s) orgID PermServiceAccountsManage)) (\<lambda>(c, me).
     retC (c, om_Role me))"

definition CanAssignServiceAccountRole :: "'l Service \<Rightarrow> string \<Rightarrow> string \<Rightarrow> bool" where
  "CanAssignServiceAccountRole s callerRole role = (role \<noteq> RoleOwner \<and> canAssign s callerRole role)"

definition checkOwnedOrgs :: "'l Service \<Rightarrow> string \<Rightarrow> ('l, unit) uc" where
  "checkOwnedOrgs s uid =
     bindC (LockUserOrgs uid) (\<lambda>_.
     bindC (CountOwnedOrgs uid) (\<lambda>owned.
     if int owned \<ge> s_maxOwned s then failC (Err ErrTooManyOrgs) else retC ()))"

section \<open>Organisations\<close>

text \<open>The statements that add an organisation with its first owner.\<close>

definition insert_with_owner :: "Org \<Rightarrow> string \<Rightarrow> time \<Rightarrow> string \<Rightarrow> ('l, Org) uc" where
  "insert_with_owner o1 uid now addedBy =
     bindC (InsertOrg o1) (\<lambda>o2.
     bindC (InsertMember \<lparr>m_OrgID = o_ID o2, m_UserID = uid, m_Email = [], m_Role = RoleOwner,
              m_JoinedAt = now, m_AddedBy = addedBy\<rparr>) (\<lambda>_.
     retC o2))"

definition Create :: "'l Service \<Rightarrow> ctx \<Rightarrow> time \<Rightarrow> string \<Rightarrow> string \<Rightarrow> ('l, Membership) uc" where
  "Create s c t newID name =
     bindC (liftC (requireUser c PermOrgCreate)) (\<lambda>uid.
     let now = clock t in
     bindC (liftC (NewOrg newID name uid False now)) (\<lambda>o1.
     bindC (mapErrC (storeError ''create'') (requireVerified uid)) (\<lambda>_.
     bindC (mapErrC (storeError ''create'') (InTx (
       bindC (checkOwnedOrgs s uid) (\<lambda>_.
       insert_with_owner o1 uid now (by_actor c))))) (\<lambda>o2.
     bindC (audit_ev c ''orgs.org.created'' (o_ID o2) ''org'' (o_ID o2) []) (\<lambda>_.
     retC (o2, RoleOwner))))))"

definition EnsurePersonalWorkspace :: "'l Service \<Rightarrow> ctx \<Rightarrow> time \<Rightarrow> string \<Rightarrow> string \<Rightarrow> ('l, Org) uc" where
  "EnsurePersonalWorkspace s c t newID uid =
     bindC (mapErrC (storeError ''personal workspace'') (SelectPersonalOrg uid)) (\<lambda>r.
     case r of
       Some o1 \<Rightarrow> retC o1
     | None \<Rightarrow>
         let now = clock t in
         bindC (liftC (NewOrg newID PersonalName uid True now)) (\<lambda>o1.
         bindC (tryC (InTx (insert_with_owner o1 uid now ''system:orgs''))) (\<lambda>r.
         case r of
           Inl e \<Rightarrow>
             bindC (tryC (SelectPersonalOrg uid)) (\<lambda>again.
             case again of
               Inr (Some existing) \<Rightarrow> retC existing
             | _ \<Rightarrow> failC (storeError ''personal workspace'' e))
         | Inr o2 \<Rightarrow>
             bindC (audit_ev c ''orgs.org.created'' (o_ID o2) ''org'' (o_ID o2) [(''personal'', MBool True)]) (\<lambda>_.
             retC o2))))"

definition List_orgs :: "'l Service \<Rightarrow> ctx \<Rightarrow> time \<Rightarrow> string \<Rightarrow> ('l, Membership list) uc" where
  "List_orgs s c t newID =
     bindC (liftC (requireUser c PermOrgList)) (\<lambda>uid.
     bindC (EnsurePersonalWorkspace s c t newID uid) (\<lambda>_.
     mapErrC (storeError ''list'') (SelectMemberships (l_pg_lower (s_lib s)) uid)))"

definition Get :: "'l Service \<Rightarrow> ctx \<Rightarrow> string \<Rightarrow> ('l, Membership) uc" where
  "Get s c orgID =
     mapErrC (storeError ''get'') (
     bindC (RequireMember c MemberRole (s_catalog s) orgID PermOrgRead) (\<lambda>(c, me).
     bindC (SelectOrg orgID False) (\<lambda>o1.
     retC (o1, om_Role me))))"

definition rename_tx :: "'l Service \<Rightarrow> ctx \<Rightarrow> time \<Rightarrow> string \<Rightarrow> string \<Rightarrow> int \<Rightarrow> ('l, Org \<times> OrgMember) uc" where
  "rename_tx s c t orgID name version =
     bindC (lockOrg s c orgID PermOrgUpdate) (\<lambda>(_, me).
     bindC (UpdateOrgName orgID name version (clock t)) (\<lambda>o1.
     retC (o1, me)))"

definition Rename :: "'l Service \<Rightarrow> ctx \<Rightarrow> time \<Rightarrow> string \<Rightarrow> string \<Rightarrow> int \<Rightarrow> ('l, Membership) uc" where
  "Rename s c t orgID name version =
     bindC (mapErrC (storeError ''rename'') (RequireMember c MemberRole (s_catalog s) orgID PermOrgUpdate)) (\<lambda>(c, _).
     bindC (liftC (NormalizeName name)) (\<lambda>name.
     bindC (mapErrC (storeError ''rename'') (InTx (rename_tx s c t orgID name version))) (\<lambda>(o1, me).
     bindC (audit_ev c ''orgs.org.renamed'' orgID ''org'' orgID []) (\<lambda>_.
     retC (o1, om_Role me)))))"

definition delete_tx :: "'l Service \<Rightarrow> ctx \<Rightarrow> time \<Rightarrow> time \<Rightarrow> string \<Rightarrow> ('l, unit) uc" where
  "delete_tx s c now purgeAfter orgID =
     bindC (lockOrg s c orgID PermOrgDelete) (\<lambda>(o1, _).
     if o_Personal o1 then failC (Err ErrPersonalWorkspace)
     else MarkOrgDeleted orgID now purgeAfter)"

definition Delete :: "'l Service \<Rightarrow> ctx \<Rightarrow> time \<Rightarrow> string \<Rightarrow> ('l, unit) uc" where
  "Delete s c t orgID =
     bindC (mapErrC (storeError ''delete'') (RequireMember c MemberRole (s_catalog s) orgID PermOrgDelete)) (\<lambda>(c, _).
     let now = clock t; purgeAfter = now + s_retention s in
     bindC (mapErrC (storeError ''delete'') (InTx (delete_tx s c now purgeAfter orgID))) (\<lambda>_.
     audit_ev c ''orgs.org.deleted'' orgID ''org'' orgID [(''purge_after'', MTime purgeAfter)]))"

definition restore_tx :: "'l Service \<Rightarrow> ctx \<Rightarrow> time \<Rightarrow> string \<Rightarrow> string \<Rightarrow> ('l, Membership) uc" where
  "restore_tx s c t uid orgID =
     bindC (SelectDeletedOrg orgID) (\<lambda>o1.
     bindC (tryC (SelectMember orgID uid)) (\<lambda>r.
     case r of
       Inl e \<Rightarrow> failC (if errors_is e ErrMemberNotFound then Err ErrOrgNotFound else e)
     | Inr m \<Rightarrow>
         bindC (liftC (snd (Authorize c (s_catalog s)
           \<lparr>om_OrgID = orgID, om_UserID = uid, om_Role = m_Role m\<rparr> PermOrgDelete))) (\<lambda>_.
         bindC (if m_Role m = RoleOwner then checkOwnedOrgs s uid else retC ()) (\<lambda>_.
         bindC (RestoreOrg orgID (clock t)) (\<lambda>_.
         retC (o1\<lparr>o_DeletedAt := None, o_PurgeAfter := None\<rparr>, m_Role m))))))"

definition Restore :: "'l Service \<Rightarrow> ctx \<Rightarrow> time \<Rightarrow> string \<Rightarrow> ('l, Membership) uc" where
  "Restore s c t orgID =
     bindC (liftC (userID c)) (\<lambda>uid.
     case ParseID orgID of
       Inl _ \<Rightarrow> failC (Err ErrOrgNotFound)
     | Inr _ \<Rightarrow>
       bindC (mapErrC (storeError ''restore'') (InTx (restore_tx s c t uid orgID))) (\<lambda>restored.
       bindC (audit_ev c ''orgs.org.restored'' orgID ''org'' orgID []) (\<lambda>_.
       retC restored)))"

section \<open>Purging\<close>

text \<open>One batch: how many organisations it removed.\<close>

fun purge_batch :: "ctx \<Rightarrow> time \<Rightarrow> string list \<Rightarrow> nat \<Rightarrow> ('l, nat) uc" where
  "purge_batch c now [] removed = retC removed"
| "purge_batch c now (oid # oids) removed =
     bindC (mapErrC (storeError ''purge'') (DeleteOrg oid now)) (\<lambda>deleted.
     if deleted then
       bindC (audit_ev c ''orgs.org.purged'' oid ''org'' oid []) (\<lambda>_.
       purge_batch c now oids (removed + 1))
     else purge_batch c now oids removed)"

text \<open>
  The loop. \<open>ticks\<close> holds, for each time the loop's head is reached, the wall clock's reading
  and whether the context is cancelled by then; the clock passes \<open>stop\<close> at the list's end.
  Like the Go function it returns the count along with the error.
\<close>

fun purge_loop :: "ctx \<Rightarrow> time \<Rightarrow> time \<Rightarrow> (time \<times> bool) list \<Rightarrow> nat \<Rightarrow>
    ('l, nat \<times> org_error goerr option) uc" where
  "purge_loop c now stop [] purged = retC (purged, None)"
| "purge_loop c now stop ((tick, cancelled) # ticks) purged =
     (if \<not> tick < stop then retC (purged, None)
      else if cancelled then retC (purged, Some (Err (ErrOpaque ''context canceled'')))
      else bindC (tryC (mapErrC (storeError ''purge'') (SelectOrgsToPurge now purgeBatch))) (\<lambda>r.
        case r of
          Inl e \<Rightarrow> retC (purged, Some e)
        | Inr oids \<Rightarrow>
            bindC (tryC (purge_batch c now oids 0)) (\<lambda>r.
            case r of
              Inl e \<Rightarrow> retC (purged, Some e)
            | Inr removed \<Rightarrow>
                if length oids < purgeBatch \<or> removed = 0 then retC (purged + removed, None)
                else purge_loop c now stop ticks (purged + removed))))"

definition Purge :: "ctx \<Rightarrow> time \<Rightarrow> time \<Rightarrow> (time \<times> bool) list \<Rightarrow> ('l, nat \<times> org_error goerr option) uc" where
  "Purge c t started ticks = purge_loop c (clock t) (started + purgeBudget) ticks 0"

end
