(* ===== verification/Orgs_Members.thy ===== *)
theory Orgs_Members
  imports Orgs_Service
begin

text \<open>
  Members, invitations and account removal
  (\<open>gorbital/orgshttp/internal/usecase\<close>: \<open>members.go\<close>, \<open>invitations.go\<close>,
  \<open>accounts.go\<close>) and the tokens and addresses of \<open>modules/auth/token.go\<close>.
\<close>

section \<open>Members\<close>

definition ListMembers :: "'l Service \<Rightarrow> ctx \<Rightarrow> string \<Rightarrow> ('l, Member list) uc" where
  "ListMembers s c orgID =
     mapErrC (storeError ''list members'') (
     bindC (RequireMember c MemberRole (s_catalog s) orgID PermMembersRead) (\<lambda>_.
     SelectMembers orgID))"

definition keepAnOwner :: "string \<Rightarrow> string \<Rightarrow> string \<Rightarrow> ('l, unit) uc" where
  "keepAnOwner orgID uid role =
     (if role \<noteq> RoleOwner then retC ()
      else bindC (CountOwners orgID uid) (\<lambda>others.
        if others = 0 then failC (Err ErrLastOwner) else retC ()))"

text \<open>The transaction of \<open>ChangeRole\<close>: the member as they are afterwards and the role they had.\<close>

definition change_role_tx :: "'l Service \<Rightarrow> ctx \<Rightarrow> string \<Rightarrow> string \<Rightarrow> string \<Rightarrow> ('l, Member \<times> string) uc" where
  "change_role_tx s c orgID memberID role =
     bindC (lockOrg s c orgID PermMembersManage) (\<lambda>(_, me).
     bindC (SelectMember orgID memberID) (\<lambda>target.
     let from = m_Role target in
     if from = role then retC (target, from)
     else if \<not> canAssign s (om_Role me) from \<or> \<not> canAssign s (om_Role me) role
     then failC (Err ErrRoleNotAllowed)
     else bindC (keepAnOwner orgID memberID from) (\<lambda>_.
       bindC (UpdateMemberRole orgID memberID role) (\<lambda>_.
       retC (target\<lparr>m_Role := role\<rparr>, from)))))"

definition ChangeRole :: "'l Service \<Rightarrow> ctx \<Rightarrow> string \<Rightarrow> string \<Rightarrow> string \<Rightarrow> ('l, Member) uc" where
  "ChangeRole s c orgID memberID role =
     bindC (mapErrC (storeError ''change role'')
       (RequireMember c MemberRole (s_catalog s) orgID PermMembersManage)) (\<lambda>(c, _).
     if \<not> HasRole (s_catalog s) role then failC (Err ErrUnknownRole)
     else
       bindC (mapErrC (storeError ''change role'') (InTx (change_role_tx s c orgID memberID role))) (\<lambda>(target, from).
       bindC (if from \<noteq> role
              then audit_ev c ''orgs.member.role_changed'' orgID ''user'' memberID
                     [(''from'', MStr from), (''to'', MStr role)]
              else retC ()) (\<lambda>_.
       retC target)))"

definition leave_tx :: "'l Service \<Rightarrow> ctx \<Rightarrow> string \<Rightarrow> ('l, OrgMember) uc" where
  "leave_tx s c orgID =
     bindC (lockOrg s c orgID PermOrgRead) (\<lambda>(o1, me).
     if o_Personal o1 then failC (Err ErrPersonalWorkspace)
     else bindC (keepAnOwner orgID (om_UserID me) (om_Role me)) (\<lambda>_.
       bindC (DeleteMember orgID (om_UserID me)) (\<lambda>_.
       retC me)))"

definition Leave :: "'l Service \<Rightarrow> ctx \<Rightarrow> string \<Rightarrow> ('l, unit) uc" where
  "Leave s c orgID =
     bindC (liftC (requireSession c)) (\<lambda>_.
     bindC (mapErrC (storeError ''leave'')
       (RequireMember c MemberRole (s_catalog s) orgID PermOrgRead)) (\<lambda>(c, _).
     bindC (mapErrC (storeError ''leave'') (InTx (leave_tx s c orgID))) (\<lambda>me.
     audit_ev c ''orgs.member.left'' orgID ''user'' (om_UserID me) [(''role'', MStr (om_Role me))])))"

definition remove_member_tx :: "'l Service \<Rightarrow> ctx \<Rightarrow> string \<Rightarrow> string \<Rightarrow> ('l, string) uc" where
  "remove_member_tx s c orgID memberID =
     bindC (lockOrg s c orgID PermMembersManage) (\<lambda>(_, me).
     bindC (SelectMember orgID memberID) (\<lambda>target.
     let role = m_Role target in
     if \<not> canAssign s (om_Role me) role then failC (Err ErrRoleNotAllowed)
     else bindC (keepAnOwner orgID memberID role) (\<lambda>_.
       bindC (DeleteMember orgID memberID) (\<lambda>_.
       retC role))))"

definition RemoveMember :: "'l Service \<Rightarrow> ctx \<Rightarrow> string \<Rightarrow> string \<Rightarrow> ('l, unit) uc" where
  "RemoveMember s c orgID memberID =
     (if userID c = Inr memberID then Leave s c orgID
      else
        bindC (mapErrC (storeError ''remove member'')
          (RequireMember c MemberRole (s_catalog s) orgID PermMembersManage)) (\<lambda>(c, _).
        bindC (mapErrC (storeError ''remove member'') (InTx (remove_member_tx s c orgID memberID))) (\<lambda>role.
        audit_ev c ''orgs.member.removed'' orgID ''user'' memberID [(''role'', MStr role)])))"

section \<open>Addresses and tokens\<close>

definition NormalizeEmail :: "stdlib \<Rightarrow> string \<Rightarrow> org_error + string \<times> string" where
  "NormalizeEmail lib s =
     (let email = TrimSpace s in
      if email = [] \<or> length email > 254 then Inl ErrInvalidEmail
      else if l_ParseAddress lib email \<noteq> Some email then Inl ErrInvalidEmail
      else if \<exists>r \<in> set (runes email). r \<ge> 128 \<and> l_rune_ToLower lib r \<noteq> r then Inl ErrInvalidEmail
      else Inr (email, l_ToLower lib email))"

definition HashToken :: "stdlib \<Rightarrow> string \<Rightarrow> string" where
  "HashToken lib token = l_sha256 lib token"

section \<open>Invitations\<close>

definition lockForInvitations :: "'l Service \<Rightarrow> ctx \<Rightarrow> string \<Rightarrow> string \<Rightarrow> time \<Rightarrow> ('l, Org \<times> OrgMember) uc" where
  "lockForInvitations s c orgID role now =
     bindC (lockOrg s c orgID PermMembersManage) (\<lambda>(o1, me).
     if role \<noteq> [] \<and> \<not> canAssign s (om_Role me) role then failC (Err ErrRoleNotAllowed)
     else if o_Personal o1 then failC (Err ErrPersonalWorkspace)
     else bindC (CountInvitationsSince orgID (now - hour)) (\<lambda>sent.
       if sent \<ge> InvitationsPerHour then failC (Err ErrTooManyInvitations)
       else retC (o1, me)))"

definition openInvitation :: "'l Service \<Rightarrow> string \<Rightarrow> string \<Rightarrow> string \<Rightarrow> ('l, Invitation) uc" where
  "openInvitation s orgID iid myRole =
     bindC (SelectInvitation orgID iid) (\<lambda>iv.
     if i_AcceptedAt iv \<noteq> None \<or> i_RevokedAt iv \<noteq> None then failC (Err ErrInvitationNotFound)
     else if \<not> canAssign s myRole (i_Role iv) then failC (Err ErrRoleNotAllowed)
     else retC iv)"

definition checkInviter :: "'l Service \<Rightarrow> Invitation \<Rightarrow> ('l, unit) uc" where
  "checkInviter s iv =
     (case cut_prefix (i_InvitedBy iv) ''user:'' of
        None \<Rightarrow> failC (Err ErrInvitationNotFound)
      | Some inviterID \<Rightarrow>
          if inviterID = [] then failC (Err ErrInvitationNotFound)
          else bindC (tryC (SelectUserEmail inviterID)) (\<lambda>r.
            case r of
              Inl e \<Rightarrow> failC (if errors_is e ErrMemberNotFound then Err ErrInvitationNotFound else e)
            | Inr _ \<Rightarrow>
                bindC (tryC (MemberRole (i_OrgID iv) inviterID)) (\<lambda>r.
                case r of
                  Inl e \<Rightarrow> failC (if errors_is e ErrNotMember then Err ErrInvitationNotFound else e)
                | Inr role \<Rightarrow>
                    if PermMembersManage \<notin> set (Permissions (s_catalog s) [role])
                       \<or> \<not> canAssign s role (i_Role iv)
                    then failC (Err ErrInvitationNotFound) else retC ())))"

text \<open>The limiter's own state is not part of the transaction: what it took stays taken.\<close>

definition takeInvitation :: "'l Service \<Rightarrow> string \<Rightarrow> ('l, unit) uc" where
  "takeInvitation s uid = (\<lambda>w.
     let (d, l) = s_take s (''user:'' @ uid) (x_limiter (ext w));
         w' = w\<lparr>ext := (ext w)\<lparr>x_limiter := l\<rparr>\<rparr> in
     (if d = Some False then Inl (Err ErrTooManyInvitations) else Inr (), w'))"

definition trim_right_slash :: "string \<Rightarrow> string" where
  "trim_right_slash s = rev (dropWhile (\<lambda>c. c = CHR ''/'') (rev s))"

definition sendInvitation ::
  "'l Service \<Rightarrow> string \<Rightarrow> Org \<Rightarrow> Invitation \<Rightarrow> string \<Rightarrow> duration \<Rightarrow> ('l, unit) uc" where
  "sendInvitation s inviter o1 iv token ttl =
     extC (\<lambda>x. x\<lparr>x_outbox := x_outbox x @ [\<lparr>em_To = i_Email iv, em_OrgName = o_Name o1,
       em_InvitedBy = inviter, em_Role = i_Role iv,
       em_URL = trim_right_slash (s_invitationURL s) @ ''#token='' @ token, em_ExpiresIn = ttl\<rparr>]\<rparr>)"

definition invite_tx :: "'l Service \<Rightarrow> ctx \<Rightarrow> string \<Rightarrow> string \<Rightarrow> string \<Rightarrow> string \<Rightarrow> string \<Rightarrow> string \<Rightarrow>
    string \<Rightarrow> time \<Rightarrow> ('l, Org \<times> Invitation) uc" where
  "invite_tx s c orgID uid email normalized role newID hash now =
     bindC (lockForInvitations s c orgID role now) (\<lambda>(o1, _).
     bindC (IsMemberEmail orgID normalized) (\<lambda>member.
     if member then failC (Err ErrAlreadyMember)
     else
       bindC (RevokeExpiredInvitation orgID normalized now) (\<lambda>_.
       bindC (takeInvitation s uid) (\<lambda>_.
       bindC (InsertInvitation \<lparr>i_ID = newID, i_OrgID = orgID, i_Email = email,
                i_NormalizedEmail = normalized, i_Role = role, i_TokenHash = hash,
                i_InvitedBy = by_actor c, i_CreatedAt = now, i_ExpiresAt = now + s_invitationTTL s,
                i_AcceptedAt = None, i_RevokedAt = None, i_SentAt = now\<rparr>) (\<lambda>iv.
       retC (o1, iv))))))"

definition Invite :: "'l Service \<Rightarrow> ctx \<Rightarrow> time \<Rightarrow> string \<Rightarrow> string \<Rightarrow> string \<Rightarrow> string \<Rightarrow> string \<Rightarrow> ('l, Invitation) uc" where
  "Invite s c t newID token orgID email role =
     bindC (mapErrC (storeError ''invite'')
       (RequireMember c MemberRole (s_catalog s) orgID PermMembersManage)) (\<lambda>(c, me).
     let role = (if role = [] then RoleMember else role) in
     if \<not> HasRole (s_catalog s) role then failC (Err ErrUnknownRole)
     else if \<not> canAssign s (om_Role me) role then failC (Err ErrRoleNotAllowed)
     else
       bindC (liftC (NormalizeEmail (s_lib s) email)) (\<lambda>(email, normalized).
       bindC (mapErrC (storeError ''invite'') (requireVerified (om_UserID me))) (\<lambda>inviter.
       let now = clock t in
       bindC (mapErrC (storeError ''invite'') (InTx
         (invite_tx s c orgID (om_UserID me) email normalized role newID (HashToken (s_lib s) token) now))) (\<lambda>(o1, iv).
       bindC (sendInvitation s inviter o1 iv token (s_invitationTTL s)) (\<lambda>_.
       bindC (audit_ev c ''orgs.invitation.created'' orgID ''invitation'' (i_ID iv) [(''role'', MStr role)]) (\<lambda>_.
       retC iv))))))"

definition ListInvitations :: "'l Service \<Rightarrow> ctx \<Rightarrow> string \<Rightarrow> ('l, Invitation list) uc" where
  "ListInvitations s c orgID =
     mapErrC (storeError ''list invitations'') (
     bindC (RequireMember c MemberRole (s_catalog s) orgID PermMembersManage) (\<lambda>_.
     SelectOpenInvitations orgID))"

definition resend_tx :: "'l Service \<Rightarrow> ctx \<Rightarrow> string \<Rightarrow> string \<Rightarrow> string \<Rightarrow> time \<Rightarrow> ('l, Org \<times> Invitation) uc" where
  "resend_tx s c orgID iid hash now =
     bindC (lockForInvitations s c orgID [] now) (\<lambda>(o1, me).
     bindC (openInvitation s orgID iid (om_Role me)) (\<lambda>iv.
     bindC (takeInvitation s (om_UserID me)) (\<lambda>_.
     let iv' = iv\<lparr>i_TokenHash := hash, i_InvitedBy := by_actor c, i_ExpiresAt := now + s_invitationTTL s\<rparr> in
     bindC (ReplaceInvitationToken iid hash (i_InvitedBy iv') now (i_ExpiresAt iv')) (\<lambda>_.
     retC (o1, iv')))))"

definition ResendInvitation :: "'l Service \<Rightarrow> ctx \<Rightarrow> time \<Rightarrow> string \<Rightarrow> string \<Rightarrow> string \<Rightarrow> ('l, Invitation) uc" where
  "ResendInvitation s c t token orgID iid =
     bindC (mapErrC (storeError ''resend invitation'')
       (RequireMember c MemberRole (s_catalog s) orgID PermMembersManage)) (\<lambda>(c, me).
     bindC (mapErrC (storeError ''resend invitation'') (requireVerified (om_UserID me))) (\<lambda>inviter.
     let now = clock t in
     bindC (mapErrC (storeError ''resend invitation'') (InTx
       (resend_tx s c orgID iid (HashToken (s_lib s) token) now))) (\<lambda>(o1, iv).
     bindC (sendInvitation s inviter o1 iv token (s_invitationTTL s)) (\<lambda>_.
     bindC (audit_ev c ''orgs.invitation.resent'' orgID ''invitation'' iid []) (\<lambda>_.
     retC iv)))))"

definition revoke_tx :: "'l Service \<Rightarrow> ctx \<Rightarrow> time \<Rightarrow> string \<Rightarrow> string \<Rightarrow> ('l, unit) uc" where
  "revoke_tx s c t orgID iid =
     bindC (lockOrg s c orgID PermMembersManage) (\<lambda>(_, me).
     bindC (openInvitation s orgID iid (om_Role me)) (\<lambda>_.
     RevokeInvitation_sql iid (clock t)))"

definition RevokeInvitation :: "'l Service \<Rightarrow> ctx \<Rightarrow> time \<Rightarrow> string \<Rightarrow> string \<Rightarrow> ('l, unit) uc" where
  "RevokeInvitation s c t orgID iid =
     bindC (mapErrC (storeError ''revoke invitation'')
       (RequireMember c MemberRole (s_catalog s) orgID PermMembersManage)) (\<lambda>(c, _).
     bindC (mapErrC (storeError ''revoke invitation'') (InTx (revoke_tx s c t orgID iid))) (\<lambda>_.
     audit_ev c ''orgs.invitation.revoked'' orgID ''invitation'' iid []))"

definition accept_tx :: "'l Service \<Rightarrow> string \<Rightarrow> string \<Rightarrow> bool \<Rightarrow> string \<Rightarrow> Invitation \<Rightarrow> time \<Rightarrow>
    ('l, Membership \<times> Invitation) uc" where
  "accept_tx s uid normalized verified hash seen now =
     bindC (tryC (SelectOrg (i_OrgID seen) True)) (\<lambda>r.
     case r of
       Inl e \<Rightarrow> failC (if errors_is e ErrOrgNotFound then Err ErrInvitationNotFound else e)
     | Inr o1 \<Rightarrow>
         bindC (SelectInvitation (i_OrgID seen) (i_ID seen)) (\<lambda>iv.
         if i_TokenHash iv \<noteq> hash \<or> \<not> PendingAt iv now then failC (Err ErrInvitationNotFound)
         else if \<not> verified \<or> normalized \<noteq> i_NormalizedEmail iv then failC (Err ErrInvitationEmail)
         else if \<not> HasRole (s_catalog s) (i_Role iv) then failC (Err ErrUnknownRole)
         else
           bindC (checkInviter s iv) (\<lambda>_.
           bindC (InsertMember \<lparr>m_OrgID = o_ID o1, m_UserID = uid, m_Email = [], m_Role = i_Role iv,
                    m_JoinedAt = now, m_AddedBy = ''invitation:'' @ i_ID iv\<rparr>) (\<lambda>_.
           bindC (AcceptInvitation_sql (i_ID iv) now) (\<lambda>_.
           retC ((o1, i_Role iv), iv))))))"

definition AcceptInvitation :: "'l Service \<Rightarrow> ctx \<Rightarrow> time \<Rightarrow> string \<Rightarrow> ('l, Membership) uc" where
  "AcceptInvitation s c t token =
     bindC (liftC (requireSession c)) (\<lambda>uid.
     let token = TrimSpace token in
     if token = [] then failC (Err ErrInvitationNotFound)
     else
       bindC (tryC (SelectUserEmail uid)) (\<lambda>r.
       case r of
         Inl e \<Rightarrow> failC (if errors_is e ErrMemberNotFound then Err DErrUnauthenticated
                         else storeError ''accept invitation'' e)
       | Inr (_, normalized, verified) \<Rightarrow>
           let now = clock t; hash = HashToken (s_lib s) token in
           bindC (mapErrC (storeError ''accept invitation'') (SelectInvitationByTokenHash hash False)) (\<lambda>seen.
           bindC (mapErrC (storeError ''accept invitation'')
             (InTx (accept_tx s uid normalized verified hash seen now))) (\<lambda>(accepted, iv).
           bindC (audit_ev c ''orgs.invitation.accepted'' (i_OrgID iv) ''invitation'' (i_ID iv) []) (\<lambda>_.
           bindC (audit_ev c ''orgs.member.added'' (i_OrgID iv) ''user'' uid
             [(''role'', MStr (i_Role iv)), (''invitation_id'', MStr (i_ID iv))]) (\<lambda>_.
           retC accepted))))))"

section \<open>Account removal\<close>

definition soleOwnerWithOthers :: "UserOrg \<Rightarrow> bool" where
  "soleOwnerWithOthers o1 =
     (\<not> uo_Personal o1 \<and> \<not> uo_Deleted o1 \<and> uo_Role o1 = RoleOwner \<and> uo_Owners o1 = 1 \<and> uo_Members o1 > 1)"

definition CheckAccountDeletion :: "string \<Rightarrow> ('l, unit) uc" where
  "CheckAccountDeletion uid =
     bindC (mapErrC (storeError ''check account deletion'') (SelectUserOrgs uid)) (\<lambda>orgs.
     let blocking = map (\<lambda>o1. (uo_OrgID o1, uo_Personal o1, uo_Members o1)) (filter soleOwnerWithOthers orgs) in
     if blocking \<noteq> [] then failC (Err (ErrSoleOwner blocking)) else retC ())"

text \<open>What the transaction of \<open>removeFromOrg\<close> leaves in its captured variables.\<close>

record removal =
  rm_removed :: bool
  rm_deleted :: bool
  rm_promoted :: string
  rm_role :: string

text \<open>Who takes over: the earliest admin, or else the earliest member.\<close>

definition nextOwner :: "string \<Rightarrow> string \<Rightarrow> ('l, Member) uc" where
  "nextOwner orgID uid =
     bindC (tryC (SelectEarliestMember orgID RoleAdmin uid)) (\<lambda>r.
     case r of
       Inl e \<Rightarrow> if errors_is e ErrMemberNotFound then SelectEarliestMember orgID [] uid else failC e
     | Inr m \<Rightarrow> retC m)"

text \<open>Removing the last owner hands the organisation over: the ID of the member promoted, or empty.\<close>

definition handOver :: "string \<Rightarrow> string \<Rightarrow> ('l, string) uc" where
  "handOver orgID uid =
     bindC (CountOwners orgID uid) (\<lambda>owners.
     if owners \<noteq> 0 then retC []
     else
       bindC (nextOwner orgID uid) (\<lambda>next.
       bindC (UpdateMemberRole orgID (m_UserID next) RoleOwner) (\<lambda>_.
       retC (m_UserID next))))"

text \<open>Whether no other member with a live account is left.\<close>

definition isAlone :: "string \<Rightarrow> string \<Rightarrow> ('l, bool) uc" where
  "isAlone orgID uid =
     bindC (tryC (SelectEarliestMember orgID [] uid)) (\<lambda>r.
     case r of
       Inl e \<Rightarrow> if errors_is e ErrMemberNotFound then retC True else failC e
     | Inr _ \<Rightarrow> retC False)"

definition remove_live :: "'l Service \<Rightarrow> string \<Rightarrow> string \<Rightarrow> time \<Rightarrow> Org \<Rightarrow> string \<Rightarrow> ('l, removal) uc" where
  "remove_live s uid orgID now o1 role =
     bindC (isAlone orgID uid) (\<lambda>alone.
     if o_Personal o1 \<or> alone then
       bindC (MarkOrgDeleted orgID now (now + s_retention s)) (\<lambda>_.
       bindC (DeleteMember orgID uid) (\<lambda>_.
       retC \<lparr>rm_removed = False, rm_deleted = True, rm_promoted = [], rm_role = role\<rparr>))
     else
       bindC (if role = RoleOwner then handOver orgID uid else retC []) (\<lambda>promoted.
       bindC (DeleteMember orgID uid) (\<lambda>_.
       retC \<lparr>rm_removed = True, rm_deleted = False, rm_promoted = promoted, rm_role = role\<rparr>)))"

definition not_removed :: "string \<Rightarrow> removal" where
  "not_removed role = \<lparr>rm_removed = False, rm_deleted = False, rm_promoted = [], rm_role = role\<rparr>"

text \<open>The organisation, deleted or not, locked.\<close>

definition selectAnyOrg :: "string \<Rightarrow> ('l, Org) uc" where
  "selectAnyOrg orgID =
     bindC (tryC (SelectOrg orgID True)) (\<lambda>r.
     case r of
       Inl e \<Rightarrow> if errors_is e ErrOrgNotFound then SelectDeletedOrg orgID else failC e
     | Inr o1 \<Rightarrow> retC o1)"

definition remove_tx :: "'l Service \<Rightarrow> string \<Rightarrow> string \<Rightarrow> time \<Rightarrow> ('l, removal) uc" where
  "remove_tx s uid orgID now =
     bindC (tryC (selectAnyOrg orgID)) (\<lambda>r.
     case r of
       Inl e \<Rightarrow> if errors_is e ErrOrgNotFound then retC (not_removed []) else failC e
     | Inr o1 \<Rightarrow>
         bindC (tryC (SelectMember orgID uid)) (\<lambda>r.
         case r of
           Inl e \<Rightarrow> if errors_is e ErrMemberNotFound then retC (not_removed []) else failC e
         | Inr m \<Rightarrow>
             if o_DeletedAt o1 \<noteq> None then
               bindC (DeleteMember orgID uid) (\<lambda>_.
               retC \<lparr>rm_removed = True, rm_deleted = False, rm_promoted = [], rm_role = m_Role m\<rparr>)
             else remove_live s uid orgID now o1 (m_Role m)))"

definition removeFromOrg :: "'l Service \<Rightarrow> ctx \<Rightarrow> time \<Rightarrow> string \<Rightarrow> string \<Rightarrow> ('l, unit) uc" where
  "removeFromOrg s c t uid orgID =
     bindC (InTx (remove_tx s uid orgID (clock t))) (\<lambda>r.
     if rm_deleted r then
       audit_ev c ''orgs.org.deleted'' orgID ''org'' orgID [(''reason'', MStr ''account_deleted'')]
     else if rm_removed r then
       bindC (if rm_promoted r \<noteq> []
              then audit_ev c ''orgs.member.role_changed'' orgID ''user'' (rm_promoted r)
                     [(''to'', MStr RoleOwner), (''reason'', MStr ''owner_account_deleted'')]
              else retC ()) (\<lambda>_.
       audit_ev c ''orgs.member.removed'' orgID ''user'' uid
         [(''reason'', MStr ''account_deleted''), (''role'', MStr (rm_role r))])
     else retC ())"

text \<open>The loop goes on after an error and returns them all; each pass reads the clock.\<close>

fun remove_each :: "'l Service \<Rightarrow> ctx \<Rightarrow> string \<Rightarrow> (string \<times> time) list \<Rightarrow> ('l, org_error goerr list) uc" where
  "remove_each s c uid [] = retC []"
| "remove_each s c uid ((orgID, t) # rest) =
     bindC (tryC (removeFromOrg s c t uid orgID)) (\<lambda>r.
     bindC (remove_each s c uid rest) (\<lambda>errs.
     retC ((case r of Inl e \<Rightarrow> [e] | Inr _ \<Rightarrow> []) @ errs)))"

definition RemoveAccount :: "'l Service \<Rightarrow> ctx \<Rightarrow> (nat \<Rightarrow> time) \<Rightarrow> string \<Rightarrow> ('l, unit) uc" where
  "RemoveAccount s c clocks uid =
     bindC (mapErrC (storeError ''remove account'') (SelectUserOrgs uid)) (\<lambda>orgs.
     bindC (remove_each s c uid (map (\<lambda>(o1, i). (uo_OrgID o1, clocks i)) (zip orgs [0..<length orgs]))) (\<lambda>errs.
     if errs \<noteq> [] then failC (storeError ''remove account'' (Join errs)) else retC ()))"

end
