(* ===== verification/Orgs_Invariants.thy ===== *)
theory Orgs_Invariants
  imports Orgs_Members
begin

text \<open>
  What the organisations module keeps true of its tables. \<open>tables_ok\<close> gathers the constraints
  of the schema; every statement keeps it. \<open>owned\<close> is the module's own rule: every live
  organisation has an owner. \<open>org_reach\<close> is the state machine of the module: the tables that
  any sequence of use cases, account changes of the auth module, faults and concurrent
  transactions can produce.
\<close>

section \<open>The schema's constraints\<close>

definition keys_ok :: "orgdb \<Rightarrow> bool" where
  "keys_ok d \<longleftrightarrow> distinct (map o_ID (t_orgs d)) \<and>
     distinct (map (\<lambda>m. (mr_org m, mr_user m)) (t_members d)) \<and>
     distinct (map u_id (t_users d)) \<and>
     distinct (map i_ID (t_invitations d)) \<and> distinct (map i_TokenHash (t_invitations d))"

definition refs_ok :: "orgdb \<Rightarrow> bool" where
  "refs_ok d \<longleftrightarrow> (\<forall>m \<in> set (t_members d). mr_org m \<in> o_ID ` set (t_orgs d) \<and> known_user d (mr_user m)) \<and>
     (\<forall>i \<in> set (t_invitations d). i_OrgID i \<in> o_ID ` set (t_orgs d))"

definition open_ok :: "orgdb \<Rightarrow> bool" where
  "open_ok d \<longleftrightarrow> distinct (map (\<lambda>i. (i_OrgID i, i_NormalizedEmail i)) (filter open_inv (t_invitations d)))"

definition orgs_rows_ok :: "orgdb \<Rightarrow> bool" where
  "orgs_rows_ok d \<longleftrightarrow> (\<forall>r \<in> set (t_orgs d). (o_DeletedAt r = None) = (o_PurgeAfter r = None)) \<and>
     distinct (map o_CreatedBy (filter o_Personal (t_orgs d)))"

definition tables_ok :: "orgdb \<Rightarrow> bool" where
  "tables_ok d \<longleftrightarrow> keys_ok d \<and> refs_ok d \<and> open_ok d \<and> orgs_rows_ok d"

lemmas tables_defs = tables_ok_def keys_ok_def refs_ok_def open_ok_def orgs_rows_ok_def

subsection \<open>Rows\<close>

lemma map_update_where: "(\<And>r. key (f r) = key r) \<Longrightarrow> map key (update_where p f rs) = map key rs"
  by (simp add: update_where_def)

lemma image_update_where: "(\<And>r. key (f r) = key r) \<Longrightarrow> key ` set (update_where p f rs) = key ` set rs"
  by (metis list.set_map map_update_where)

lemma filter_update_where:
  "(\<And>r. q (f r) = q r) \<Longrightarrow> filter q (update_where p f rs) = update_where p f (filter q rs)"
  by (induction rs) (auto simp: update_where_def)

text \<open>A row that stops matching \<open>q\<close> leaves the rows that match.\<close>

lemma filter_update_where_out:
  "(\<And>r. p r \<Longrightarrow> \<not> q (f r)) \<Longrightarrow> filter q (update_where p f rs) = filter (\<lambda>r. q r \<and> \<not> p r) rs"
  by (induction rs) (auto simp: update_where_def)

lemma distinct_map_filter_sub:
  "distinct (map key (filter q rs)) \<Longrightarrow> (\<And>r. q' r \<Longrightarrow> q r) \<Longrightarrow> distinct (map key (filter q' rs))"
  by (induction rs) (auto split: if_splits)

lemma known_user_simps [simp]:
  "known_user (d\<lparr>t_orgs := x\<rparr>) u = known_user d u" "known_user (d\<lparr>t_members := y\<rparr>) u = known_user d u"
  "known_user (d\<lparr>t_invitations := z\<rparr>) u = known_user d u"
  "known_user (d\<lparr>t_service_accounts := a\<rparr>) u = known_user d u"
  by (simp_all add: known_user_def)

lemma live_user_simps [simp]:
  "live_user (d\<lparr>t_orgs := x\<rparr>) u = live_user d u" "live_user (d\<lparr>t_members := y\<rparr>) u = live_user d u"
  "live_user (d\<lparr>t_invitations := z\<rparr>) u = live_user d u"
  "live_user (d\<lparr>t_service_accounts := a\<rparr>) u = live_user d u"
  by (simp_all add: live_user_def)

subsection \<open>Every statement keeps the constraints\<close>

lemma tables_ok_update_orgs:
  assumes "tables_ok d" "\<And>r. o_ID (f r) = o_ID r" "\<And>r. o_Personal (f r) = o_Personal r"
    "\<And>r. o_CreatedBy (f r) = o_CreatedBy r"
    "\<And>r. r \<in> set (t_orgs d) \<Longrightarrow> p r \<Longrightarrow> (o_DeletedAt (f r) = None) = (o_PurgeAfter (f r) = None)"
  shows "tables_ok (d\<lparr>t_orgs := update_where p f (t_orgs d)\<rparr>)"
proof -
  have "\<forall>r \<in> set (update_where p f (t_orgs d)). (o_DeletedAt r = None) = (o_PurgeAfter r = None)"
    using assms(1,5) by (auto simp: tables_defs set_update_where)
  with assms(1-4) show ?thesis
    by (simp add: tables_defs map_update_where image_update_where filter_update_where)
qed

lemma tables_ok_members:
  assumes "tables_ok d" "distinct (map (\<lambda>m. (mr_org m, mr_user m)) ms)"
    "\<And>m. m \<in> set ms \<Longrightarrow> \<exists>m' \<in> set (t_members d). mr_org m = mr_org m' \<and> mr_user m = mr_user m'"
  shows "tables_ok (d\<lparr>t_members := ms\<rparr>)"
proof -
  have "\<forall>m \<in> set ms. mr_org m \<in> o_ID ` set (t_orgs d) \<and> known_user d (mr_user m)"
    using assms(1,3) unfolding tables_ok_def refs_ok_def by metis
  with assms(1,2) show ?thesis by (simp add: tables_defs)
qed

lemma tables_ok_row:
  "tables_ok d \<Longrightarrow> r \<in> set (t_orgs d) \<Longrightarrow> (o_DeletedAt r = None) = (o_PurgeAfter r = None)"
  by (simp add: tables_defs)

lemma tables_ok_member_keys:
  "tables_ok d \<Longrightarrow> distinct (map (\<lambda>m. (mr_org m, mr_user m)) (t_members d))"
  by (simp add: tables_defs)

lemma tables_ok_close_invitations:
  assumes "tables_ok d" "\<And>i. i_ID (f i) = i_ID i" "\<And>i. i_TokenHash (f i) = i_TokenHash i"
    "\<And>i. i_OrgID (f i) = i_OrgID i" "\<And>i. \<not> open_inv (f i)"
  shows "tables_ok (d\<lparr>t_invitations := update_where p f (t_invitations d)\<rparr>)"
proof -
  have "distinct (map (\<lambda>i. (i_OrgID i, i_NormalizedEmail i)) (filter open_inv (update_where p f (t_invitations d))))"
    using assms(1,5) by (auto simp: tables_defs filter_update_where_out intro: distinct_map_filter_sub)
  with assms(1-4) show ?thesis
    by (auto simp: tables_defs map_update_where set_update_where)
qed

lemma InsertOrg_ok [pres_intros]: "pres tables_ok (InsertOrg o1)"
  unfolding InsertOrg_def by (rule pres_stmt) (auto simp: tables_defs Let_def)

lemma UpdateOrgName_ok [pres_intros]: "pres tables_ok (UpdateOrgName oid n v t)"
  unfolding UpdateOrgName_def
  by (rule pres_stmt) (simp add: Let_def tables_ok_update_orgs tables_ok_row split: option.splits)

lemma MarkOrgDeleted_ok [pres_intros]: "pres tables_ok (MarkOrgDeleted oid t u)"
  unfolding MarkOrgDeleted_def by (rule pres_stmt) (simp add: tables_ok_update_orgs)

lemma RestoreOrg_ok [pres_intros]: "pres tables_ok (RestoreOrg oid t)"
  unfolding RestoreOrg_def by (rule pres_stmt) (simp add: tables_ok_update_orgs)

lemma purge_tables_ok: "tables_ok d \<Longrightarrow> tables_ok (purge_tables oid d)"
  by (auto simp: tables_defs purge_tables_def distinct_map_filterI filter_filter
      intro: distinct_map_filter_sub)

lemma DeleteOrg_ok [pres_intros]: "pres tables_ok (DeleteOrg oid t)"
  unfolding DeleteOrg_def by (rule pres_stmt) (simp add: purge_tables_ok)

lemma InsertMember_ok [pres_intros]: "pres tables_ok (InsertMember m)"
  unfolding InsertMember_def by (rule pres_stmt) (auto simp: tables_defs)

lemma UpdateMemberRole_ok [pres_intros]: "pres tables_ok (UpdateMemberRole oid u r)"
  unfolding UpdateMemberRole_def
  by (rule pres_stmt,
      auto simp: Let_def map_update_where set_update_where tables_ok_member_keys intro!: tables_ok_members, blast+)

lemma DeleteMember_ok [pres_intros]: "pres tables_ok (DeleteMember oid u)"
  unfolding DeleteMember_def
  by (rule pres_stmt)
    (auto simp: Let_def distinct_map_filterI tables_ok_member_keys intro!: tables_ok_members)

lemma InsertInvitation_ok [pres_intros]: "pres tables_ok (InsertInvitation iv)"
  unfolding InsertInvitation_def
  by (rule pres_stmt) (auto simp: tables_defs Let_def open_inv_def)

lemma RevokeInvitation_sql_ok [pres_intros]: "pres tables_ok (RevokeInvitation_sql iid t)"
  unfolding RevokeInvitation_sql_def
  by (rule pres_stmt) (simp add: tables_ok_close_invitations open_inv_def)

lemma RevokeExpiredInvitation_ok [pres_intros]: "pres tables_ok (RevokeExpiredInvitation oid e t)"
  unfolding RevokeExpiredInvitation_def
  by (rule pres_stmt) (simp add: tables_ok_close_invitations open_inv_def)

lemma AcceptInvitation_sql_ok [pres_intros]: "pres tables_ok (AcceptInvitation_sql iid t)"
  unfolding AcceptInvitation_sql_def
  by (rule pres_stmt) (simp add: tables_ok_close_invitations open_inv_def)

text \<open>
  Replacing a token keeps the token hashes distinct because the statement checks the other rows.
\<close>

lemma distinct_map_replace:
  "distinct (map key rs) \<Longrightarrow> distinct (map val rs) \<Longrightarrow> (\<And>r. r \<in> set rs \<Longrightarrow> key r \<noteq> k \<Longrightarrow> val r \<noteq> v) \<Longrightarrow>
   (\<And>r. val (f r) = v) \<Longrightarrow> distinct (map val (update_where (\<lambda>r. key r = k) f rs))"
  by (induction rs) (auto simp: update_where_def image_iff)

lemma ReplaceInvitationToken_ok [pres_intros]: "pres tables_ok (ReplaceInvitationToken iid h b t e)"
  unfolding ReplaceInvitationToken_def
proof (rule pres_stmt)
  fix d assume ok: "tables_ok d"
  let ?f = "\<lambda>i. i\<lparr>i_TokenHash := h, i_InvitedBy := b, i_SentAt := t, i_ExpiresAt := e\<rparr>"
  let ?is = "update_where (\<lambda>i. i_ID i = iid) ?f (t_invitations d)"
  show "tables_ok (snd (if (\<exists>i\<in>set (t_invitations d). i_ID i = iid) \<and>
      (\<exists>i\<in>set (t_invitations d). i_ID i \<noteq> iid \<and> i_TokenHash i = h) then (Inl Driver, d)
      else (Inr (), d\<lparr>t_invitations := ?is\<rparr>)))"
  proof (cases "(\<exists>i\<in>set (t_invitations d). i_ID i = iid) \<and>
      (\<exists>i\<in>set (t_invitations d). i_ID i \<noteq> iid \<and> i_TokenHash i = h)")
    case False
    have "distinct (map i_TokenHash ?is)"
    proof (cases "\<exists>i\<in>set (t_invitations d). i_ID i = iid")
      case True
      with False ok show ?thesis
        by (intro distinct_map_replace) (auto simp: tables_defs)
    next
      case False
      then have "?is = t_invitations d" by (intro update_where_none) auto
      with ok show ?thesis by (simp add: tables_defs)
    qed
    moreover have "filter open_inv ?is = update_where (\<lambda>i. i_ID i = iid) ?f (filter open_inv (t_invitations d))"
      by (rule filter_update_where) (simp add: open_inv_def)
    ultimately have "tables_ok (d\<lparr>t_invitations := ?is\<rparr>)"
      using ok by (auto simp: tables_defs map_update_where set_update_where)
    with False show ?thesis by (simp only: if_False snd_conv)
  qed (use ok in simp)
qed

lemmas store_defs = SelectOrg_def SelectDeletedOrg_def SelectPersonalOrg_def SelectMemberships_def
  LockUserOrgs_def CountOwnedOrgs_def SelectOrgsToPurge_def SelectMember_def SelectMembers_def
  IsMemberEmail_def CountOwners_def SelectUserOrgs_def SelectEarliestMember_def MemberRole_def
  ServiceAccountRole_def SelectUserEmail_def SelectInvitation_def SelectInvitationByTokenHash_def
  SelectOpenInvitations_def CountInvitationsSince_def

lemmas write_defs = InsertOrg_def UpdateOrgName_def MarkOrgDeleted_def RestoreOrg_def DeleteOrg_def
  InsertMember_def UpdateMemberRole_def DeleteMember_def InsertInvitation_def
  ReplaceInvitationToken_def RevokeInvitation_sql_def RevokeExpiredInvitation_def AcceptInvitation_sql_def

lemma reads_store [reads_intros]:
  "reads (SelectOrg oid l)" "reads (SelectDeletedOrg oid)" "reads (SelectPersonalOrg u)"
  "reads (SelectMemberships f u)" "reads (LockUserOrgs u)" "reads (CountOwnedOrgs u)"
  "reads (SelectOrgsToPurge t n)" "reads (SelectMember oid u)" "reads (SelectMembers oid)"
  "reads (IsMemberEmail oid e)" "reads (CountOwners oid u)" "reads (SelectUserOrgs u)"
  "reads (SelectEarliestMember oid r u)" "reads (MemberRole oid u)" "reads (ServiceAccountRole oid u)"
  "reads (SelectUserEmail u)" "reads (SelectInvitation oid iid)" "reads (SelectInvitationByTokenHash h l)"
  "reads (SelectOpenInvitations oid)" "reads (CountInvitationsSince oid t)"
  by (simp_all add: store_defs reads_query)

lemma quiet_writes [quiet_intros]:
  "quiet (InsertOrg o1)" "quiet (UpdateOrgName oid n v t)" "quiet (MarkOrgDeleted oid t p)"
  "quiet (RestoreOrg oid t)" "quiet (DeleteOrg oid t)" "quiet (InsertMember m)"
  "quiet (UpdateMemberRole oid u r)" "quiet (DeleteMember oid u)" "quiet (InsertInvitation iv)"
  "quiet (ReplaceInvitationToken iid h b t e)" "quiet (RevokeInvitation_sql iid t)"
  "quiet (RevokeExpiredInvitation oid x t)" "quiet (AcceptInvitation_sql iid t)"
  by (simp_all add: write_defs quiet_stmt)

lemmas quiet_store [quiet_intros] = reads_store [THEN quiet_reads]
lemmas pres_store [pres_intros] = reads_store [THEN pres_reads]
lemmas keeps_store [keeps_intros] = reads_store [THEN keeps_reads]

lemma reads_service [reads_intros]:
  "reads (RequireMember c MemberRole cat oid p)" "reads (lockOrg s c oid p)" "reads (requireVerified u)"
  "reads (checkOwnedOrgs s u)" "reads (keepAnOwner oid u r)" "reads (lockForInvitations s c oid r t)"
  "reads (openInvitation s oid iid r)" "reads (checkInviter s iv)" "reads (isAlone oid u)"
  "reads (nextOwner oid u)" "reads (selectAnyOrg oid)"
  unfolding lockForInvitations_def lockOrg_def requireVerified_def checkOwnedOrgs_def keepAnOwner_def
    openInvitation_def checkInviter_def isAlone_def nextOwner_def
    selectAnyOrg_def Let_def
  by (intro reads_intros members.RequireMember_reads)+

lemmas quiet_service [quiet_intros] = reads_service [THEN quiet_reads]
lemmas pres_service [pres_intros] = reads_service [THEN pres_reads]
lemmas keeps_service [keeps_intros] = reads_service [THEN keeps_reads]

lemma takeInvitation_quiet [quiet_intros]: "quiet (takeInvitation s u)"
  by (simp add: quiet_def takeInvitation_def Let_def split: prod.splits)

lemma takeInvitation_pres [pres_intros]: "pres I (takeInvitation s u)"
  by (simp add: pres_def takeInvitation_def Let_def split: prod.splits)

lemma audit_ev_keeps [keeps_intros]: "keeps I (audit_ev c a oid rt rid md)"
  by (simp add: audit_ev_def keeps_extC)

lemma sendInvitation_keeps [keeps_intros]: "keeps I (sendInvitation s inviter o1 iv tok ttl)"
  by (simp add: sendInvitation_def keeps_extC)

section \<open>Every live organisation has an owner\<close>

definition has_owner :: "orgdb \<Rightarrow> string \<Rightarrow> bool" where
  "has_owner d oid \<longleftrightarrow> (\<exists>m \<in> set (t_members d). mr_org m = oid \<and> mr_role m = RoleOwner)"

definition has_live_owner :: "orgdb \<Rightarrow> string \<Rightarrow> bool" where
  "has_live_owner d oid \<longleftrightarrow>
     (\<exists>m \<in> set (t_members d). mr_org m = oid \<and> mr_role m = RoleOwner \<and> live_user d (mr_user m))"

definition owned :: "orgdb \<Rightarrow> bool" where
  "owned d \<longleftrightarrow> (\<forall>oid. live_org d oid \<longrightarrow> has_owner d oid)"

definition orgs_inv :: "orgdb \<Rightarrow> bool" where
  "orgs_inv d \<longleftrightarrow> tables_ok d \<and> owned d"

lemma pres_orgs_inv: "pres tables_ok m \<Longrightarrow> pres owned m \<Longrightarrow> pres orgs_inv m"
  by (simp add: pres_def orgs_inv_def)

text \<open>A change keeps \<open>owned\<close> when it makes no organisation live and every owned live one keeps an owner.\<close>

lemma owned_mono:
  "owned d \<Longrightarrow> (\<And>oid. live_org d' oid \<Longrightarrow> live_org d oid) \<Longrightarrow>
   (\<And>oid. live_org d' oid \<Longrightarrow> has_owner d oid \<Longrightarrow> has_owner d' oid) \<Longrightarrow> owned d'"
  by (auto simp: owned_def)

lemma live_org_simps [simp]:
  "live_org (d\<lparr>t_members := y\<rparr>) oid = live_org d oid" "live_org (d\<lparr>t_invitations := z\<rparr>) oid = live_org d oid"
  by (simp_all add: live_org_def)

lemma has_owner_simps [simp]:
  "has_owner (d\<lparr>t_orgs := y\<rparr>) oid = has_owner d oid" "has_owner (d\<lparr>t_invitations := z\<rparr>) oid = has_owner d oid"
  by (simp_all add: has_owner_def)

lemma owned_update_orgs:
  assumes "owned d" "\<And>r. o_ID (f r) = o_ID r" "\<And>r. p r \<Longrightarrow> o_DeletedAt (f r) = None \<Longrightarrow> o_DeletedAt r = None"
  shows "owned (d\<lparr>t_orgs := update_where p f (t_orgs d)\<rparr>)"
proof -
  have "live_org (d\<lparr>t_orgs := update_where p f (t_orgs d)\<rparr>) oid \<Longrightarrow> live_org d oid" for oid
    using assms(2,3) by (fastforce simp: live_org_def set_update_where split: if_splits)
  with assms(1) show ?thesis by (auto elim: owned_mono)
qed

lemma UpdateOrgName_owned [pres_intros]: "pres owned (UpdateOrgName oid n v t)"
  unfolding UpdateOrgName_def
  by (rule pres_stmt) (auto simp: Let_def split: option.splits intro!: owned_update_orgs)

lemma MarkOrgDeleted_owned [pres_intros]: "pres owned (MarkOrgDeleted oid t p)"
  unfolding MarkOrgDeleted_def by (rule pres_stmt) (auto intro!: owned_update_orgs)

lemma purge_tables_owned: "owned d \<Longrightarrow> owned (purge_tables oid d)"
  by (erule owned_mono) (auto simp: live_org_def has_owner_def purge_tables_def)

lemma DeleteOrg_owned [pres_intros]: "pres owned (DeleteOrg oid t)"
  unfolding DeleteOrg_def by (rule pres_stmt) (simp add: purge_tables_owned)

lemma InsertMember_owned [pres_intros]: "pres owned (InsertMember m)"
  unfolding InsertMember_def by (rule pres_stmt) (auto simp: has_owner_def elim!: owned_mono)

lemma invitations_owned [pres_intros]:
  "pres owned (InsertInvitation iv)" "pres owned (ReplaceInvitationToken iid h b t e)"
  "pres owned (RevokeInvitation_sql iid t)" "pres owned (RevokeExpiredInvitation oid x t)"
  "pres owned (AcceptInvitation_sql iid t)"
  unfolding write_defs by (rule pres_stmt; simp add: Let_def owned_def)+

section \<open>The transactions keep the invariant\<close>

lemmas tx_defs = insert_with_owner_def rename_tx_def delete_tx_def restore_tx_def change_role_tx_def
  leave_tx_def remove_member_tx_def invite_tx_def resend_tx_def revoke_tx_def accept_tx_def
  remove_tx_def remove_live_def handOver_def

lemma quiet_txs [quiet_intros]:
  "quiet (insert_with_owner o1 u t b)" "quiet (rename_tx s c t oid n v)" "quiet (delete_tx s c t p oid)"
  "quiet (restore_tx s c t u oid)" "quiet (change_role_tx s c oid u r)" "quiet (leave_tx s c oid)"
  "quiet (remove_member_tx s c oid u)" "quiet (invite_tx s c oid u e n r iid h t)"
  "quiet (resend_tx s c oid iid h t)" "quiet (revoke_tx s c t oid iid)"
  "quiet (accept_tx s u n vf h iv t)" "quiet (remove_tx s u oid t)"
  unfolding tx_defs Let_def by (intro quiet_intros)+

lemma tables_ok_txs [pres_intros]:
  "pres tables_ok (insert_with_owner o1 u t b)" "pres tables_ok (rename_tx s c t oid n v)"
  "pres tables_ok (delete_tx s c t p oid)" "pres tables_ok (restore_tx s c t u oid)"
  "pres tables_ok (change_role_tx s c oid u r)" "pres tables_ok (leave_tx s c oid)"
  "pres tables_ok (remove_member_tx s c oid u)" "pres tables_ok (invite_tx s c oid u e n r iid h t)"
  "pres tables_ok (resend_tx s c oid iid h t)" "pres tables_ok (revoke_tx s c t oid iid)"
  "pres tables_ok (accept_tx s u n vf h iv t)" "pres tables_ok (remove_tx s u oid t)"
  unfolding tx_defs Let_def by (intro pres_intros)+

lemma owned_txs [pres_intros]:
  "pres owned (rename_tx s c t oid n v)" "pres owned (delete_tx s c t p oid)"
  "pres owned (invite_tx s c oid u e n r iid h t)" "pres owned (resend_tx s c oid iid h t)"
  "pres owned (revoke_tx s c t oid iid)" "pres owned (accept_tx s u n vf h iv t)"
  unfolding tx_defs Let_def by (intro pres_intros)+

subsection \<open>Adding an organisation\<close>

lemma InsertOrg_run:
  assumes "InsertOrg o1 w = (Inr o2, w')"
  shows "o2 = o1\<lparr>o_DeletedAt := None, o_PurgeAfter := None\<rparr>"
    "db w' = (db w)\<lparr>t_orgs := t_orgs (db w) @ [o2]\<rparr>" "o_ID o1 \<notin> o_ID ` set (t_orgs (db w))"
  using assms unfolding InsertOrg_def stmt_run Let_def by (auto split: if_splits)

lemma InsertMember_run:
  assumes "InsertMember m w = (Inr u, w')"
  shows "db w' = (db w)\<lparr>t_members := t_members (db w) @
      [\<lparr>mr_org = m_OrgID m, mr_user = m_UserID m, mr_role = m_Role m,
        mr_joined = m_JoinedAt m, mr_by = m_AddedBy m\<rparr>]\<rparr>"
    "\<forall>r \<in> set (t_members (db w)). \<not> (mr_org r = m_OrgID m \<and> mr_user r = m_UserID m)"
    "known_user (db w) (m_UserID m)"
  using assms unfolding InsertMember_def stmt_run by (auto split: if_splits)

lemma UpdateMemberRole_run:
  assumes "UpdateMemberRole orgID u role w = (Inr x, w')"
  shows "db w' = (db w)\<lparr>t_members := update_where (\<lambda>m. mr_org m = orgID \<and> mr_user m = u)
     (\<lambda>m. m\<lparr>mr_role := role\<rparr>) (t_members (db w))\<rparr>"
  using assms unfolding UpdateMemberRole_def stmt_run Let_def by (auto split: if_splits)

lemma DeleteMember_run:
  assumes "DeleteMember orgID u w = (Inr x, w')"
  shows "db w' = (db w)\<lparr>t_members := filter (\<lambda>m. \<not> (mr_org m = orgID \<and> mr_user m = u)) (t_members (db w))\<rparr>"
  using assms unfolding DeleteMember_def stmt_run Let_def by (auto split: if_splits)

lemma SelectMember_run:
  assumes "SelectMember orgID u w = (Inr m, w')"
  shows "db w' = db w" and "\<exists>row \<in> set (t_members (db w)). mr_org row = orgID \<and> mr_user row = u \<and> mr_role row = m_Role m"
  using assms unfolding SelectMember_def query_run found_def
  by (auto split: option.splits dest!: find_SomeD simp: to_Member_def)

lemma insert_with_owner_run:
  assumes "insert_with_owner o1 u t b w = (Inr o2, w')"
  shows "o2 = o1\<lparr>o_DeletedAt := None, o_PurgeAfter := None\<rparr>"
    "db w' = (db w)\<lparr>t_orgs := t_orgs (db w) @ [o2], t_members := t_members (db w) @
      [\<lparr>mr_org = o_ID o1, mr_user = u, mr_role = RoleOwner, mr_joined = t, mr_by = b\<rparr>]\<rparr>"
    "o_ID o1 \<notin> o_ID ` set (t_orgs (db w))" "known_user (db w) u"
proof -
  from assms obtain w1 where 1: "InsertOrg o1 w = (Inr o2, w1)"
    and 2: "InsertMember \<lparr>m_OrgID = o_ID o2, m_UserID = u, m_Email = [], m_Role = RoleOwner,
      m_JoinedAt = t, m_AddedBy = b\<rparr> w1 = (Inr (), w')"
    unfolding insert_with_owner_def bindC_run retC_run by auto
  note 1 = InsertOrg_run [OF 1] and 2 = InsertMember_run [OF 2]
  show "o2 = o1\<lparr>o_DeletedAt := None, o_PurgeAfter := None\<rparr>" by (rule 1(1))
  show "db w' = (db w)\<lparr>t_orgs := t_orgs (db w) @ [o2], t_members := t_members (db w) @
      [\<lparr>mr_org = o_ID o1, mr_user = u, mr_role = RoleOwner, mr_joined = t, mr_by = b\<rparr>]\<rparr>"
    using 1(1,2) 2(1) by simp
  show "o_ID o1 \<notin> o_ID ` set (t_orgs (db w))" by (rule 1(3))
  show "known_user (db w) u" using 2(3) 1(2) by simp
qed

lemma insert_with_owner_owned:
  assumes "insert_with_owner o1 u t b w = (Inr o2, w')" "owned (db w)"
  shows "owned (db w')"
  using assms(2) insert_with_owner_run(1,2) [OF assms(1)]
  by (auto simp: owned_def live_org_def has_owner_def)

subsection \<open>Removing or demoting a member\<close>

text \<open>An owner of the organisation \<open>oid\<close> other than the member \<open>(orgID, u)\<close>.\<close>

definition owner_besides :: "orgdb \<Rightarrow> string \<Rightarrow> string \<Rightarrow> string \<Rightarrow> bool" where
  "owner_besides d orgID u oid \<longleftrightarrow>
     (\<exists>m \<in> set (t_members d). mr_org m = oid \<and> mr_role m = RoleOwner \<and> \<not> (mr_org m = orgID \<and> mr_user m = u))"

lemma has_owner_without_member:
  assumes "owner_besides d orgID u oid"
  shows "has_owner (d\<lparr>t_members := filter (\<lambda>m. \<not> (mr_org m = orgID \<and> mr_user m = u)) (t_members d)\<rparr>) oid"
    and "has_owner (d\<lparr>t_members := update_where (\<lambda>m. mr_org m = orgID \<and> mr_user m = u) f (t_members d)\<rparr>) oid"
proof -
  from assms obtain m where m: "m \<in> set (t_members d)" "mr_org m = oid" "mr_role m = RoleOwner"
    "\<not> (mr_org m = orgID \<and> mr_user m = u)"
    by (auto simp: owner_besides_def)
  then show "has_owner (d\<lparr>t_members := filter (\<lambda>m. \<not> (mr_org m = orgID \<and> mr_user m = u)) (t_members d)\<rparr>) oid"
    unfolding has_owner_def by (intro bexI [of _ m]) auto
  have "m \<in> set (update_where (\<lambda>m. mr_org m = orgID \<and> mr_user m = u) f (t_members d))"
    using m(1,4) unfolding set_update_where by (intro image_eqI [of _ _ m]) auto
  then show "has_owner (d\<lparr>t_members := update_where (\<lambda>m. mr_org m = orgID \<and> mr_user m = u) f (t_members d)\<rparr>) oid"
    unfolding has_owner_def using m(2,3) by auto
qed

lemma owned_without_member:
  assumes "owned d" "\<And>oid. live_org d oid \<Longrightarrow> has_owner d oid \<Longrightarrow> owner_besides d orgID u oid"
  shows "owned (d\<lparr>t_members := filter (\<lambda>m. \<not> (mr_org m = orgID \<and> mr_user m = u)) (t_members d)\<rparr>)"
    and "owned (d\<lparr>t_members := update_where (\<lambda>m. mr_org m = orgID \<and> mr_user m = u) f (t_members d)\<rparr>)"
  using assms has_owner_without_member unfolding owned_def live_org_simps by blast+

lemma keepAnOwner_run:
  assumes "keepAnOwner orgID u role w = (Inr x, w')"
  shows "db w' = db w"
    "role = RoleOwner \<Longrightarrow> \<exists>m \<in> set (t_members (db w)). mr_org m = orgID \<and> mr_role m = RoleOwner \<and>
       mr_user m \<noteq> u \<and> live_user (db w) (mr_user m)"
  using assms unfolding keepAnOwner_def if_run bindC_run CountOwners_def query_run retC_run failC_run
  by (auto simp: count_where_pos)

text \<open>
  A member may go, or change role, when the member's role is not owner or another owner is
  left: by the primary key it is the only row of that member.
\<close>

lemma owner_besides_member:
  assumes "tables_ok d" "row \<in> set (t_members d)" "mr_org row = orgID" "mr_user row = u"
    "mr_role row = RoleOwner \<Longrightarrow> \<exists>m \<in> set (t_members d). mr_org m = orgID \<and> mr_role m = RoleOwner \<and> mr_user m \<noteq> u"
    "has_owner d oid"
  shows "owner_besides d orgID u oid"
proof -
  from assms(6) obtain m where m: "m \<in> set (t_members d)" "mr_org m = oid" "mr_role m = RoleOwner"
    by (auto simp: has_owner_def)
  show ?thesis
  proof (cases "mr_org m = orgID \<and> mr_user m = u")
    case True
    have "m = row"
      using distinct_map_unique [OF tables_ok_member_keys [OF assms(1)] m(1) assms(2)] True assms(3,4) by simp
    with assms(5) m True show ?thesis by (auto simp: owner_besides_def)
  next
    case False
    with m show ?thesis by (auto simp: owner_besides_def)
  qed
qed

lemma lockOrg_run:
  assumes "lockOrg s c orgID perm w = (Inr (o1, me), w')"
  shows "db w' = db w" "o1 \<in> set (t_orgs (db w))" "o_ID o1 = orgID" "o_DeletedAt o1 = None"
    "\<exists>a. memberActor c = Some a \<and> om_OrgID me = orgID \<and> om_UserID me = a_ID a \<and>
      member_holds (db w) orgID (a_ID a) (om_Role me) \<and>
      perm \<in> set (allowed_perms c (s_catalog s) (om_Role me))"
proof -
  from assms obtain w1 c' where 1: "SelectOrg orgID True w = (Inr o1, w1)"
    and 2: "RequireMember c MemberRole (s_catalog s) orgID perm w1 = (Inr (c', me), w')"
    unfolding lockOrg_def bindC_run case_prod_run retC_run by auto
  have db: "db w1 = db w" using readsD [OF reads_store(1) 1] by simp
  then show "db w' = db w" using readsD [OF reads_service(1) 2] by simp
  show "o1 \<in> set (t_orgs (db w))" "o_ID o1 = orgID" "o_DeletedAt o1 = None"
    using 1 unfolding SelectOrg_def query_run found_def
    by (auto split: option.splits dest!: find_SomeD)
  show "\<exists>a. memberActor c = Some a \<and> om_OrgID me = orgID \<and> om_UserID me = a_ID a \<and>
      member_holds (db w) orgID (a_ID a) (om_Role me) \<and>
      perm \<in> set (allowed_perms c (s_catalog s) (om_Role me))"
    using members.RequireMember_Inr [OF 2] db by auto
qed

lemma change_role_tx_run:
  assumes "change_role_tx s c orgID u role w = (Inr (m, from), w')"
  obtains me :: OrgMember and row where "member_holds (db w) orgID (om_UserID me) (om_Role me)"
    "memberActor c \<noteq> None" "om_UserID me = a_ID (the (memberActor c))"
    "PermMembersManage \<in> set (allowed_perms c (s_catalog s) (om_Role me))"
    "row \<in> set (t_members (db w))" "mr_org row = orgID" "mr_user row = u" "mr_role row = from"
    "from = role \<and> db w' = db w \<or>
     from \<noteq> role \<and> canAssign s (om_Role me) from \<and> canAssign s (om_Role me) role \<and>
     (from = RoleOwner \<longrightarrow> (\<exists>m \<in> set (t_members (db w)). mr_org m = orgID \<and> mr_role m = RoleOwner \<and>
        mr_user m \<noteq> u \<and> live_user (db w) (mr_user m))) \<and>
     db w' = (db w)\<lparr>t_members := update_where (\<lambda>m. mr_org m = orgID \<and> mr_user m = u)
       (\<lambda>m. m\<lparr>mr_role := role\<rparr>) (t_members (db w))\<rparr>"
proof -
  from assms obtain o1 me w1 target w2 where
    1: "lockOrg s c orgID PermMembersManage w = (Inr (o1, me), w1)"
    and 2: "SelectMember orgID u w1 = (Inr target, w2)"
    and fr: "from = m_Role target"
    and rest: "from = role \<and> w' = w2 \<or> from \<noteq> role \<and> canAssign s (om_Role me) from \<and>
      canAssign s (om_Role me) role \<and> (\<exists>w3. keepAnOwner orgID u from w2 = (Inr (), w3) \<and>
        UpdateMemberRole orgID u role w3 = (Inr (), w'))"
    unfolding change_role_tx_def bindC_run case_prod_run Let_def if_run retC_run failC_run by auto
  have db2: "db w2 = db w" using lockOrg_run(1) [OF 1] SelectMember_run(1) [OF 2] by simp
  obtain row where row: "row \<in> set (t_members (db w))" "mr_org row = orgID" "mr_user row = u" "mr_role row = from"
    using SelectMember_run(2) [OF 2] lockOrg_run(1) [OF 1] fr by auto
  from lockOrg_run(5) [OF 1] obtain a where a: "memberActor c = Some a" "om_UserID me = a_ID a"
    "member_holds (db w) orgID (a_ID a) (om_Role me)"
    "PermMembersManage \<in> set (allowed_perms c (s_catalog s) (om_Role me))" by auto
  from rest consider "from = role" "db w' = db w"
    | w3 where "from \<noteq> role" "canAssign s (om_Role me) from" "canAssign s (om_Role me) role"
      "keepAnOwner orgID u from w2 = (Inr (), w3)" "UpdateMemberRole orgID u role w3 = (Inr (), w')"
    using db2 by auto
  then show thesis
  proof cases
    case 1
    then show thesis using that [of me row] row a by auto
  next
    case 2
    show thesis
      using that [of me row] row a 2(1-3) keepAnOwner_run [OF 2(4)] UpdateMemberRole_run [OF 2(5)] db2
      by auto
  qed
qed

lemma change_role_tx_owned:
  assumes "change_role_tx s c orgID u role w = (Inr r, w')" "orgs_inv (db w)"
  shows "owned (db w')"
proof -
  obtain m old where r: "r = (m, old)" by fastforce
  have inv: "tables_ok (db w)" "owned (db w)" using assms(2) by (simp_all add: orgs_inv_def)
  from assms(1) [unfolded r] show ?thesis
  proof (cases rule: change_role_tx_run)
    case (1 me row)
    from 1(9) show ?thesis
    proof (elim disjE conjE)
      assume "db w' = db w" with inv show ?thesis by simp
    next
      assume other: "old = RoleOwner \<longrightarrow> (\<exists>m \<in> set (t_members (db w)). mr_org m = orgID \<and>
          mr_role m = RoleOwner \<and> mr_user m \<noteq> u \<and> live_user (db w) (mr_user m))"
        and db: "db w' = (db w)\<lparr>t_members := update_where (\<lambda>m. mr_org m = orgID \<and> mr_user m = u)
          (\<lambda>m. m\<lparr>mr_role := role\<rparr>) (t_members (db w))\<rparr>"
      have "\<exists>m \<in> set (t_members (db w)). mr_org m = orgID \<and> mr_role m = RoleOwner \<and> mr_user m \<noteq> u"
        if "mr_role row = RoleOwner" using other that 1(8) by blast
      then have "owner_besides (db w) orgID u oid" if "has_owner (db w) oid" for oid
        using owner_besides_member [OF inv(1) 1(5-7) _ that] by blast
      then show ?thesis unfolding db using inv(2) by (rule owned_without_member(2) [rotated])
    qed
  qed
qed

lemma leave_tx_run:
  assumes "leave_tx s c orgID w = (Inr me, w')"
  shows "member_holds (db w) orgID (om_UserID me) (om_Role me)"
    "memberActor c \<noteq> None" "om_UserID me = a_ID (the (memberActor c))"
    "\<exists>o1 \<in> set (t_orgs (db w)). o_ID o1 = orgID \<and> \<not> o_Personal o1 \<and> o_DeletedAt o1 = None"
    "om_Role me = RoleOwner \<Longrightarrow> \<exists>m \<in> set (t_members (db w)). mr_org m = orgID \<and> mr_role m = RoleOwner \<and>
       mr_user m \<noteq> om_UserID me \<and> live_user (db w) (mr_user m)"
    "db w' = (db w)\<lparr>t_members := filter (\<lambda>m. \<not> (mr_org m = orgID \<and> mr_user m = om_UserID me)) (t_members (db w))\<rparr>"
proof -
  from assms obtain o1 w1 w2 where
    1: "lockOrg s c orgID PermOrgRead w = (Inr (o1, me), w1)" and p: "\<not> o_Personal o1"
    and 2: "keepAnOwner orgID (om_UserID me) (om_Role me) w1 = (Inr (), w2)"
    and 3: "DeleteMember orgID (om_UserID me) w2 = (Inr (), w')"
    unfolding leave_tx_def bindC_run case_prod_run if_run retC_run failC_run by auto
  note l = lockOrg_run [OF 1] and k = keepAnOwner_run [OF 2] and d = DeleteMember_run [OF 3]
  show "member_holds (db w) orgID (om_UserID me) (om_Role me)" "memberActor c \<noteq> None"
    "om_UserID me = a_ID (the (memberActor c))" using l(5) by auto
  show "\<exists>o1 \<in> set (t_orgs (db w)). o_ID o1 = orgID \<and> \<not> o_Personal o1 \<and> o_DeletedAt o1 = None"
    using l(2-4) p by auto
  show "om_Role me = RoleOwner \<Longrightarrow> \<exists>m \<in> set (t_members (db w)). mr_org m = orgID \<and> mr_role m = RoleOwner \<and>
       mr_user m \<noteq> om_UserID me \<and> live_user (db w) (mr_user m)" using k(2) l(1) by simp
  show "db w' = (db w)\<lparr>t_members := filter (\<lambda>m. \<not> (mr_org m = orgID \<and> mr_user m = om_UserID me)) (t_members (db w))\<rparr>"
    using d k(1) l(1) by simp
qed

lemma leave_tx_owned:
  assumes "leave_tx s c orgID w = (Inr me, w')" "orgs_inv (db w)"
  shows "owned (db w')"
proof -
  note r = leave_tx_run [OF assms(1)]
  from r(1) obtain row where "row \<in> set (t_members (db w))" "mr_org row = orgID"
    "mr_user row = om_UserID me" "mr_role row = om_Role me" by (auto simp: member_holds_def)
  then have "owner_besides (db w) orgID (om_UserID me) oid" if "has_owner (db w) oid" for oid
    using owner_besides_member [of "db w" row orgID "om_UserID me" oid] r(5) that assms(2)
    by (auto simp: orgs_inv_def)
  with assms(2) show ?thesis unfolding r(6) orgs_inv_def by (blast intro: owned_without_member(1))
qed

lemma remove_member_tx_run:
  assumes "remove_member_tx s c orgID u w = (Inr role, w')"
  obtains me :: OrgMember and row where "member_holds (db w) orgID (om_UserID me) (om_Role me)"
    "memberActor c \<noteq> None" "om_UserID me = a_ID (the (memberActor c))"
    "row \<in> set (t_members (db w))" "mr_org row = orgID" "mr_user row = u" "mr_role row = role"
    "canAssign s (om_Role me) role"
    "role = RoleOwner \<longrightarrow> (\<exists>m \<in> set (t_members (db w)). mr_org m = orgID \<and> mr_role m = RoleOwner \<and>
       mr_user m \<noteq> u \<and> live_user (db w) (mr_user m))"
    "db w' = (db w)\<lparr>t_members := filter (\<lambda>m. \<not> (mr_org m = orgID \<and> mr_user m = u)) (t_members (db w))\<rparr>"
proof -
  from assms obtain o1 me w1 target w2 w3 where
    1: "lockOrg s c orgID PermMembersManage w = (Inr (o1, me), w1)"
    and 2: "SelectMember orgID u w1 = (Inr target, w2)"
    and role: "role = m_Role target" "canAssign s (om_Role me) role"
    and 3: "keepAnOwner orgID u role w2 = (Inr (), w3)"
    and 4: "DeleteMember orgID u w3 = (Inr (), w')"
    unfolding remove_member_tx_def bindC_run case_prod_run Let_def if_run retC_run failC_run by auto
  note l = lockOrg_run [OF 1] and m = SelectMember_run [OF 2] and k = keepAnOwner_run [OF 3]
    and d = DeleteMember_run [OF 4]
  from m(2) l(1) role obtain row where "row \<in> set (t_members (db w))" "mr_org row = orgID"
    "mr_user row = u" "mr_role row = role" by auto
  moreover from l(5) have "member_holds (db w) orgID (om_UserID me) (om_Role me)" "memberActor c \<noteq> None"
    "om_UserID me = a_ID (the (memberActor c))" by auto
  ultimately show thesis using that [of me row] role(2) k d m(1) l(1) by simp
qed

lemma remove_member_tx_owned:
  assumes "remove_member_tx s c orgID u w = (Inr role, w')" "orgs_inv (db w)"
  shows "owned (db w')"
  using assms(1)
proof (cases rule: remove_member_tx_run)
  case (1 me row)
  have "owner_besides (db w) orgID u oid" if "has_owner (db w) oid" for oid
    using owner_besides_member [of "db w" row orgID u oid] 1 that assms(2) by (auto simp: orgs_inv_def)
  with assms(2) show ?thesis unfolding 1(10) orgs_inv_def by (blast intro: owned_without_member(1))
qed

subsection \<open>Restoring\<close>

text \<open>In the catalog a service runs with, only the owner role may grant deleting.\<close>

definition delete_owner_only :: "Catalog \<Rightarrow> bool" where
  "delete_owner_only cat \<longleftrightarrow> (\<forall>r \<in> set (c_roles cat). PermOrgDelete \<in> set (role_Permissions r) \<longrightarrow> role_Name r = RoleOwner)"

lemma delete_owner_onlyD:
  "delete_owner_only cat \<Longrightarrow> PermOrgDelete \<in> set (Permissions cat [role]) \<Longrightarrow> role = RoleOwner"
  by (auto simp: delete_owner_only_def set_Permissions)

lemma checkOwnedOrgs_run:
  assumes "checkOwnedOrgs s u w = (Inr x, w')"
  shows "db w' = db w" "int (count_where (\<lambda>(m, o1). owns_live (db w) u m o1)
    (List.product (t_members (db w)) (t_orgs (db w)))) < s_maxOwned s"
  using assms unfolding checkOwnedOrgs_def LockUserOrgs_def CountOwnedOrgs_def bindC_run query_run if_run
    retC_run failC_run by auto

lemma restore_tx_run:
  assumes "restore_tx s c t u orgID w = (Inr (o2, role), w')"
  obtains o1 row where "o1 \<in> set (t_orgs (db w))" "o_ID o1 = orgID" "o_DeletedAt o1 \<noteq> None"
    "o2 = o1\<lparr>o_DeletedAt := None, o_PurgeAfter := None\<rparr>"
    "row \<in> set (t_members (db w))" "mr_org row = orgID" "mr_user row = u" "mr_role row = role"
    "PermOrgDelete \<in> set (allowed_perms c (s_catalog s) role)"
    "\<exists>a. memberActor c = Some a \<and> a_ID a = u"
    "role = RoleOwner \<longrightarrow> int (count_where (\<lambda>(m, o1). owns_live (db w) u m o1)
       (List.product (t_members (db w)) (t_orgs (db w)))) < s_maxOwned s"
    "db w' = (db w)\<lparr>t_orgs := update_where (\<lambda>r. o_ID r = orgID \<and> o_DeletedAt r \<noteq> None)
       (\<lambda>r. r\<lparr>o_DeletedAt := None, o_PurgeAfter := None, o_UpdatedAt := clock t, o_Version := o_Version r + 1\<rparr>)
       (t_orgs (db w))\<rparr>"
proof -
  from assms obtain o1 w1 m w2 w3 c' where
    1: "SelectDeletedOrg orgID w = (Inr o1, w1)" and 2: "SelectMember orgID u w1 = (Inr m, w2)"
    and role: "role = m_Role m" and o2: "o2 = o1\<lparr>o_DeletedAt := None, o_PurgeAfter := None\<rparr>"
    and a: "Authorize c (s_catalog s) \<lparr>om_OrgID = orgID, om_UserID = u, om_Role = role\<rparr> PermOrgDelete = (c', Inr ())"
    and 3: "role = RoleOwner \<and> checkOwnedOrgs s u w2 = (Inr (), w3) \<or> role \<noteq> RoleOwner \<and> w3 = w2"
    and 4: "RestoreOrg orgID (clock t) w3 = (Inr (), w')"
    unfolding restore_tx_def bindC_run case_sum_run tryC_run liftC_run if_run retC_run failC_run
    by (auto simp: prod_eq_iff)
  from 1 have o1: "o1 \<in> set (t_orgs (db w))" "o_ID o1 = orgID" "o_DeletedAt o1 \<noteq> None" "db w1 = db w"
    unfolding SelectDeletedOrg_def query_run found_def by (auto split: option.splits dest!: find_SomeD)
  have db2: "db w2 = db w" using SelectMember_run(1) [OF 2] o1(4) by simp
  then have db3: "db w3 = db w" using 3 by (metis checkOwnedOrgs_run(1))
  obtain row where row: "row \<in> set (t_members (db w))" "mr_org row = orgID" "mr_user row = u" "mr_role row = role"
    using SelectMember_run(2) [OF 2] o1(4) role by auto
  have own: "role = RoleOwner \<longrightarrow> int (count_where (\<lambda>(m, o1). owns_live (db w) u m o1)
       (List.product (t_members (db w)) (t_orgs (db w)))) < s_maxOwned s"
    using 3 db2 by (metis checkOwnedOrgs_run(2))
  have perm: "PermOrgDelete \<in> set (allowed_perms c (s_catalog s) role)" "\<exists>a. memberActor c = Some a \<and> a_ID a = u"
    using a by (auto elim!: Authorize_Inr)
  have "db w' = (db w)\<lparr>t_orgs := update_where (\<lambda>r. o_ID r = orgID \<and> o_DeletedAt r \<noteq> None)
       (\<lambda>r. r\<lparr>o_DeletedAt := None, o_PurgeAfter := None, o_UpdatedAt := clock t, o_Version := o_Version r + 1\<rparr>)
       (t_orgs (db w))\<rparr>"
    using 4 db3 unfolding RestoreOrg_def stmt_run by auto
  with that [of o1 row] o1 o2 row perm own show thesis by blast
qed

lemma restore_tx_owned:
  assumes "restore_tx s c t u orgID w = (Inr r, w')" "orgs_inv (db w)" "delete_owner_only (s_catalog s)"
  shows "owned (db w')"
proof -
  obtain o2 role where r: "r = (o2, role)" by fastforce
  from assms(1) [unfolded r] show ?thesis
  proof (cases rule: restore_tx_run)
    case (1 o1 row)
    have "role = RoleOwner"
      using delete_owner_onlyD [OF assms(3)] 1(9) allowed_perms_subset by blast
    with 1 have "has_owner (db w') orgID" by (auto simp: has_owner_def)
    moreover have "live_org (db w) oid" if "live_org (db w') oid" "oid \<noteq> orgID" for oid
      using that unfolding 1(12) by (auto simp: live_org_def set_update_where split: if_splits)
    moreover have "has_owner (db w) oid \<Longrightarrow> has_owner (db w') oid" for oid
      unfolding 1(12) by simp
    ultimately show ?thesis using assms(2) unfolding orgs_inv_def owned_def by metis
  qed
qed

section \<open>Removing an account\<close>

text \<open>Everything outside one organisation is as it was.\<close>

definition same_outside :: "string \<Rightarrow> orgdb \<Rightarrow> orgdb \<Rightarrow> bool" where
  "same_outside orgID d d' \<longleftrightarrow>
     filter (\<lambda>r. o_ID r \<noteq> orgID) (t_orgs d') = filter (\<lambda>r. o_ID r \<noteq> orgID) (t_orgs d) \<and>
     filter (\<lambda>m. mr_org m \<noteq> orgID) (t_members d') = filter (\<lambda>m. mr_org m \<noteq> orgID) (t_members d) \<and>
     t_invitations d' = t_invitations d \<and> t_users d' = t_users d \<and>
     t_service_accounts d' = t_service_accounts d"

lemma same_outside_refl [simp]: "same_outside orgID d d"
  by (simp add: same_outside_def)

lemma same_outside_trans:
  "same_outside orgID d d' \<Longrightarrow> same_outside orgID d' d'' \<Longrightarrow> same_outside orgID d d''"
  by (simp add: same_outside_def)

lemma filter_eq_mem:
  assumes "filter p xs = filter p ys" "p x" shows "x \<in> set xs \<longleftrightarrow> x \<in> set ys"
proof -
  have "x \<in> set (filter p xs) \<longleftrightarrow> x \<in> set (filter p ys)" by (simp only: assms(1))
  with assms(2) show ?thesis by simp
qed

lemma same_outside_live: "same_outside orgID d d' \<Longrightarrow> oid \<noteq> orgID \<Longrightarrow> live_org d' oid = live_org d oid"
  unfolding same_outside_def live_org_def using filter_eq_mem [of "\<lambda>r. o_ID r \<noteq> orgID"] by metis

lemma same_outside_owner: "same_outside orgID d d' \<Longrightarrow> oid \<noteq> orgID \<Longrightarrow> has_owner d' oid = has_owner d oid"
  unfolding same_outside_def has_owner_def using filter_eq_mem [of "\<lambda>m. mr_org m \<noteq> orgID"] by metis

lemma owned_outside:
  "same_outside orgID d d' \<Longrightarrow> owned d \<Longrightarrow> (live_org d' orgID \<Longrightarrow> has_owner d' orgID) \<Longrightarrow> owned d'"
  unfolding owned_def using same_outside_live same_outside_owner by metis

lemma same_outside_user: "same_outside orgID d d' \<Longrightarrow> live_user d' u = live_user d u"
  by (simp add: same_outside_def live_user_def)

lemma filter_update_other:
  "(\<And>r. p r \<Longrightarrow> \<not> q r \<and> \<not> q (f r)) \<Longrightarrow> filter q (update_where p f rs) = filter q rs"
  by (induction rs) (auto simp: update_where_def)

lemma UpdateMemberRole_outside:
  assumes "UpdateMemberRole orgID u role w = (Inr x, w')" shows "same_outside orgID (db w) (db w')"
  unfolding UpdateMemberRole_run [OF assms] by (auto simp: same_outside_def intro!: filter_update_other)

lemma DeleteMember_outside:
  assumes "DeleteMember orgID u w = (Inr x, w')" shows "same_outside orgID (db w) (db w')"
  unfolding DeleteMember_run [OF assms] by (auto simp: same_outside_def intro!: filter_cong)

lemma MarkOrgDeleted_run:
  assumes "MarkOrgDeleted orgID t p w = (Inr x, w')"
  shows "db w' = (db w)\<lparr>t_orgs := update_where (\<lambda>r. o_ID r = orgID \<and> o_DeletedAt r = None)
    (\<lambda>r. r\<lparr>o_DeletedAt := Some t, o_PurgeAfter := Some p, o_UpdatedAt := t, o_Version := o_Version r + 1\<rparr>)
    (t_orgs (db w))\<rparr>"
  using assms unfolding MarkOrgDeleted_def stmt_run by auto

lemma MarkOrgDeleted_outside:
  assumes "MarkOrgDeleted orgID t p w = (Inr x, w')"
  shows "same_outside orgID (db w) (db w')" "\<not> live_org (db w') orgID"
proof -
  show "same_outside orgID (db w) (db w')"
    unfolding MarkOrgDeleted_run [OF assms] by (auto simp: same_outside_def intro!: filter_update_other)
  show "\<not> live_org (db w') orgID"
  proof
    assume "live_org (db w') orgID"
    then obtain r where r: "r \<in> set (t_orgs (db w'))" "o_ID r = orgID" "o_DeletedAt r = None"
      by (auto simp only: live_org_def)
    from r(1) have "r \<in> set (update_where (\<lambda>r. o_ID r = orgID \<and> o_DeletedAt r = None)
        (\<lambda>r. r\<lparr>o_DeletedAt := Some t, o_PurgeAfter := Some p, o_UpdatedAt := t, o_Version := o_Version r + 1\<rparr>)
        (t_orgs (db w)))"
      unfolding MarkOrgDeleted_run [OF assms] by simp
    then show False
    proof (cases rule: update_where_memE)
      case (1 r0)
      with r(3) show False by simp
    next
      case 2
      with r(2,3) show False by simp
    qed
  qed
qed

text \<open>An owner other than \<open>u\<close> with a live account.\<close>

definition other_live_owner :: "orgdb \<Rightarrow> string \<Rightarrow> string \<Rightarrow> bool" where
  "other_live_owner d orgID u \<longleftrightarrow> (\<exists>m \<in> set (t_members d). mr_org m = orgID \<and> mr_role m = RoleOwner \<and>
     mr_user m \<noteq> u \<and> live_user d (mr_user m))"

lemma SelectEarliestMember_run:
  assumes "SelectEarliestMember orgID role u w = (Inr m, w')"
  shows "db w' = db w" "\<exists>row \<in> set (t_members (db w)). mr_org row = orgID \<and> mr_user row = m_UserID m \<and>
    mr_user row \<noteq> u \<and> live_user (db w) (mr_user row) \<and> (role = [] \<or> mr_role row = role)"
proof -
  let ?p = "\<lambda>m. mr_org m = orgID \<and> (role = [] \<or> mr_role m = role) \<and> mr_user m \<noteq> u \<and> live_user (db w) (mr_user m)"
  let ?rows = "sort_key (\<lambda>m. (mr_joined m, mr_user m)) (filter ?p (t_members (db w)))"
  show "db w' = db w" using readsD [OF reads_store(13) assms] by simp
  from assms obtain row rest where rows: "?rows = row # rest" and m: "m = to_Member (db w) row"
    unfolding SelectEarliestMember_def query_run found_def by (auto split: option.splits list.splits)
  have "row \<in> set ?rows" by (simp only: rows list.set_intros)
  then show "\<exists>row \<in> set (t_members (db w)). mr_org row = orgID \<and> mr_user row = m_UserID m \<and>
    mr_user row \<noteq> u \<and> live_user (db w) (mr_user row) \<and> (role = [] \<or> mr_role row = role)"
    using m by (auto simp: to_Member_def)
qed

lemma nextOwner_run:
  assumes "nextOwner orgID u w = (Inr m, w')"
  shows "db w' = db w" "\<exists>row \<in> set (t_members (db w)). mr_org row = orgID \<and> mr_user row = m_UserID m \<and>
    mr_user row \<noteq> u \<and> live_user (db w) (mr_user row)"
proof -
  from assms obtain role w0 where 0: "db w0 = db w" and 1: "SelectEarliestMember orgID role u w0 = (Inr m, w')"
    unfolding nextOwner_def bindC_run tryC_run case_sum_run if_run retC_run failC_run
    by (metis readsD reads_store(13))
  show "db w' = db w" using SelectEarliestMember_run(1) [OF 1] 0 by simp
  show "\<exists>row \<in> set (t_members (db w)). mr_org row = orgID \<and> mr_user row = m_UserID m \<and>
    mr_user row \<noteq> u \<and> live_user (db w) (mr_user row)"
    using SelectEarliestMember_run(2) [OF 1] unfolding 0 by blast
qed

text \<open>After a hand-over another member with a live account is an owner.\<close>

lemma promote_live_owner:
  assumes "UpdateMemberRole orgID v RoleOwner w = (Inr x, w')" "row \<in> set (t_members (db w))"
    "mr_org row = orgID" "mr_user row = v" "v \<noteq> u" "live_user (db w) v"
  shows "other_live_owner (db w') orgID u"
proof -
  note upd = UpdateMemberRole_run [OF assms(1)]
  have "row\<lparr>mr_role := RoleOwner\<rparr> \<in> set (t_members (db w'))"
    unfolding upd using assms(2-4) by (auto simp: set_update_where intro!: image_eqI [of _ _ row])
  moreover have "live_user (db w') v" unfolding upd using assms(6) by simp
  ultimately show ?thesis
    unfolding other_live_owner_def using assms(3-5) by (intro bexI [of _ "row\<lparr>mr_role := RoleOwner\<rparr>"]) simp_all
qed

lemma handOver_run:
  assumes "handOver orgID u w = (Inr p, w')"
  shows "same_outside orgID (db w) (db w') \<and> other_live_owner (db w') orgID u \<and> t_orgs (db w') = t_orgs (db w)"
proof -
  from assms obtain n w1 where 1: "CountOwners orgID u w = (Inr n, w1)"
    and rest: "n \<noteq> 0 \<and> w' = w1 \<or> (\<exists>m w2. nextOwner orgID u w1 = (Inr m, w2) \<and>
      UpdateMemberRole orgID (m_UserID m) RoleOwner w2 = (Inr (), w'))"
    unfolding handOver_def bindC_run if_run retC_run by auto
  have n: "db w1 = db w" "n = count_where (\<lambda>m. mr_org m = orgID \<and> mr_role m = RoleOwner \<and> mr_user m \<noteq> u \<and>
      live_user (db w) (mr_user m)) (t_members (db w))"
    using 1 unfolding CountOwners_def query_run by auto
  from rest show ?thesis
  proof (elim disjE exE conjE)
    assume "n \<noteq> 0" "w' = w1"
    then show ?thesis using n by (auto simp: count_where_pos other_live_owner_def)
  next
    fix m w2 assume e: "nextOwner orgID u w1 = (Inr m, w2)"
      and upd: "UpdateMemberRole orgID (m_UserID m) RoleOwner w2 = (Inr (), w')"
    have db2: "db w2 = db w" using nextOwner_run(1) [OF e] n(1) by simp
    from nextOwner_run(2) [OF e] n(1) obtain row where "row \<in> set (t_members (db w))" "mr_org row = orgID"
      "mr_user row = m_UserID m" "m_UserID m \<noteq> u" "live_user (db w) (m_UserID m)" by auto
    then have "other_live_owner (db w') orgID u" using promote_live_owner [OF upd] db2 by simp
    then show ?thesis
      using UpdateMemberRole_outside [OF upd] UpdateMemberRole_run [OF upd] db2 by simp
  qed
qed

definition no_member :: "orgdb \<Rightarrow> string \<Rightarrow> string \<Rightarrow> bool" where
  "no_member d orgID u \<longleftrightarrow> (\<forall>m \<in> set (t_members d). \<not> (mr_org m = orgID \<and> mr_user m = u))"

lemma DeleteMember_effect:
  assumes "DeleteMember orgID u w = (Inr x, w')"
  shows "no_member (db w') orgID u" "t_orgs (db w') = t_orgs (db w)"
    "other_live_owner (db w) orgID u \<Longrightarrow> has_live_owner (db w') orgID"
    "owner_besides (db w) orgID u orgID \<Longrightarrow> has_owner (db w') orgID"
  unfolding DeleteMember_run [OF assms]
  by (auto simp: no_member_def other_live_owner_def has_live_owner_def owner_besides_def has_owner_def)

text \<open>
  What removing the member \<open>u\<close> with \<open>role\<close> leaves of the organisation: the member is gone;
  when it is still live it has an owner, and one with a live account if \<open>u\<close> was an owner.
\<close>

definition removed_ok :: "string \<Rightarrow> string \<Rightarrow> string \<Rightarrow> orgdb \<Rightarrow> orgdb \<Rightarrow> bool" where
  "removed_ok orgID u role d d' \<longleftrightarrow> same_outside orgID d d' \<and> no_member d' orgID u \<and>
     (live_org d' orgID \<longrightarrow> has_owner d' orgID) \<and>
     (live_org d' orgID \<longrightarrow> role = RoleOwner \<longrightarrow> has_live_owner d' orgID)"

lemma has_live_ownerD: "has_live_owner d oid \<Longrightarrow> has_owner d oid"
  by (auto simp: has_live_owner_def has_owner_def)

lemma live_org_cong: "t_orgs d = t_orgs d' \<Longrightarrow> live_org d oid = live_org d' oid"
  by (simp add: live_org_def)

lemma remove_live_run:
  assumes run: "remove_live s u orgID now o1 role w = (Inr r, w')" and inv: "orgs_inv (db w)"
    and row: "row \<in> set (t_members (db w))" "mr_org row = orgID" "mr_user row = u" "mr_role row = role"
  shows "removed_ok orgID u role (db w) (db w')" "rm_role r = role" "rm_removed r \<or> rm_deleted r"
proof -
  from run obtain x w1 where alone: "isAlone orgID u w = (Inr x, w1)" and rest:
    "(\<exists>w2. MarkOrgDeleted orgID now (now + s_retention s) w1 = (Inr (), w2) \<and> DeleteMember orgID u w2 = (Inr (), w') \<and>
        r = \<lparr>rm_removed = False, rm_deleted = True, rm_promoted = [], rm_role = role\<rparr>) \<or>
     (\<exists>p w2. (role = RoleOwner \<and> handOver orgID u w1 = (Inr p, w2) \<or> role \<noteq> RoleOwner \<and> p = [] \<and> w2 = w1) \<and>
        DeleteMember orgID u w2 = (Inr (), w') \<and>
        r = \<lparr>rm_removed = True, rm_deleted = False, rm_promoted = p, rm_role = role\<rparr>)"
    unfolding remove_live_def bindC_run if_run retC_run by auto
  have db1: "db w1 = db w" using readsD [OF reads_service(9) alone] by simp
  have "removed_ok orgID u role (db w) (db w') \<and> rm_role r = role \<and> (rm_removed r \<or> rm_deleted r)"
    using rest
  proof (elim disjE exE conjE)
    fix w2 assume m: "MarkOrgDeleted orgID now (now + s_retention s) w1 = (Inr (), w2)"
      and d: "DeleteMember orgID u w2 = (Inr (), w')"
      and r: "r = \<lparr>rm_removed = False, rm_deleted = True, rm_promoted = [], rm_role = role\<rparr>"
    have "\<not> live_org (db w') orgID"
      using MarkOrgDeleted_outside(2) [OF m] DeleteMember_effect(2) [OF d] by (simp add: live_org_def)
    moreover have "same_outside orgID (db w) (db w')"
      using MarkOrgDeleted_outside(1) [OF m] DeleteMember_outside [OF d] db1 by (auto intro: same_outside_trans)
    ultimately show ?thesis using DeleteMember_effect(1) [OF d] r by (simp add: removed_ok_def)
  next
    fix p w2 assume h: "role = RoleOwner" "handOver orgID u w1 = (Inr p, w2)"
      and d: "DeleteMember orgID u w2 = (Inr (), w')"
      and r: "r = \<lparr>rm_removed = True, rm_deleted = False, rm_promoted = p, rm_role = role\<rparr>"
    have "has_live_owner (db w') orgID" using handOver_run [OF h(2)] DeleteMember_effect(3) [OF d] by simp
    moreover have "same_outside orgID (db w) (db w')"
      using handOver_run [OF h(2)] DeleteMember_outside [OF d] db1 by (auto intro: same_outside_trans)
    ultimately show ?thesis
      using DeleteMember_effect(1) [OF d] r by (simp add: removed_ok_def has_live_ownerD)
  next
    fix p w2 assume h: "role \<noteq> RoleOwner" "w2 = w1" and d: "DeleteMember orgID u w2 = (Inr (), w')"
      and r: "r = \<lparr>rm_removed = True, rm_deleted = False, rm_promoted = p, rm_role = role\<rparr>"
    have "has_owner (db w') orgID" if "live_org (db w') orgID"
    proof -
      have "live_org (db w) orgID" using that DeleteMember_effect(2) [OF d] h(2) db1 by (simp add: live_org_def)
      then have "has_owner (db w) orgID" using inv by (simp add: orgs_inv_def owned_def)
      then have "owner_besides (db w) orgID u orgID"
        using owner_besides_member [OF _ row(1-3)] row(4) h(1) inv by (simp add: orgs_inv_def)
      then show ?thesis using DeleteMember_effect(4) [OF d] h(2) db1 by simp
    qed
    then show ?thesis
      using DeleteMember_outside [OF d] DeleteMember_effect(1) [OF d] h r db1 by (simp add: removed_ok_def)
  qed
  then show "removed_ok orgID u role (db w) (db w')" "rm_role r = role" "rm_removed r \<or> rm_deleted r" by simp_all
qed

lemma found_Inl: "found x r = Inl e \<longleftrightarrow> r = None \<and> e = Err x"
  by (auto simp: found_def split: option.splits)

lemma SelectMember_missing:
  assumes "SelectMember orgID u w = (Inl e, w')" "errors_is e ErrMemberNotFound" "tables_ok (db w)"
  shows "no_member (db w) orgID u"
proof -
  have "List.find (\<lambda>m. mr_org m = orgID \<and> mr_user m = u \<and> known_user (db w) u) (t_members (db w)) = None"
    using query_fail [OF assms(1) [unfolded SelectMember_def]] assms(2) by (auto simp: found_Inl)
  then show ?thesis using assms(3) by (auto simp: no_member_def find_None_iff tables_defs)
qed

lemma SelectOrg_missing:
  assumes "SelectOrg orgID l w = (Inl e, w')" "errors_is e ErrOrgNotFound"
  shows "\<not> live_org (db w) orgID"
  using query_fail [OF assms(1) [unfolded SelectOrg_def]] assms(2)
  by (auto simp: found_Inl live_org_def find_None_iff)

lemma SelectDeletedOrg_missing:
  assumes "SelectDeletedOrg orgID w = (Inl e, w')" "errors_is e ErrOrgNotFound" "\<not> live_org (db w) orgID"
  shows "orgID \<notin> o_ID ` set (t_orgs (db w))"
  using query_fail [OF assms(1) [unfolded SelectDeletedOrg_def]] assms(2,3)
  by (auto simp: found_Inl live_org_def find_None_iff)

lemma selectAnyOrg_missing:
  assumes "selectAnyOrg orgID w = (Inl e, w')" "errors_is e ErrOrgNotFound"
  shows "orgID \<notin> o_ID ` set (t_orgs (db w))"
proof -
  from assms obtain e1 w1 where 1: "SelectOrg orgID True w = (Inl e1, w1)" "errors_is e1 ErrOrgNotFound"
    and 2: "SelectDeletedOrg orgID w1 = (Inl e, w')"
    unfolding selectAnyOrg_def bindC_def tryC_def retC_def failC_def
    by (auto split: prod.splits sum.splits if_splits)
  have "db w1 = db w" using readsD [OF reads_store(1) 1(1)] by simp
  then show ?thesis
    using SelectDeletedOrg_missing [OF 2 assms(2)] SelectOrg_missing [OF 1] by simp
qed

lemma selectAnyOrg_run:
  assumes "selectAnyOrg orgID w = (Inr o1, w')"
  shows "o1 \<in> set (t_orgs (db w))" "o_ID o1 = orgID"
proof -
  consider "SelectOrg orgID True w = (Inr o1, w')"
    | e w1 where "SelectOrg orgID True w = (Inl e, w1)" "SelectDeletedOrg orgID w1 = (Inr o1, w')"
    using assms unfolding selectAnyOrg_def bindC_run tryC_run case_sum_run if_run retC_run failC_run by blast
  then have "o1 \<in> set (t_orgs (db w)) \<and> o_ID o1 = orgID"
  proof cases
    case 1
    then show ?thesis unfolding SelectOrg_def query_run found_def
      by (auto split: option.splits dest!: find_SomeD)
  next
    case 2
    from 2(2) have "o1 \<in> set (t_orgs (db w1)) \<and> o_ID o1 = orgID"
      unfolding SelectDeletedOrg_def query_run found_def by (auto split: option.splits dest!: find_SomeD)
    then show ?thesis using readsD [OF reads_store(1) 2(1)] by simp
  qed
  then show "o1 \<in> set (t_orgs (db w))" "o_ID o1 = orgID" by simp_all
qed

lemma removed_nothing:
  "orgs_inv d \<Longrightarrow> no_member d orgID u \<Longrightarrow> removed_ok orgID u [] d d"
  by (simp add: removed_ok_def orgs_inv_def owned_def)

lemma deleted_not_live:
  "tables_ok d \<Longrightarrow> o1 \<in> set (t_orgs d) \<Longrightarrow> o_DeletedAt o1 \<noteq> None \<Longrightarrow> \<not> live_org d (o_ID o1)"
  unfolding live_org_def tables_ok_def keys_ok_def by (metis distinct_map_unique)

lemma remove_tx_run:
  assumes run: "remove_tx s u orgID now w = (Inr r, w')" and inv: "orgs_inv (db w)"
  shows "removed_ok orgID u (rm_role r) (db w) (db w')"
    and "no_member (db w) orgID u \<and> db w' = db w \<or>
      (\<exists>row \<in> set (t_members (db w)). mr_org row = orgID \<and> mr_user row = u \<and> mr_role row = rm_role r)"
proof -
  have ok: "tables_ok (db w)" using inv by (simp add: orgs_inv_def)
  from run obtain x w1 where any: "selectAnyOrg orgID w = (x, w1)" and rest:
    "(\<exists>e. x = Inl e \<and> errors_is e ErrOrgNotFound \<and> r = not_removed [] \<and> w' = w1) \<or>
     (\<exists>o1 y w2. x = Inr o1 \<and> SelectMember orgID u w1 = (y, w2) \<and>
       ((\<exists>e. y = Inl e \<and> errors_is e ErrMemberNotFound \<and> r = not_removed [] \<and> w' = w2) \<or>
        (\<exists>m. y = Inr m \<and> (o_DeletedAt o1 \<noteq> None \<and> DeleteMember orgID u w2 = (Inr (), w') \<and>
            r = \<lparr>rm_removed = True, rm_deleted = False, rm_promoted = [], rm_role = m_Role m\<rparr> \<or>
          o_DeletedAt o1 = None \<and> remove_live s u orgID now o1 (m_Role m) w2 = (Inr r, w')))))"
    unfolding remove_tx_def bindC_run tryC_run case_sum_run if_run retC_run failC_run by auto
  have db1: "db w1 = db w" using readsD [OF reads_service(11) any] by simp
  have "removed_ok orgID u (rm_role r) (db w) (db w') \<and> (no_member (db w) orgID u \<and> db w' = db w \<or>
      (\<exists>row \<in> set (t_members (db w)). mr_org row = orgID \<and> mr_user row = u \<and> mr_role row = rm_role r))"
    using rest
  proof (elim disjE exE conjE)
    fix e assume "x = Inl e" "errors_is e ErrOrgNotFound" "r = not_removed []" "w' = w1"
    moreover from this have "orgID \<notin> o_ID ` set (t_orgs (db w))" using selectAnyOrg_missing any by simp
    then have "no_member (db w) orgID u" using ok by (auto simp: tables_defs no_member_def)
    ultimately show ?thesis using removed_nothing [OF inv] db1 by (simp add: not_removed_def)
  next
    fix o1 y w2 e assume "SelectMember orgID u w1 = (y, w2)" "y = Inl e" "errors_is e ErrMemberNotFound"
      "r = not_removed []" "w' = w2"
    moreover from this have "no_member (db w) orgID u" "db w2 = db w"
      using SelectMember_missing [of orgID u w1 e w2] ok db1 readsD [OF reads_store(8), of orgID u w1 y w2] by auto
    ultimately show ?thesis using removed_nothing [OF inv] by (simp add: not_removed_def)
  next
    fix o1 y w2 m assume "x = Inr o1" "SelectMember orgID u w1 = (y, w2)" "y = Inr m" "o_DeletedAt o1 \<noteq> None"
      and d: "DeleteMember orgID u w2 = (Inr (), w')"
      and r: "r = \<lparr>rm_removed = True, rm_deleted = False, rm_promoted = [], rm_role = m_Role m\<rparr>"
    then have m: "SelectMember orgID u w1 = (Inr m, w2)" and o1: "o1 \<in> set (t_orgs (db w))" "o_ID o1 = orgID"
      using selectAnyOrg_run any by auto
    have "\<not> live_org (db w) orgID" using deleted_not_live [OF ok o1(1) \<open>o_DeletedAt o1 \<noteq> None\<close>] o1(2) by simp
    then have "\<not> live_org (db w') orgID"
      using DeleteMember_effect(2) [OF d] SelectMember_run(1) [OF m] db1 by (simp add: live_org_def)
    then show ?thesis
      using DeleteMember_outside [OF d] DeleteMember_effect(1) [OF d] SelectMember_run [OF m] db1 r
      by (auto simp: removed_ok_def)
  next
    fix o1 y w2 m assume "SelectMember orgID u w1 = (y, w2)" "y = Inr m"
      and l: "remove_live s u orgID now o1 (m_Role m) w2 = (Inr r, w')"
    then have m: "SelectMember orgID u w1 = (Inr m, w2)" by simp
    have db2: "db w2 = db w" using SelectMember_run(1) [OF m] db1 by simp
    from SelectMember_run(2) [OF m] db1 obtain row where row: "row \<in> set (t_members (db w))" "mr_org row = orgID"
      "mr_user row = u" "mr_role row = m_Role m" by auto
    from remove_live_run [OF l, unfolded db2, OF inv row] row show ?thesis by auto
  qed
  then show "removed_ok orgID u (rm_role r) (db w) (db w')"
    and "no_member (db w) orgID u \<and> db w' = db w \<or>
      (\<exists>row \<in> set (t_members (db w)). mr_org row = orgID \<and> mr_user row = u \<and> mr_role row = rm_role r)"
    by blast+
qed

lemma remove_tx_owned:
  assumes "remove_tx s u orgID now w = (Inr r, w')" "orgs_inv (db w)"
  shows "owned (db w')"
  using remove_tx_run(1) [OF assms] assms(2) by (auto simp: removed_ok_def orgs_inv_def intro: owned_outside)

end
