(* ===== verification/Orgs_Reach.thy ===== *)
theory Orgs_Reach
  imports Orgs_Invariants
begin

text \<open>
  The organisations module as a state machine. A step is a use case run on tables the machine has
  reached, with any faults, and with other sessions moving the tables to any other reached state
  before each of its transactions; or a change of the auth module to its own tables.
\<close>

section \<open>The use cases keep the invariant\<close>

lemma keeps_tx:
  assumes "quiet fn" "pres tables_ok fn" "\<And>w x w'. fn w = (Inr x, w') \<Longrightarrow> orgs_inv (db w) \<Longrightarrow> owned (db w')"
  shows "keeps orgs_inv (InTx fn)"
  using assms(1)
proof (rule keeps_InTx)
  fix w0 x w1 assume "orgs_inv (db w0)" "fn w0 = (Inr x, w1)"
  with assms(2,3) show "orgs_inv (db w1)" by (auto simp: orgs_inv_def dest: presD)
qed

lemma keeps_plain_tx: "quiet fn \<Longrightarrow> pres tables_ok fn \<Longrightarrow> pres owned fn \<Longrightarrow> keeps orgs_inv (InTx fn)"
  by (rule keeps_tx) (auto simp: orgs_inv_def dest: presD)

lemma keeps_txs [keeps_intros]:
  "keeps orgs_inv (InTx (insert_with_owner o1 u t b))" "keeps orgs_inv (InTx (rename_tx s c t oid n v))"
  "keeps orgs_inv (InTx (delete_tx s c t p oid))" "keeps orgs_inv (InTx (change_role_tx s c oid u r))"
  "keeps orgs_inv (InTx (leave_tx s c oid))" "keeps orgs_inv (InTx (remove_member_tx s c oid u))"
  "keeps orgs_inv (InTx (invite_tx s c oid u e n r iid h t))" "keeps orgs_inv (InTx (resend_tx s c oid iid h t))"
  "keeps orgs_inv (InTx (revoke_tx s c t oid iid))" "keeps orgs_inv (InTx (accept_tx s u n vf h iv t))"
  "keeps orgs_inv (InTx (remove_tx s u oid t))"
  by (blast intro: keeps_tx keeps_plain_tx quiet_txs tables_ok_txs owned_txs
      insert_with_owner_owned change_role_tx_owned leave_tx_owned remove_member_tx_owned remove_tx_owned
      orgs_inv_def [THEN iffD1, THEN conjunct2])+

lemma keeps_restore_tx [keeps_intros]:
  "delete_owner_only (s_catalog s) \<Longrightarrow> keeps orgs_inv (InTx (restore_tx s c t u oid))"
  by (rule keeps_tx [OF quiet_txs(4) tables_ok_txs(4)]) (rule restore_tx_owned)

lemma keeps_create_tx [keeps_intros]:
  "keeps orgs_inv (InTx (bindC (checkOwnedOrgs s u) (\<lambda>_. insert_with_owner o1 u t b)))"
proof (rule keeps_tx)
  show "quiet (bindC (checkOwnedOrgs s u) (\<lambda>_. insert_with_owner o1 u t b))"
    by (intro quiet_intros)
  show "pres tables_ok (bindC (checkOwnedOrgs s u) (\<lambda>_. insert_with_owner o1 u t b))"
    by (intro pres_intros)
  fix w x w' assume "bindC (checkOwnedOrgs s u) (\<lambda>_. insert_with_owner o1 u t b) w = (Inr x, w')" "orgs_inv (db w)"
  then show "owned (db w')"
    by (auto simp: bindC_run orgs_inv_def dest!: checkOwnedOrgs_run(1) insert_with_owner_owned)
qed

lemma keeps_DeleteOrg [keeps_intros]: "keeps orgs_inv (DeleteOrg oid t)"
  by (intro pres_imp_keeps pres_orgs_inv pres_intros quiet_intros)

lemma purge_batch_keeps [keeps_intros]: "keeps orgs_inv (purge_batch c now oids n)"
  by (induction oids arbitrary: n) (simp_all, (intro keeps_intros | assumption)+)

lemma purge_loop_keeps [keeps_intros]: "keeps orgs_inv (purge_loop c now stop ticks n)"
proof (induction ticks arbitrary: n)
  case (Cons a ticks)
  obtain tick cancelled where "a = (tick, cancelled)" by fastforce
  then show ?case by (simp only: purge_loop.simps) (intro keeps_intros Cons.IH)
qed (simp add: keeps_intros)

lemma removeFromOrg_keeps [keeps_intros]: "keeps orgs_inv (removeFromOrg s c t u oid)"
  unfolding removeFromOrg_def by (intro keeps_intros)

lemma remove_each_keeps [keeps_intros]: "keeps orgs_inv (remove_each s c u os)"
  by (induction os) (auto intro!: keeps_intros)

lemmas usecase_defs = Create_def EnsurePersonalWorkspace_def List_orgs_def Get_def Rename_def Delete_def
  Restore_def Purge_def ChangeRole_def Leave_def RemoveMember_def Invite_def ResendInvitation_def
  RevokeInvitation_def AcceptInvitation_def RemoveAccount_def

lemma usecases_keep:
  "keeps orgs_inv (Create s c t nid name)" "keeps orgs_inv (EnsurePersonalWorkspace s c t nid u)"
  "keeps orgs_inv (Rename s c t oid name v)" "keeps orgs_inv (Delete s c t oid)"
  "keeps orgs_inv (Purge c t started ticks)" "keeps orgs_inv (ChangeRole s c oid u role)"
  "keeps orgs_inv (Leave s c oid)" "keeps orgs_inv (RemoveMember s c oid u)"
  "keeps orgs_inv (Invite s c t nid tok oid em role)" "keeps orgs_inv (ResendInvitation s c t tok oid iid)"
  "keeps orgs_inv (RevokeInvitation s c t oid iid)" "keeps orgs_inv (AcceptInvitation s c t tok)"
  "keeps orgs_inv (RemoveAccount s c clocks u)"
  unfolding usecase_defs Let_def by (intro keeps_intros)+

lemma Restore_keeps: "delete_owner_only (s_catalog s) \<Longrightarrow> keeps orgs_inv (Restore s c t oid)"
  unfolding Restore_def by (intro keeps_intros)

section \<open>Reachable tables\<close>

text \<open>
  \<open>org_request\<close> is a request of any use case that writes, with its arguments. \<open>run_request\<close>
  runs it. Each request draws its own random values.
\<close>

datatype org_request =
    RCreate ctx time string string
  | REnsure ctx time string string
  | RRename ctx time string string int
  | RDelete ctx time string
  | RRestore ctx time string
  | RPurge ctx time time "(time \<times> bool) list"
  | RChangeRole ctx string string string
  | RLeave ctx string
  | RRemoveMember ctx string string
  | RInvite ctx time string string string string string
  | RResend ctx time string string string
  | RRevoke ctx time string string
  | RAccept ctx time string
  | RRemoveAccount ctx "nat \<Rightarrow> time" string

fun run_request :: "'l Service \<Rightarrow> org_request \<Rightarrow> (orgdb, 'l orgext) world \<Rightarrow> (orgdb, 'l orgext) world" where
  "run_request s (RCreate c t nid name) w = snd (Create s c t nid name w)"
| "run_request s (REnsure c t nid u) w = snd (EnsurePersonalWorkspace s c t nid u w)"
| "run_request s (RRename c t oid name v) w = snd (Rename s c t oid name v w)"
| "run_request s (RDelete c t oid) w = snd (Delete s c t oid w)"
| "run_request s (RRestore c t oid) w = snd (Restore s c t oid w)"
| "run_request s (RPurge c t started ticks) w = snd (Purge c t started ticks w)"
| "run_request s (RChangeRole c oid u role) w = snd (ChangeRole s c oid u role w)"
| "run_request s (RLeave c oid) w = snd (Leave s c oid w)"
| "run_request s (RRemoveMember c oid u) w = snd (RemoveMember s c oid u w)"
| "run_request s (RInvite c t nid tok oid em role) w = snd (Invite s c t nid tok oid em role w)"
| "run_request s (RResend c t tok oid iid) w = snd (ResendInvitation s c t tok oid iid w)"
| "run_request s (RRevoke c t oid iid) w = snd (RevokeInvitation s c t oid iid w)"
| "run_request s (RAccept c t tok) w = snd (AcceptInvitation s c t tok w)"
| "run_request s (RRemoveAccount c clocks u) w = snd (RemoveAccount s c clocks u w)"

text \<open>
  What the auth module does to its tables: it adds accounts and changes or soft deletes the ones
  there are, changes service accounts, and purges an account that is no longer a member of anything.
\<close>

inductive auth_step :: "orgdb \<Rightarrow> orgdb \<Rightarrow> bool" where
  AddUser: "u_id u \<notin> u_id ` set (t_users d) \<Longrightarrow> auth_step d (d\<lparr>t_users := t_users d @ [u]\<rparr>)"
| ChangeUser: "(\<And>u. u_id (f u) = u_id u) \<Longrightarrow> auth_step d (d\<lparr>t_users := map f (t_users d)\<rparr>)"
| PurgeUser: "\<forall>m \<in> set (t_members d). mr_user m \<noteq> uid \<Longrightarrow>
    auth_step d (d\<lparr>t_users := filter (\<lambda>u. u_id u \<noteq> uid) (t_users d)\<rparr>)"
| ServiceAccounts: "auth_step d (d\<lparr>t_service_accounts := accounts\<rparr>)"

definition empty_db :: orgdb where
  "empty_db = \<lparr>t_orgs = [], t_members = [], t_invitations = [], t_users = [], t_service_accounts = []\<rparr>"

inductive org_reach :: "'l Service \<Rightarrow> orgdb \<Rightarrow> bool" for s where
  Init: "org_reach s empty_db"
| Request: "org_reach s (db w) \<Longrightarrow> others w = map (\<lambda>d _. d) ds \<Longrightarrow> \<forall>d \<in> set ds. org_reach s d \<Longrightarrow>
    org_reach s (db (run_request s req w))"
| Auth: "org_reach s d \<Longrightarrow> auth_step d d' \<Longrightarrow> org_reach s d'"

lemma keepsD: "keeps I m \<Longrightarrow> I (db w) \<Longrightarrow> others_keep I w \<Longrightarrow> I (db (snd (m w)))"
  by (simp add: keeps_def)

lemma run_request_keeps:
  assumes "delete_owner_only (s_catalog s)" "orgs_inv (db w)" "others_keep orgs_inv w"
  shows "orgs_inv (db (run_request s req w))"
  by (cases req) (simp_all add: usecases_keep [THEN keepsD] Restore_keeps [THEN keepsD] assms)

lemma auth_step_keeps:
  assumes "auth_step d d'" "orgs_inv d" shows "orgs_inv d'"
  using assms(1)
proof cases
  case (ChangeUser f)
  then have ids: "map u_id (t_users d') = map u_id (t_users d)" by simp
  have "known_user d' = known_user d"
    using ChangeUser by (auto simp: known_user_def fun_eq_iff)
  with ids ChangeUser assms(2) show ?thesis
    by (simp add: o_def orgs_inv_def tables_defs owned_def live_org_def has_owner_def)
next
  case (PurgeUser uid)
  have "known_user d' (mr_user m)" if "m \<in> set (t_members d)" "known_user d (mr_user m)" for m
    using PurgeUser that by (simp add: known_user_def) metis
  with PurgeUser assms(2) show ?thesis
    by (simp add: orgs_inv_def tables_defs owned_def live_org_def has_owner_def distinct_map_filterI)
qed (use assms(2) in \<open>auto simp: orgs_inv_def tables_defs owned_def live_org_def has_owner_def known_user_def\<close>)

lemma orgs_inv_empty: "orgs_inv empty_db"
  by (simp add: empty_db_def orgs_inv_def tables_defs owned_def live_org_def)

lemma reach_inv:
  assumes "org_reach s d" "delete_owner_only (s_catalog s)"
  shows "orgs_inv d"
  using assms(1)
proof induction
  case (Request w ds req)
  then have "others_keep orgs_inv w" by (auto simp: others_keep_def)
  with Request assms(2) show ?case by (simp add: run_request_keeps)
qed (auto simp: orgs_inv_empty auth_step_keeps)

end
