(* ===== verification/Orgs_Props.thy ===== *)
theory Orgs_Props
  imports Orgs_Reach
begin

text \<open>
  What the organisations module guarantees: who may change what, what a successful request did, and
  what can never happen to an organisation. Each theorem with hypotheses is followed by an instance
  on a small installation: two users, Ada and Bob, and the catalog the module declares.
\<close>

section \<open>A small installation\<close>

definition demo_catalog :: Catalog where
  "demo_catalog = the (declare_all NewCatalog
    [DeclPermission ''orgs.org.read'' [], DeclPermission ''orgs.org.update'' [],
     DeclPermission ''orgs.org.delete'' [], DeclPermission ''orgs.members.read'' [],
     DeclPermission ''orgs.members.manage'' [],
     DeclRole ''owner'' [] [''orgs.org.read'', ''orgs.org.update'', ''orgs.org.delete'', ''orgs.members.read'', ''orgs.members.manage''],
     DeclRole ''admin'' [] [''orgs.org.read'', ''orgs.org.update'', ''orgs.members.read'', ''orgs.members.manage''],
     DeclRole ''member'' [] [''orgs.org.read'', ''orgs.members.read'']])"

definition demo_lib :: stdlib where
  "demo_lib = \<lparr>l_sha256 = (\<lambda>t. t), l_ParseAddress = (\<lambda>s. Some s), l_rune_ToLower = (\<lambda>r. r),
     l_ToLower = (\<lambda>s. s), l_pg_lower = (\<lambda>s. s)\<rparr>"

definition demo :: "nat Service" where
  "demo = \<lparr>s_catalog = demo_catalog, s_invitationURL = ''https://x/i'', s_invitationTTL = 7 * 24 * hour,
     s_retention = 30 * 24 * hour, s_maxOwned = 20, s_take = (\<lambda>_ n. (Some (n < 50), n + 1)), s_lib = demo_lib\<rparr>"

definition as_user :: "string \<Rightarrow> ctx" where
  "as_user u = Background\<lparr>ctx_actor := Some \<lparr>a_Kind = KindUser, a_ID = u, a_Label = [], a_OrgID = [],
     a_Permissions = [PermOrgCreate, PermOrgList], a_StepUp = []\<rparr>\<rparr>"

definition user :: "string \<Rightarrow> user_row" where
  "user u = \<lparr>u_id = u, u_email = u, u_email_normalized = u, u_verified_at = Some 1, u_deleted_at = None\<rparr>"

definition acme :: string where "acme = ''org_aaaaaaaaaaaaaaaaaaaaaaaaaa''"

definition acme_org :: Org where
  "acme_org = \<lparr>o_ID = acme, o_Name = ''Acme'', o_Personal = False, o_CreatedBy = ''ada'', o_Version = 1,
     o_CreatedAt = 1000, o_UpdatedAt = 1000, o_DeletedAt = None, o_PurgeAfter = None\<rparr>"

definition row :: "string \<Rightarrow> string \<Rightarrow> time \<Rightarrow> member_row" where
  "row u role t = \<lparr>mr_org = acme, mr_user = u, mr_role = role, mr_joined = t, mr_by = ''user:ada''\<rparr>"

definition demo_db :: orgdb where
  "demo_db = \<lparr>t_orgs = [acme_org], t_members = [row ''ada'' RoleOwner 1000, row ''bob'' RoleMember 2000],
     t_invitations = [], t_users = [user ''ada'', user ''bob'', user ''eve''], t_service_accounts = []\<rparr>"

definition world_of :: "orgdb \<Rightarrow> (orgdb, nat orgext) world" where
  "world_of d = \<lparr>db = d, faults = [], others = [], ext = \<lparr>x_audit = [], x_outbox = [], x_limiter = 0\<rparr>\<rparr>"

lemma demo_catalog_roles:
  "c_roles demo_catalog =
     [\<lparr>role_Name = ''owner'', role_Description = [], role_Permissions =
        [''orgs.members.manage'', ''orgs.members.read'', ''orgs.org.delete'', ''orgs.org.read'', ''orgs.org.update'']\<rparr>,
      \<lparr>role_Name = ''admin'', role_Description = [], role_Permissions =
        [''orgs.members.manage'', ''orgs.members.read'', ''orgs.org.read'', ''orgs.org.update'']\<rparr>,
      \<lparr>role_Name = ''member'', role_Description = [], role_Permissions = [''orgs.members.read'', ''orgs.org.read'']\<rparr>]"
  "c_mfaRoles demo_catalog = []"
  unfolding demo_catalog_def by code_simp+

lemma demo_delete_owner_only: "delete_owner_only (s_catalog demo)"
  by (simp add: demo_def delete_owner_only_def demo_catalog_roles)

lemma demo_db_inv: "orgs_inv demo_db"
  by (simp add: orgs_inv_def tables_defs owned_def live_org_def has_owner_def
      demo_db_def acme_org_def row_def user_def known_user_def open_inv_def)

section \<open>Successful requests\<close>

lemma successE:
  assumes "fst (m w) = Inr x" obtains w' where "m w = (Inr x, w')" "snd (m w) = w'"
  using assms by (cases "m w") auto

lemma InTx_success:
  assumes "InTx fn w = (Inr x, w')"
  obtains w0 w1 where "db w0 = db (interfere w)" "ext w0 = ext w" "fn w0 = (Inr x, w1)" "db w' = db w1" "ext w' = ext w1"
proof -
  from assms obtain fs w1 fs' where "fn (interfere (w\<lparr>faults := fs\<rparr>)) = (Inr x, w1)" "w' = w1\<lparr>faults := fs'\<rparr>"
    unfolding InTx_run by blast
  moreover have "db (interfere (w\<lparr>faults := fs\<rparr>)) = db (interfere w)" "ext (interfere (w\<lparr>faults := fs\<rparr>)) = ext w"
    by (simp_all add: interfere_def split: list.splits)
  ultimately show thesis using that by simp
qed

lemma reads_interfere:
  assumes "reads m" "m w = (r, w1)"
  shows "db (interfere w1) = db (interfere w)" "ext w1 = ext w"
  using readsD [OF assms] by (simp_all add: interfere_def split: list.splits)

lemma audit_ev_run: "audit_ev c a oid rt rid md w = (Inr u, w') \<Longrightarrow> db w' = db w"
  by (simp add: audit_ev_def extC_run)

lemma audit_if_run: "(if b then audit_ev c a oid rt rid md else retC ()) w = (Inr u, w') \<Longrightarrow> db w' = db w"
  by (cases b) (simp_all add: audit_ev_run retC_run)

lemma canAssign_subset:
  assumes "canAssign s mine role"
  shows "set (Permissions (s_catalog s) [role]) \<subseteq> set (Permissions (s_catalog s) [mine])"
    "role = RoleOwner \<Longrightarrow> mine = RoleOwner"
  using assms by (auto simp: canAssign_def list_all_iff split: if_splits)

text \<open>\<open>c'\<close> is \<open>c\<close> with its actor acting in an organisation.\<close>

definition acting :: "ctx \<Rightarrow> ctx \<Rightarrow> bool" where
  "acting c c' \<longleftrightarrow> (\<exists>a og ps su. memberActor c = Some a \<and>
     c' = With c (a\<lparr>a_OrgID := og, a_Permissions := ps, a_StepUp := su\<rparr>))"

abbreviation caller :: "ctx \<Rightarrow> string" where
  "caller c \<equiv> a_ID (the (memberActor c))"

lemma acting_caller: "acting c c' \<Longrightarrow> caller c' = caller c"
  by (auto simp: acting_def memberActor_def With_def From_def PrincipalFrom_def split: option.splits if_splits)

lemma RequireMember_acting:
  assumes "RequireMember c MemberRole cat orgID perm w = (Inr (c', me), w')"
  shows "acting c c'" "om_UserID me = caller c" "member_holds (db w) orgID (caller c) (om_Role me)"
    "perm \<in> set (allowed_perms c cat (om_Role me))"
  using members.RequireMember_Inr [OF assms] by (auto simp: acting_def)

lemma ChangeRole_run:
  assumes "ChangeRole s c orgID u role w = (Inr m, w')"
  obtains c' w0 old w1 where "db w0 = db (interfere w)" "change_role_tx s c' orgID u role w0 = (Inr (m, old), w1)"
    "db w' = db w1" "HasRole (s_catalog s) role" "acting c c'"
proof -
  from assms obtain c' me w1 old w2 w3 where
    1: "RequireMember c MemberRole (s_catalog s) orgID PermMembersManage w = (Inr (c', me), w1)"
    and role: "HasRole (s_catalog s) role"
    and 2: "InTx (change_role_tx s c' orgID u role) w1 = (Inr (m, old), w2)"
    and 3: "(if old \<noteq> role then audit_ev c' ''orgs.member.role_changed'' orgID ''user'' u
                     [(''from'', MStr old), (''to'', MStr role)] else retC ()) w2 = (Inr (), w3)" "w' = w3"
    unfolding ChangeRole_def bindC_run mapErrC_run case_prod_run if_run retC_run failC_run
    by (auto simp: run_elims)
  from 2 obtain w0 w4 where "db w0 = db (interfere w1)" "change_role_tx s c' orgID u role w0 = (Inr (m, old), w4)"
    "db w2 = db w4" by (rule InTx_success)
  with that [of w0 c' old w4] show thesis
    using reads_interfere(1) [OF reads_service(1) 1] audit_if_run [OF 3(1)] 3(2) role
      RequireMember_acting(1) [OF 1] by simp
qed

text \<open>
  C2: nobody gives a member a role above their own. When \<open>ChangeRole\<close> succeeds, then in the tables
  its transaction found, whatever other sessions committed after the first check, the caller was a
  member of the live organisation with a role that manages members; and if the member's role changed,
  the permissions of the old and of the new role are permissions of the caller's role, only an owner
  made or unmade an owner, and nothing but that member's role is different.
\<close>

theorem ChangeRole_no_escalation:
  assumes "fst (ChangeRole s c orgID u role w) = Inr m"
  defines "d \<equiv> db (interfere w)" and "d' \<equiv> db (snd (ChangeRole s c orgID u role w))"
  shows "\<exists>mine old. member_holds d orgID (caller c) mine \<and>
    PermMembersManage \<in> set (Permissions (s_catalog s) [mine]) \<and> member_holds d orgID u old \<and>
    (d' = d \<or>
     set (Permissions (s_catalog s) [old]) \<union> set (Permissions (s_catalog s) [role]) \<subseteq> set (Permissions (s_catalog s) [mine]) \<and>
     (RoleOwner \<in> {old, role} \<longrightarrow> mine = RoleOwner) \<and>
     d' = d\<lparr>t_members := update_where (\<lambda>m. mr_org m = orgID \<and> mr_user m = u) (\<lambda>m. m\<lparr>mr_role := role\<rparr>) (t_members d)\<rparr>)"
proof -
  obtain w' where run: "ChangeRole s c orgID u role w = (Inr m, w')" and w': "d' = db w'"
    using assms(1) by (auto elim: successE simp: d'_def)
  from run obtain c' w0 old w1 where w0: "db w0 = d" and tx: "change_role_tx s c' orgID u role w0 = (Inr (m, old), w1)"
    and w1: "d' = db w1" and act: "acting c c'"
    unfolding w' d_def by (rule ChangeRole_run)
  from tx show ?thesis
  proof (cases rule: change_role_tx_run)
    case (1 me row)
    have mine: "member_holds d orgID (caller c) (om_Role me)"
      using 1(1,3) w0 acting_caller [OF act] by simp
    moreover have "PermMembersManage \<in> set (Permissions (s_catalog s) [om_Role me])"
      using 1(4) allowed_perms_subset by blast
    moreover have "member_holds d orgID u old" using 1(5-8) mine w0 by (auto simp: member_holds_def)
    moreover have "d' = d \<or> set (Permissions (s_catalog s) [old]) \<union> set (Permissions (s_catalog s) [role])
        \<subseteq> set (Permissions (s_catalog s) [om_Role me]) \<and> (RoleOwner \<in> {old, role} \<longrightarrow> om_Role me = RoleOwner) \<and>
        d' = d\<lparr>t_members := update_where (\<lambda>m. mr_org m = orgID \<and> mr_user m = u) (\<lambda>m. m\<lparr>mr_role := role\<rparr>) (t_members d)\<rparr>"
      using 1(9) unfolding w0 w1 [symmetric]
    proof (elim disjE conjE)
      assume "canAssign s (om_Role me) old" "canAssign s (om_Role me) role" and upd: "d' = d\<lparr>t_members :=
        update_where (\<lambda>m. mr_org m = orgID \<and> mr_user m = u) (\<lambda>m. m\<lparr>mr_role := role\<rparr>) (t_members d)\<rparr>"
      note sub = canAssign_subset [OF this(1)] canAssign_subset [OF this(2)]
      show ?thesis by (intro disjI2 conjI upd) (use sub in auto)
    qed simp
    ultimately show ?thesis by blast
  qed
qed

theorem ChangeRole_no_escalation_witness:
  "\<exists>mine old. member_holds demo_db acme ''ada'' mine \<and>
    PermMembersManage \<in> set (Permissions demo_catalog [mine]) \<and> member_holds demo_db acme ''bob'' old"
proof -
  have "fst (ChangeRole demo (as_user ''ada'') acme ''bob'' RoleAdmin (world_of demo_db)) =
     Inr \<lparr>m_OrgID = acme, m_UserID = ''bob'', m_Email = ''bob'', m_Role = RoleAdmin, m_JoinedAt = 2000, m_AddedBy = ''user:ada''\<rparr>"
    by code_simp
  from ChangeRole_no_escalation [OF this] show ?thesis
    by (auto simp: demo_def interfere_def world_of_def as_user_def memberActor_def From_def)
qed

section \<open>Owners\<close>


text \<open>The tables after Ada's account was made and Ada created an organisation.\<close>

definition created :: orgdb where
  "created = db (run_request demo (RCreate (as_user ''ada'') 5000 acme ''Acme'')
     (world_of (empty_db\<lparr>t_users := [user ''ada'']\<rparr>)))"

lemma created_reach: "org_reach demo created"
proof -
  have "org_reach demo (empty_db\<lparr>t_users := t_users empty_db @ [user ''ada'']\<rparr>)"
    by (rule org_reach.Auth [OF org_reach.Init auth_step.AddUser]) (simp add: empty_db_def)
  then show ?thesis unfolding created_def
    by (intro org_reach.Request [where ds = "[]"]) (simp_all add: world_of_def empty_db_def)
qed


lemma removeFromOrg_run:
  assumes "removeFromOrg s c t u orgID w = (Inr x, w')"
  obtains w0 r w1 where "db w0 = db (interfere w)" "remove_tx s u orgID (clock t) w0 = (Inr r, w1)" "db w' = db w1"
    "set (others w') \<subseteq> set (others w)"
proof -
  from assms obtain r w2 where tx: "InTx (remove_tx s u orgID (clock t)) w = (Inr r, w2)"
    and db: "db w' = db w2" "others w' = others w2"
    unfolding removeFromOrg_def bindC_run if_run retC_run audit_ev_def extC_run by auto
  have "set (others w') \<subseteq> set (others w)" using InTx_others [OF quiet_txs(12)] tx db(2) by (metis snd_conv)
  with tx that db(1) show thesis by (auto elim!: InTx_success)
qed

lemma removeFromOrg_post:
  assumes "removeFromOrg s c t u orgID w = (Inr x, w')" "orgs_inv (db (interfere w))"
  shows "no_member (db w') orgID u" "same_outside orgID (db (interfere w)) (db w')" "orgs_inv (db w')"
    "live_org (db w') orgID \<Longrightarrow> has_owner (db w') orgID"
    "live_org (db w') orgID \<Longrightarrow> member_holds (db (interfere w)) orgID u RoleOwner \<Longrightarrow> has_live_owner (db w') orgID"
proof -
  from assms(1) obtain w0 r w1 where w0: "db w0 = db (interfere w)"
    and body: "remove_tx s u orgID (clock t) w0 = (Inr r, w1)" and w1: "db w' = db w1"
    by (rule removeFromOrg_run)
  have inv: "orgs_inv (db w0)" using assms(2) w0 by simp
  note post = remove_tx_run [OF body inv, unfolded w0 w1 [symmetric]]
  have "rm_role r = RoleOwner" if "member_holds (db (interfere w)) orgID u RoleOwner"
    using that post(2) distinct_map_unique [OF tables_ok_member_keys] inv w0
    unfolding member_holds_def no_member_def orgs_inv_def by (metis (no_types, lifting))
  with post(1) show "no_member (db w') orgID u" "same_outside orgID (db (interfere w)) (db w')"
    "live_org (db w') orgID \<Longrightarrow> has_owner (db w') orgID"
    "live_org (db w') orgID \<Longrightarrow> member_holds (db (interfere w)) orgID u RoleOwner \<Longrightarrow> has_live_owner (db w') orgID"
    by (auto simp: removed_ok_def)
  show "orgs_inv (db w')"
    using remove_tx_owned [OF body inv] presD [OF tables_ok_txs(12) _ body] inv w1 by (simp add: orgs_inv_def)
qed

text \<open>
  C5: removing an account from an organisation. When \<open>removeFromOrg\<close> succeeds on tables that
  satisfy the invariant, the account is no longer a member of the organisation, nothing outside the
  organisation has changed, a live organisation still has an owner, and if the account was an owner of
  it, it has an owner whose account is live.
\<close>

theorem removeFromOrg_removes:
  assumes "fst (removeFromOrg s c t u orgID w) = Inr x" "orgs_inv (db (interfere w))"
  defines "d \<equiv> db (interfere w)" and "d' \<equiv> db (snd (removeFromOrg s c t u orgID w))"
  shows "no_member d' orgID u \<and> same_outside orgID d d' \<and> (live_org d' orgID \<longrightarrow> has_owner d' orgID) \<and>
    (live_org d' orgID \<longrightarrow> member_holds d orgID u RoleOwner \<longrightarrow> has_live_owner d' orgID)"
  using assms(1) removeFromOrg_post [OF _ assms(2)] unfolding d_def d'_def
  by (elim successE) simp

theorem removeFromOrg_removes_witness:
  "no_member (db (snd (removeFromOrg demo (as_user ''ada'') 5000 ''ada'' acme (world_of demo_db)))) acme ''ada'' \<and>
   has_live_owner (db (snd (removeFromOrg demo (as_user ''ada'') 5000 ''ada'' acme (world_of demo_db)))) acme"
proof -
  have 1: "fst (removeFromOrg demo (as_user ''ada'') 5000 ''ada'' acme (world_of demo_db)) = Inr ()" by code_simp
  have 2: "orgs_inv (db (interfere (world_of demo_db)))"
    by (simp add: interfere_def world_of_def demo_db_inv)
  have "live_org (db (snd (removeFromOrg demo (as_user ''ada'') 5000 ''ada'' acme (world_of demo_db)))) acme"
    by code_simp
  moreover have "member_holds (db (interfere (world_of demo_db))) acme ''ada'' RoleOwner" by code_simp
  ultimately show ?thesis using removeFromOrg_removes [OF 1 2] by blast
qed

section \<open>Removing an account\<close>

lemma same_outside_no_member: "same_outside orgID d d' \<Longrightarrow> oid \<noteq> orgID \<Longrightarrow> no_member d' oid u = no_member d oid u"
  unfolding same_outside_def no_member_def using filter_eq_mem [of "\<lambda>m. mr_org m \<noteq> orgID"] by metis

lemma remove_each_removes:
  assumes "remove_each s c u os w = (Inr [], w')" "others w = []" "orgs_inv (db w)"
    "oid \<in> fst ` set os \<or> no_member (db w) oid u"
  shows "no_member (db w') oid u"
  using assms
proof (induction os arbitrary: w)
  case (Cons a os)
  obtain orgID t where a: "a = (orgID, t)" by fastforce
  from Cons.prems(1) obtain r w1 errs where r: "removeFromOrg s c t u orgID w = (r, w1)"
    and errs: "remove_each s c u os w1 = (Inr errs, w')" "[] = (case r of Inl e \<Rightarrow> [e] | Inr _ \<Rightarrow> []) @ errs"
    unfolding a remove_each.simps bindC_run tryC_run retC_run by blast
  then have 2: "remove_each s c u os w1 = (Inr [], w')" by simp
  from r errs(2) have 1: "removeFromOrg s c t u orgID w = (Inr (), w1)" by (cases r) auto
  have int: "interfere w = w" using Cons.prems(2) by (rule interfere_none)
  have o1: "others w1 = []" using 1 Cons.prems(2) by (auto elim!: removeFromOrg_run)
  note post = removeFromOrg_post [OF 1, unfolded int, OF Cons.prems(3)]
  have "oid \<in> fst ` set os \<or> no_member (db w1) oid u"
    using Cons.prems(4) post(1) same_outside_no_member [OF post(2), of oid u] by (cases "oid = orgID") (auto simp: a)
  with Cons.IH [OF 2 o1 post(3)] show ?case by simp
qed (simp add: retC_def)

lemma SelectUserOrgs_run:
  assumes "SelectUserOrgs u w = (Inr orgs, w')" "tables_ok (db w)" "m \<in> set (t_members (db w))" "mr_user m = u"
  shows "mr_org m \<in> uo_OrgID ` set orgs" "db w' = db w" "others w' = others w"
proof -
  show "db w' = db w" "others w' = others w" using readsD [OF reads_store(12) assms(1)] by simp_all
  from assms(2,3) obtain o1 where "o1 \<in> set (t_orgs (db w))" "o_ID o1 = mr_org m"
    by (auto simp: tables_defs)
  then have "to_UserOrg (db w) m o1 \<in> set orgs"
    using assms(1,3,4) unfolding SelectUserOrgs_def query_run
    by (auto intro!: exI [of _ m] image_eqI [of _ _ o1])
  moreover have "uo_OrgID (to_UserOrg (db w) m o1) = mr_org m"
    using \<open>o_ID o1 = mr_org m\<close> by (simp add: to_UserOrg_def)
  ultimately show "mr_org m \<in> uo_OrgID ` set orgs" by force
qed

lemma fst_clocks: "fst ` set (map (\<lambda>(o1, i). (uo_OrgID o1, clocks i)) (zip orgs [0..<length orgs])) = uo_OrgID ` set orgs"
proof -
  have "map fst (map (\<lambda>(o1, i). (uo_OrgID o1, clocks i)) (zip orgs [0..<length orgs])) = map uo_OrgID orgs"
    by (rule nth_equalityI) simp_all
  then show ?thesis by (metis list.set_map)
qed

text \<open>
  a deleted account leaves every organisation. When \<open>RemoveAccount\<close> succeeds without another
  session changing the tables meanwhile, the account is a member of no organisation, deleted ones
  included.
\<close>

theorem RemoveAccount_leaves_nothing:
  assumes "fst (RemoveAccount s c clocks u w) = Inr ()" "others w = []" "orgs_inv (db w)"
  shows "\<forall>m \<in> set (t_members (db (snd (RemoveAccount s c clocks u w)))). mr_user m \<noteq> u"
proof -
  obtain w' where run: "RemoveAccount s c clocks u w = (Inr (), w')" and w': "snd (RemoveAccount s c clocks u w) = w'"
    using assms(1) by (rule successE)
  from run obtain orgs w1 where 1: "SelectUserOrgs u w = (Inr orgs, w1)"
    and 2: "remove_each s c u (map (\<lambda>(o1, i). (uo_OrgID o1, clocks i)) (zip orgs [0..<length orgs])) w1 = (Inr [], w')"
    unfolding RemoveAccount_def by (auto simp: run_elims)
  have ok: "tables_ok (db w)" using assms(3) by (simp add: orgs_inv_def)
  have r1: "db w1 = db w" "others w1 = []" using readsD [OF reads_store(12) 1] assms(2) by simp_all
  have "no_member (db w') oid u" for oid
  proof (rule remove_each_removes [OF 2 r1(2)])
    show "orgs_inv (db w1)" using r1(1) assms(3) by simp
    show "oid \<in> fst ` set (map (\<lambda>(o1, i). (uo_OrgID o1, clocks i)) (zip orgs [0..<length orgs])) \<or> no_member (db w1) oid u"
      using SelectUserOrgs_run(1) [OF 1 ok] r1(1) unfolding fst_clocks by (auto simp: no_member_def)
  qed
  then show ?thesis unfolding w' by (auto simp: no_member_def)
qed

theorem RemoveAccount_leaves_nothing_witness:
  "''ada'' \<notin> mr_user ` set (t_members (db (snd (RemoveAccount demo (as_user ''ada'') (\<lambda>_. 5000) ''ada'' (world_of demo_db)))))"
proof -
  have 1: "fst (RemoveAccount demo (as_user ''ada'') (\<lambda>_. 5000) ''ada'' (world_of demo_db)) = Inr ()" by code_simp
  have 2: "others (world_of demo_db) = []" by (simp add: world_of_def)
  have 3: "orgs_inv (db (world_of demo_db))" by (simp add: world_of_def demo_db_inv)
  from RemoveAccount_leaves_nothing [OF 1 2 3] show ?thesis by auto
qed

end
