(* ===== verification/Orgs_Requests.thy ===== *)
theory Orgs_Requests
  imports Orgs_Props
begin

text \<open>
  Properties of invitations, renaming, deletion, restoring and purging, and of the membership check
  itself.
\<close>

section \<open>Accepting an invitation\<close>

lemma requireSession_Inr:
  "requireSession c = Inr uid \<Longrightarrow> (\<exists>a. From c = Some a \<and> a_Kind a = KindUser \<and> a_ID a = uid \<and> uid \<noteq> []) \<and>
     (\<forall>p. PrincipalFrom c = Some p \<longrightarrow> \<not> APIKey p)"
  by (auto simp: requireSession_def userID_def bind_res_Inr split: option.splits if_splits)

lemma SelectUserEmail_run:
  assumes "SelectUserEmail u w = (Inr (em, n, vf), w')"
  shows "db w' = db w" "\<exists>r \<in> set (t_users (db w)). u_id r = u \<and> u_deleted_at r = None \<and>
    u_email_normalized r = n \<and> vf = (u_verified_at r \<noteq> None)"
  using assms unfolding SelectUserEmail_def query_run found_def
  by (auto split: option.splits dest!: find_SomeD)

lemma checkInviter_run:
  assumes "checkInviter s iv w = (Inr x, w')"
  shows "db w' = db w" "\<exists>inviter mine. i_InvitedBy iv = ''user:'' @ inviter \<and> live_user (db w) inviter \<and>
    member_holds (db w) (i_OrgID iv) inviter mine \<and> PermMembersManage \<in> set (Permissions (s_catalog s) [mine]) \<and>
    canAssign s mine (i_Role iv)"
proof -
  show "db w' = db w" using readsD [OF reads_service(8) assms] by simp
  from assms obtain inviter em w1 role w2 where "cut_prefix (i_InvitedBy iv) ''user:'' = Some inviter"
    and 1: "SelectUserEmail inviter w = (Inr em, w1)" and 2: "MemberRole (i_OrgID iv) inviter w1 = (Inr role, w2)"
    and "PermMembersManage \<in> set (Permissions (s_catalog s) [role])" "canAssign s role (i_Role iv)"
    unfolding checkInviter_def case_option_run failC_run if_run bindC_run tryC_run case_sum_run by auto
  moreover obtain a b c where "em = (a, b, c)" by (cases em)
  then have "live_user (db w) inviter" "db w1 = db w"
    using SelectUserEmail_run [of inviter w a b c w1] 1 by (auto simp: live_user_def)
  moreover have "member_holds (db w1) (i_OrgID iv) inviter role" using members.lookup_sound [OF 2] .
  ultimately show "\<exists>inviter mine. i_InvitedBy iv = ''user:'' @ inviter \<and> live_user (db w) inviter \<and>
    member_holds (db w) (i_OrgID iv) inviter mine \<and> PermMembersManage \<in> set (Permissions (s_catalog s) [mine]) \<and>
    canAssign s mine (i_Role iv)"
    by (auto simp: cut_prefix_Some)
qed

lemma SelectInvitation_run:
  assumes "SelectInvitation orgID iid w = (Inr iv, w')"
  shows "db w' = db w" "iv \<in> set (t_invitations (db w))" "i_OrgID iv = orgID" "i_ID iv = iid"
  using assms unfolding SelectInvitation_def query_run found_def
  by (auto split: option.splits dest!: find_SomeD)

lemma SelectOrg_run:
  assumes "SelectOrg orgID l w = (Inr o1, w')"
  shows "db w' = db w" "o1 \<in> set (t_orgs (db w))" "o_ID o1 = orgID" "o_DeletedAt o1 = None"
  using assms unfolding SelectOrg_def query_run found_def
  by (auto split: option.splits dest!: find_SomeD)

definition accepted_row :: "Invitation \<Rightarrow> string \<Rightarrow> time \<Rightarrow> member_row" where
  "accepted_row iv uid now = \<lparr>mr_org = i_OrgID iv, mr_user = uid, mr_role = i_Role iv, mr_joined = now,
     mr_by = ''invitation:'' @ i_ID iv\<rparr>"

lemma accept_tx_run:
  assumes "accept_tx s uid n vf h seen now w = (Inr ((o1, role), iv), w')"
  shows "iv \<in> set (t_invitations (db w))" "i_TokenHash iv = h" "PendingAt iv now" "vf" "n = i_NormalizedEmail iv"
    "i_Role iv = role" "HasRole (s_catalog s) role" "o1 \<in> set (t_orgs (db w))" "o_ID o1 = i_OrgID iv" "o_DeletedAt o1 = None"
    "\<exists>inviter mine. i_InvitedBy iv = ''user:'' @ inviter \<and> live_user (db w) inviter \<and>
      member_holds (db w) (i_OrgID iv) inviter mine \<and> PermMembersManage \<in> set (Permissions (s_catalog s) [mine]) \<and>
      canAssign s mine role"
    "no_member (db w) (i_OrgID iv) uid"
    "db w' = (db w)\<lparr>t_members := t_members (db w) @ [accepted_row iv uid now],
       t_invitations := update_where (\<lambda>i. i_ID i = i_ID iv \<and> open_inv i) (\<lambda>i. i\<lparr>i_AcceptedAt := Some now\<rparr>) (t_invitations (db w))\<rparr>"
proof -
  from assms obtain w1 w2 w3 w4 where
    1: "SelectOrg (i_OrgID seen) True w = (Inr o1, w1)" and 2: "SelectInvitation (i_OrgID seen) (i_ID seen) w1 = (Inr iv, w2)"
    and c: "i_TokenHash iv = h" "PendingAt iv now" "vf" "n = i_NormalizedEmail iv" "i_Role iv = role" "HasRole (s_catalog s) role"
    and 3: "checkInviter s iv w2 = (Inr (), w3)"
    and 4: "InsertMember \<lparr>m_OrgID = o_ID o1, m_UserID = uid, m_Email = [], m_Role = i_Role iv,
                    m_JoinedAt = now, m_AddedBy = ''invitation:'' @ i_ID iv\<rparr> w3 = (Inr (), w4)"
    and 5: "AcceptInvitation_sql (i_ID iv) now w4 = (Inr (), w')"
    unfolding accept_tx_def bindC_run tryC_run case_sum_run if_run retC_run failC_run by auto
  note o1 = SelectOrg_run [OF 1] and iv = SelectInvitation_run [OF 2] and ci = checkInviter_run [OF 3]
    and im = InsertMember_run [OF 4]
  have db: "db w1 = db w" "db w2 = db w" "db w3 = db w" using o1(1) iv(1) ci(1) by simp_all
  show "i_TokenHash iv = h" "PendingAt iv now" "vf" "n = i_NormalizedEmail iv" "i_Role iv = role" "HasRole (s_catalog s) role"
    by (fact c)+
  show "iv \<in> set (t_invitations (db w))" using iv(2) db by simp
  show "o1 \<in> set (t_orgs (db w))" "o_ID o1 = i_OrgID iv" "o_DeletedAt o1 = None" using o1 iv(3) by simp_all
  show "\<exists>inviter mine. i_InvitedBy iv = ''user:'' @ inviter \<and> live_user (db w) inviter \<and>
      member_holds (db w) (i_OrgID iv) inviter mine \<and> PermMembersManage \<in> set (Permissions (s_catalog s) [mine]) \<and>
      canAssign s mine role"
    using ci(2) db c(5) by simp
  show "no_member (db w) (i_OrgID iv) uid" using im(2) db o1(3) iv(3) by (simp add: no_member_def)
  show "db w' = (db w)\<lparr>t_members := t_members (db w) @ [accepted_row iv uid now],
       t_invitations := update_where (\<lambda>i. i_ID i = i_ID iv \<and> open_inv i) (\<lambda>i. i\<lparr>i_AcceptedAt := Some now\<rparr>) (t_invitations (db w))\<rparr>"
    using 5 im(1) db o1(3) iv(3) unfolding AcceptInvitation_sql_def stmt_run by (auto simp: accepted_row_def)
qed

lemma AcceptInvitation_run:
  assumes "AcceptInvitation s c t token w = (Inr m, w')"
  obtains uid n vf seen iv w0 w1 where "requireSession c = Inr uid"
    "\<exists>r \<in> set (t_users (db w)). u_id r = uid \<and> u_deleted_at r = None \<and> u_email_normalized r = n \<and> vf = (u_verified_at r \<noteq> None)"
    "db w0 = db (interfere w)"
    "accept_tx s uid n vf (HashToken (s_lib s) (TrimSpace token)) seen (clock t) w0 = (Inr (m, iv), w1)" "db w' = db w1"
proof -
  from assms obtain uid em n vf w1 seen w2 iv w3 where uid: "requireSession c = Inr uid"
    and 1: "SelectUserEmail uid w = (Inr (em, n, vf), w1)"
    and 2: "SelectInvitationByTokenHash (HashToken (s_lib s) (TrimSpace token)) False w1 = (Inr seen, w2)"
    and 3: "InTx (accept_tx s uid n vf (HashToken (s_lib s) (TrimSpace token)) seen (clock t)) w2 = (Inr (m, iv), w3)"
    and db: "db w' = db w3"
    unfolding AcceptInvitation_def bindC_run liftC_run Let_def if_run failC_run tryC_run case_sum_run case_prod_run
      mapErrC_run audit_ev_def extC_run retC_run by auto
  have "db (interfere w2) = db (interfere w)"
    using reads_interfere(1) [OF reads_store(18) 2] reads_interfere(1) [OF reads_store(16) 1] by simp
  with 3 that [OF uid SelectUserEmail_run(2) [OF 1]] db show thesis by (auto elim!: InTx_success)
qed

text \<open>
  C3: who can join through an invitation. When \<open>AcceptInvitation\<close> succeeds, the caller signed in
  with a session, not an API key, to a live account whose verified address is the invited one; the
  tables its transaction found hold a pending invitation with the token's hash to a live organisation
  the caller is not in; the inviter still has a live account and is still a member who may manage members
  and assign the invitation's role, so the role grants no permission the inviter lacks; and the request
  adds exactly that member and closes the invitation.
\<close>

theorem AcceptInvitation_safe:
  assumes "fst (AcceptInvitation s c t token w) = Inr (o1, role)"
  defines "d \<equiv> db (interfere w)"
  shows "\<exists>uid iv inviter mine. From c \<noteq> None \<and> a_ID (the (From c)) = uid \<and> (\<forall>p. PrincipalFrom c = Some p \<longrightarrow> \<not> APIKey p) \<and>
    iv \<in> set (t_invitations d) \<and> i_TokenHash iv = HashToken (s_lib s) (TrimSpace token) \<and> PendingAt iv (clock t) \<and>
    (\<exists>r \<in> set (t_users (db w)). u_id r = uid \<and> u_deleted_at r = None \<and> u_verified_at r \<noteq> None \<and>
       u_email_normalized r = i_NormalizedEmail iv) \<and>
    i_Role iv = role \<and> o_ID o1 = i_OrgID iv \<and> live_org d (i_OrgID iv) \<and> no_member d (i_OrgID iv) uid \<and>
    i_InvitedBy iv = ''user:'' @ inviter \<and> live_user d inviter \<and> member_holds d (i_OrgID iv) inviter mine \<and>
    PermMembersManage \<in> set (Permissions (s_catalog s) [mine]) \<and>
    set (Permissions (s_catalog s) [role]) \<subseteq> set (Permissions (s_catalog s) [mine]) \<and> (role = RoleOwner \<longrightarrow> mine = RoleOwner) \<and>
    db (snd (AcceptInvitation s c t token w)) = d\<lparr>t_members := t_members d @ [accepted_row iv uid (clock t)],
       t_invitations := update_where (\<lambda>i. i_ID i = i_ID iv \<and> open_inv i) (\<lambda>i. i\<lparr>i_AcceptedAt := Some (clock t)\<rparr>) (t_invitations d)\<rparr>"
proof -
  obtain w' where run: "AcceptInvitation s c t token w = (Inr (o1, role), w')" "snd (AcceptInvitation s c t token w) = w'"
    using assms(1) by (rule successE)
  from run(1) obtain uid n vf seen iv w0 w1 where u: "requireSession c = Inr uid"
    "\<exists>r \<in> set (t_users (db w)). u_id r = uid \<and> u_deleted_at r = None \<and> u_email_normalized r = n \<and> vf = (u_verified_at r \<noteq> None)"
    and w0: "db w0 = d"
    and tx: "accept_tx s uid n vf (HashToken (s_lib s) (TrimSpace token)) seen (clock t) w0 = (Inr ((o1, role), iv), w1)"
    and w1: "db w' = db w1"
    unfolding d_def by (rule AcceptInvitation_run)
  note a = accept_tx_run [OF tx, unfolded w0]
  from a(11) obtain inviter mine where i: "i_InvitedBy iv = ''user:'' @ inviter" "live_user d inviter"
    "member_holds d (i_OrgID iv) inviter mine" "PermMembersManage \<in> set (Permissions (s_catalog s) [mine])" "canAssign s mine role"
    by blast
  have live: "live_org d (i_OrgID iv)" using a(8-10) by (auto simp: live_org_def)
  have mail: "\<exists>r \<in> set (t_users (db w)). u_id r = uid \<and> u_deleted_at r = None \<and> u_verified_at r \<noteq> None \<and>
       u_email_normalized r = i_NormalizedEmail iv" using u(2) a(4,5) by blast
  have sess: "From c \<noteq> None" "a_ID (the (From c)) = uid" "\<forall>p. PrincipalFrom c = Some p \<longrightarrow> \<not> APIKey p"
    using requireSession_Inr [OF u(1)] by auto
  show ?thesis
    by (rule exI [of _ uid], rule exI [of _ iv], rule exI [of _ inviter], rule exI [of _ mine])
      (use sess a(1-3,6,9,12,13) mail live i canAssign_subset [OF i(5)] run(2) w1 in simp)
qed

definition invited :: orgdb where
  "invited = demo_db\<lparr>t_invitations := [\<lparr>i_ID = ''inv_1'', i_OrgID = acme, i_Email = ''eve'', i_NormalizedEmail = ''eve'',
     i_Role = RoleMember, i_TokenHash = ''tok'', i_InvitedBy = ''user:ada'', i_CreatedAt = 3000, i_ExpiresAt = 9000000,
     i_AcceptedAt = None, i_RevokedAt = None, i_SentAt = 3000\<rparr>]\<rparr>"

lemma demo_accept:
  "fst (AcceptInvitation demo (as_user ''eve'') 5000 '' tok'' (world_of invited)) = Inr (acme_org, RoleMember)"
  by code_simp

theorem AcceptInvitation_safe_witness:
  "\<exists>uid iv. uid = ''eve'' \<and> iv \<in> set (t_invitations invited) \<and> PendingAt iv (clock 5000) \<and>
     t_members (db (snd (AcceptInvitation demo (as_user ''eve'') 5000 '' tok'' (world_of invited)))) =
       t_members invited @ [accepted_row iv uid (clock 5000)]"
  using AcceptInvitation_safe [OF demo_accept]
  by (auto simp: interfere_def world_of_def as_user_def From_def)



section \<open>The membership check\<close>

text \<open>
  C6: what passing the membership check of an org-scoped operation means. The actor is a signed-in
  user or a service account authenticated by its own API key; the tables hold a membership of the live
  organisation (or the enabled service account's one role in it) at that moment; that role grants the
  permission; a service account only reaches the organisation its principal names; and the context the
  operation goes on with acts in that organisation with no permission beyond the role's.
\<close>

theorem RequireMember_sound:
  assumes "fst (RequireMember c resourceMemberships cat orgID perm w) = Inr (c', m)"
  shows "\<exists>a role. memberActor c = Some a \<and> resource_holds (db w) orgID (a_ID a) role \<and>
    perm \<in> set (Permissions cat [role]) \<and> om_Role m = role \<and>
    (a_Kind a = KindService \<longrightarrow> (\<exists>p. PrincipalFrom c = Some p \<and> APIKey p \<and> p_ServiceAccountID p = a_ID a \<and> p_OrgID p = orgID)) \<and>
    From c' \<noteq> None \<and> a_OrgID (the (From c')) = orgID \<and> a_ID (the (From c')) = a_ID a \<and>
    set (a_Permissions (the (From c'))) \<subseteq> set (Permissions cat [role])"
proof -
  obtain w' where "RequireMember c resourceMemberships cat orgID perm w = (Inr (c', m), w')"
    using assms by (rule successE)
  from resources.RequireMember_Inr [OF this] obtain a su where a: "memberActor c = Some a"
    "resource_holds (db w) orgID (a_ID a) (om_Role m)" "perm \<in> set (allowed_perms c cat (om_Role m))"
    "a_Kind a = KindService \<longrightarrow> (\<exists>p. PrincipalFrom c = Some p \<and> p_OrgID p = orgID)"
    "c' = With c (a\<lparr>a_OrgID := orgID, a_Permissions := allowed_perms c cat (om_Role m), a_StepUp := su\<rparr>)"
    by blast
  with memberActor_Some [OF a(1)] allowed_perms_subset [of c cat "om_Role m"] show ?thesis
    by (auto simp: With_def From_def)
qed

definition with_bot :: orgdb where
  "with_bot = demo_db\<lparr>t_service_accounts := [\<lparr>sa_id = ''svc_bot'', sa_org = Some acme, sa_roles = [RoleMember], sa_disabled_at = None\<rparr>]\<rparr>"

definition as_bot :: ctx where
  "as_bot = WithPrincipal Background (zero_Principal\<lparr>p_APIKeyID := ''key_1'', p_ServiceAccountID := ''svc_bot'', p_OrgID := acme\<rparr>)"

theorem RequireMember_sound_witness:
  "\<exists>role. resource_holds with_bot acme ''svc_bot'' role \<and> PermOrgRead \<in> set (Permissions demo_catalog [role])"
proof -
  have "isl (fst (RequireMember as_bot resourceMemberships demo_catalog acme PermOrgRead (world_of with_bot))) = False"
    by code_simp
  then obtain c' m where "fst (RequireMember as_bot resourceMemberships demo_catalog acme PermOrgRead (world_of with_bot)) = Inr (c', m)"
    by (cases "fst (RequireMember as_bot resourceMemberships demo_catalog acme PermOrgRead (world_of with_bot))") auto
  moreover have "memberActor as_bot = Some \<lparr>a_Kind = KindService, a_ID = ''svc_bot'', a_Label = [], a_OrgID = [],
     a_Permissions = [], a_StepUp = []\<rparr>" by code_simp
  ultimately show ?thesis using RequireMember_sound [of as_bot demo_catalog acme PermOrgRead "world_of with_bot"]
    by (auto simp: world_of_def)
qed

text \<open>
  C7: organisations are invisible to outsiders. For an actor without a membership, an organisation that
  does not exist, a deleted one, one that others are members of and a malformed ID give the same answer,
  whatever permission is asked for, and change nothing.
\<close>

theorem RequireMember_invisible:
  assumes "memberActor c = Some a" "faults w = []" "\<forall>role. \<not> member_holds (db w) orgID (a_ID a) role"
  shows "RequireMember c MemberRole cat orgID perm w = (Inl (Err ErrOrgNotFound), w)"
  using assms by (rule members.RequireMember_stranger)

theorem RequireMember_invisible_witness:
  "RequireMember (as_user ''eve'') MemberRole demo_catalog acme PermOrgDelete (world_of demo_db) =
     (Inl (Err ErrOrgNotFound), world_of demo_db)"
proof (rule RequireMember_invisible)
  show "memberActor (as_user ''eve'') = Some (the (From (as_user ''eve'')))"
    by (simp add: as_user_def memberActor_def From_def)
qed (simp_all add: world_of_def as_user_def From_def member_holds_def demo_db_def row_def)

text \<open>
  two-factor roles and API keys. A session that has not verified a second factor gets no permission
  from a role that requires one, and neither does an API key; a key with scopes gets only permissions in
  its scopes, and a key is never told to step up.
\<close>

theorem Authorize_restricts:
  assumes "Authorize c cat m perm = (c', Inr ())" "PrincipalFrom c = Some p"
  shows "(om_Role m \<in> set (c_mfaRoles cat) \<longrightarrow> p_MFAVerified p) \<and>
    (APIKey p \<longrightarrow> p_Scopes p \<noteq> [] \<longrightarrow> perm \<in> set (p_Scopes p) \<and> set (a_Permissions (the (From c'))) \<subseteq> set (p_Scopes p)) \<and>
    (APIKey p \<longrightarrow> a_StepUp (the (From c')) = [])"
proof -
  from assms(1) obtain a where a: "memberActor c = Some a" and perm: "perm \<in> set (allowed_perms c cat (om_Role m))"
    "\<exists>su. c' = With c (a\<lparr>a_OrgID := om_OrgID m, a_Permissions := allowed_perms c cat (om_Role m), a_StepUp := su\<rparr>)"
    by (rule Authorize_Inr) blast
  have "perm \<in> set (fst (PermissionsFor cat [om_Role m] (p_MFAVerified p)))"
    using perm(1) assms(2) Restrict_fst_subset
    by (auto simp: allowed_perms_def Let_def case_prod_beta dest!: subsetD [OF Restrict_fst_subset])
  then have "\<not> (om_Role m \<in> set (c_mfaRoles cat) \<and> \<not> p_MFAVerified p)"
    unfolding set_PermissionsFor by auto
  moreover have "set (allowed_perms c cat (om_Role m)) \<subseteq> set (p_Scopes p)" if "APIKey p" "p_Scopes p \<noteq> []"
    using that assms(2) by (auto simp: allowed_perms_def Let_def Restrict_def split: prod.splits)
  moreover have "a_StepUp (the (From c')) = []" if "APIKey p"
    using that assms by (auto simp: Authorize_def Let_def Restrict_def With_def From_def
        split: option.splits if_splits prod.splits sum.splits)
  ultimately show ?thesis using perm by (auto simp: With_def From_def)
qed

definition scoped_key :: ctx where
  "scoped_key = WithPrincipal Background (zero_Principal\<lparr>p_APIKeyID := ''key_2'', p_UserID := ''ada'',
     p_Scopes := [PermOrgRead], p_Permissions := [PermOrgRead]\<rparr>)"

theorem Authorize_restricts_witness:
  "set (a_Permissions (the (From (fst (Authorize scoped_key demo_catalog
     \<lparr>om_OrgID = acme, om_UserID = ''ada'', om_Role = RoleOwner\<rparr> PermOrgRead))))) \<subseteq> {PermOrgRead}"
proof -
  let ?m = "\<lparr>om_OrgID = acme, om_UserID = ''ada'', om_Role = RoleOwner\<rparr>"
  have "snd (Authorize scoped_key demo_catalog ?m PermOrgRead) = Inr ()" by code_simp
  then have "Authorize scoped_key demo_catalog ?m PermOrgRead = (fst (Authorize scoped_key demo_catalog ?m PermOrgRead), Inr ())"
    by (metis prod.collapse)
  moreover have "PrincipalFrom scoped_key = Some (zero_Principal\<lparr>p_APIKeyID := ''key_2'', p_UserID := ''ada'',
     p_Scopes := [PermOrgRead], p_Permissions := [PermOrgRead]\<rparr>)" by code_simp
  ultimately show ?thesis using Authorize_restricts by (fastforce simp: APIKey_def)
qed

end
