(* ===== verification/Orgs_Lifecycle.thy ===== *)
theory Orgs_Lifecycle
  imports Orgs_Requests
begin

text \<open>
  Properties of an organisation's life: creating, renaming, deleting, restoring and purging it, and
  inviting people to it.
\<close>

section \<open>Renaming\<close>

lemma UpdateOrgName_run:
  assumes "UpdateOrgName orgID name v now w = (Inr o2, w')"
  shows "\<exists>o1 \<in> set (t_orgs (db w)). o_ID o1 = orgID \<and> o_Version o1 = v \<and> o_DeletedAt o1 = None \<and>
      o2 = o1\<lparr>o_Name := name, o_UpdatedAt := now, o_Version := v + 1\<rparr>"
    "db w' = (db w)\<lparr>t_orgs := update_where (\<lambda>r. o_ID r = orgID \<and> o_Version r = v \<and> o_DeletedAt r = None)
      (\<lambda>r. r\<lparr>o_Name := name, o_UpdatedAt := now, o_Version := o_Version r + 1\<rparr>) (t_orgs (db w))\<rparr>"
  using assms unfolding UpdateOrgName_def stmt_run Let_def
  by (auto split: option.splits if_splits dest!: find_SomeD)

lemma rename_tx_run:
  assumes "rename_tx s c t orgID name v w = (Inr (o2, me), w')"
  shows "\<exists>o1 \<in> set (t_orgs (db w)). o_ID o1 = orgID \<and> o_Version o1 = v \<and> o_DeletedAt o1 = None \<and>
      o2 = o1\<lparr>o_Name := name, o_UpdatedAt := clock t, o_Version := v + 1\<rparr>"
    "db w' = (db w)\<lparr>t_orgs := update_where (\<lambda>r. o_ID r = orgID \<and> o_Version r = v \<and> o_DeletedAt r = None)
      (\<lambda>r. r\<lparr>o_Name := name, o_UpdatedAt := clock t, o_Version := o_Version r + 1\<rparr>) (t_orgs (db w))\<rparr>"
    "memberActor c \<noteq> None" "member_holds (db w) orgID (caller c) (om_Role me)"
    "PermOrgUpdate \<in> set (Permissions (s_catalog s) [om_Role me])"
proof -
  from assms obtain o1 w1 where 1: "lockOrg s c orgID PermOrgUpdate w = (Inr (o1, me), w1)"
    and 2: "UpdateOrgName orgID name v (clock t) w1 = (Inr o2, w')"
    unfolding rename_tx_def bindC_run case_prod_run retC_run by auto
  note l = lockOrg_run [OF 1] and u = UpdateOrgName_run [OF 2, unfolded lockOrg_run(1) [OF 1]]
  show "\<exists>o1 \<in> set (t_orgs (db w)). o_ID o1 = orgID \<and> o_Version o1 = v \<and> o_DeletedAt o1 = None \<and>
      o2 = o1\<lparr>o_Name := name, o_UpdatedAt := clock t, o_Version := v + 1\<rparr>" by (rule u(1))
  show "db w' = (db w)\<lparr>t_orgs := update_where (\<lambda>r. o_ID r = orgID \<and> o_Version r = v \<and> o_DeletedAt r = None)
      (\<lambda>r. r\<lparr>o_Name := name, o_UpdatedAt := clock t, o_Version := o_Version r + 1\<rparr>) (t_orgs (db w))\<rparr>" by (rule u(2))
  show "memberActor c \<noteq> None" "member_holds (db w) orgID (caller c) (om_Role me)"
    "PermOrgUpdate \<in> set (Permissions (s_catalog s) [om_Role me])"
    using l(5) allowed_perms_subset by (auto dest!: subsetD [OF allowed_perms_subset])
qed

text \<open>The tables after a rename are those its transaction left.\<close>

lemma Rename_db:
  "(\<exists>c' n w0 x w1. NormalizeName name = Inr n \<and> db w0 = db (interfere w) \<and> acting c c' \<and>
      rename_tx s c' t orgID n v w0 = (Inr x, w1) \<and> db (snd (Rename s c t orgID name v w)) = db w1) \<or>
   db (snd (Rename s c t orgID name v w)) \<in> {db w, db (interfere w)}"
proof -
  let ?rm = "RequireMember c MemberRole (s_catalog s) orgID PermOrgUpdate"
  obtain r1 w1 where 1: "?rm w = (r1, w1)" by fastforce
  have db1: "db w1 = db w" "db (interfere w1) = db (interfere w)"
    using readsD [OF reads_service(1) 1] reads_interfere [OF reads_service(1) 1] by simp_all
  show ?thesis
  proof (cases r1)
    case (Inl e)
    with 1 db1 show ?thesis by (simp add: Rename_def bindC_def mapErrC_def)
  next
    case (Inr p)
    then obtain c' me where r1: "r1 = Inr (c', me)" by (cases p) auto
    show ?thesis
    proof (cases "NormalizeName name")
      case (Inl e)
      with 1 r1 db1 show ?thesis by (simp add: Rename_def bindC_def mapErrC_def liftC_def failC_def)
    next
      case n: (Inr n)
      obtain r2 w2 where 2: "InTx (rename_tx s c' t orgID n v) w1 = (r2, w2)" by fastforce
      have "db (snd (Rename s c t orgID name v w)) = db w2"
        using 1 r1 n 2 by (auto simp: Rename_def bindC_def mapErrC_def liftC_def retC_def audit_ev_def extC_def
            split: sum.splits prod.splits)
      with 2 show ?thesis
      proof (cases rule: InTx_db_cases)
        case 1
        with \<open>db (snd (Rename s c t orgID name v w)) = db w2\<close> db1 show ?thesis by simp
      next
        case (2 w0 x w3)
        with \<open>db (snd (Rename s c t orgID name v w)) = db w2\<close> db1(2) n RequireMember_acting(1) [OF 1 [unfolded r1]]
        show ?thesis
          by (intro disjI1 exI [of _ c'] exI [of _ n] exI [of _ w0] exI [of _ x] exI [of _ w3] conjI) simp_all
      qed
    qed
  qed
qed

lemma Rename_matches:
  assumes "fst (Rename s c t orgID name v w) = Inr (o2, role)"
  shows "(\<exists>o1 \<in> set (t_orgs (db (interfere w))). o_ID o1 = orgID \<and> o_Version o1 = v \<and> o_DeletedAt o1 = None \<and>
        o2 = o1\<lparr>o_Name := TrimSpace name, o_UpdatedAt := clock t, o_Version := v + 1\<rparr>) \<and>
      member_holds (db (interfere w)) orgID (caller c) role \<and> PermOrgUpdate \<in> set (Permissions (s_catalog s) [role])"
proof -
  obtain w' where "Rename s c t orgID name v w = (Inr (o2, role), w')" using assms by (rule successE)
  then obtain c' me0 w1 n me w2 where
    1: "RequireMember c MemberRole (s_catalog s) orgID PermOrgUpdate w = (Inr (c', me0), w1)"
    and n: "NormalizeName name = Inr n" and 2: "InTx (rename_tx s c' t orgID n v) w1 = (Inr (o2, me), w2)"
    and role: "role = om_Role me"
    unfolding Rename_def bindC_run mapErrC_run case_prod_run liftC_run retC_run by auto
  from 2 obtain w0 w3 where w0: "db w0 = db (interfere w1)" and tx: "rename_tx s c' t orgID n v w0 = (Inr (o2, me), w3)"
    by (rule InTx_success)
  have d: "db w0 = db (interfere w)" using w0 reads_interfere(1) [OF reads_service(1) 1] by simp
  show ?thesis
    using rename_tx_run(1,3-5) [OF tx, unfolded d] role NormalizeName_Inr [OF n]
      acting_caller [OF RequireMember_acting(1) [OF 1]] by simp
qed

lemma Rename_stale:
  assumes "\<forall>o1 \<in> set (t_orgs (db (interfere w))). o_ID o1 = orgID \<longrightarrow> o_DeletedAt o1 = None \<longrightarrow> o_Version o1 \<noteq> v"
  shows "db (snd (Rename s c t orgID name v w)) \<in> {db w, db (interfere w)}"
proof -
  have "\<not> (\<exists>c' n w0 x w1. NormalizeName name = Inr n \<and> db w0 = db (interfere w) \<and> acting c c' \<and>
    rename_tx s c' t orgID n v w0 = (Inr x, w1) \<and> db (snd (Rename s c t orgID name v w)) = db w1)"
  proof (intro notI, elim exE conjE)
    fix c' n w0 x w1 assume "db w0 = db (interfere w)" "rename_tx s c' t orgID n v w0 = (Inr x, w1)"
    then show False using rename_tx_run(1) [of s c' t orgID n v w0 "fst x" "snd x" w1] assms by auto
  qed
  with Rename_db show ?thesis by blast
qed

text \<open>
  a rename never overwrites a change the caller has not seen. If it succeeds, the live organisation
  had the version the caller read in the tables the transaction found, and comes back with that version
  plus one and the trimmed name; and if no live organisation with that ID has that version then, whatever
  else happens, the tables stay as the other sessions left them.
\<close>

theorem Rename_versioned:
  "(fst (Rename s c t orgID name v w) = Inr (o2, role) \<longrightarrow>
      (\<exists>o1 \<in> set (t_orgs (db (interfere w))). o_ID o1 = orgID \<and> o_Version o1 = v \<and> o_DeletedAt o1 = None \<and>
        o2 = o1\<lparr>o_Name := TrimSpace name, o_UpdatedAt := clock t, o_Version := v + 1\<rparr>) \<and>
      member_holds (db (interfere w)) orgID (caller c) role \<and> PermOrgUpdate \<in> set (Permissions (s_catalog s) [role])) \<and>
   ((\<forall>o1 \<in> set (t_orgs (db (interfere w))). o_ID o1 = orgID \<longrightarrow> o_DeletedAt o1 = None \<longrightarrow> o_Version o1 \<noteq> v) \<longrightarrow>
      db (snd (Rename s c t orgID name v w)) \<in> {db w, db (interfere w)})"
  using Rename_matches Rename_stale by blast

theorem Rename_versioned_witness:
  "(\<exists>o1 \<in> set (t_orgs demo_db). o_ID o1 = acme \<and> o_Version o1 = 1) \<and>
   db (snd (Rename demo (as_user ''ada'') 5000 acme ''Apex'' 7 (world_of demo_db))) = demo_db"
proof
  have "fst (Rename demo (as_user ''ada'') 5000 acme '' Apex '' 1 (world_of demo_db)) =
      Inr (acme_org\<lparr>o_Name := ''Apex'', o_UpdatedAt := 5000, o_Version := 2\<rparr>, RoleOwner)" by code_simp
  with Rename_versioned [THEN conjunct1] show "\<exists>o1 \<in> set (t_orgs demo_db). o_ID o1 = acme \<and> o_Version o1 = 1"
    by (fastforce simp: interfere_def world_of_def)
  have "\<forall>o1 \<in> set (t_orgs (db (interfere (world_of demo_db)))). o_ID o1 = acme \<longrightarrow> o_DeletedAt o1 = None \<longrightarrow> o_Version o1 \<noteq> 7"
    by (simp add: interfere_def world_of_def demo_db_def acme_org_def)
  then have "db (snd (Rename demo (as_user ''ada'') 5000 acme ''Apex'' 7 (world_of demo_db)))
      \<in> {db (world_of demo_db), db (interfere (world_of demo_db))}"
    by (rule Rename_versioned [THEN conjunct2, THEN mp])
  then show "db (snd (Rename demo (as_user ''ada'') 5000 acme ''Apex'' 7 (world_of demo_db))) = demo_db"
    by (simp add: interfere_def world_of_def)
qed

section \<open>Creating\<close>

text \<open>How many live organisations, personal workspaces aside, an account owns.\<close>

definition owned_count :: "orgdb \<Rightarrow> string \<Rightarrow> nat" where
  "owned_count d u = count_where (\<lambda>(m, o1). owns_live d u m o1) (List.product (t_members d) (t_orgs d))"

lemma count_product: "count_where (\<lambda>(a, b). P a b) (List.product xs ys) = sum_list (map (\<lambda>a. count_where (P a) ys) xs)"
  by (induction xs) (simp_all add: count_where_def filter_map o_def)

lemma count_where_snoc: "count_where p (xs @ [x]) = count_where p xs + (if p x then 1 else 0)"
  by (simp add: count_where_def)

lemma count_where_zero: "(\<And>x. x \<in> set xs \<Longrightarrow> \<not> p x) \<Longrightarrow> count_where p xs = 0"
  by (simp add: count_where_eq_0)

lemma owned_count_insert:
  assumes "tables_ok d" "o_ID o1 \<notin> o_ID ` set (t_orgs d)" "\<not> o_Personal o1" "o_DeletedAt o1 = None"
    "mr_org m = o_ID o1" "mr_user m = u" "mr_role m = RoleOwner"
  shows "owned_count (d\<lparr>t_orgs := t_orgs d @ [o1], t_members := t_members d @ [m]\<rparr>) u = owned_count d u + 1"
proof -
  let ?d = "d\<lparr>t_orgs := t_orgs d @ [o1], t_members := t_members d @ [m]\<rparr>"
  have P: "owns_live ?d u = owns_live d u" by (simp add: owns_live_def fun_eq_iff)
  have new: "count_where (owns_live d u m) (t_orgs d) = 0"
    using assms(2,5) by (intro count_where_zero) (metis image_eqI owns_live_def)
  have old: "count_where (owns_live d u x) (t_orgs d @ [o1]) = count_where (owns_live d u x) (t_orgs d)"
    if "x \<in> set (t_members d)" for x
    using that assms(1,2) by (auto simp: count_where_snoc owns_live_def tables_defs)
  have "owned_count ?d u = sum_list (map (\<lambda>x. count_where (owns_live d u x) (t_orgs d @ [o1])) (t_members d))
      + count_where (owns_live d u m) (t_orgs d @ [o1])"
    by (simp add: owned_count_def P count_product)
  also have "\<dots> = sum_list (map (\<lambda>x. count_where (owns_live d u x) (t_orgs d)) (t_members d)) + 1"
    using old new assms(3-7) by (simp add: count_where_snoc [of _ _ o1] owns_live_def cong: map_cong)
  finally show ?thesis by (simp add: owned_count_def count_product)
qed

lemma Create_run:
  assumes "Create s c t nid name w = (Inr (o2, role), w')"
  obtains uid o1 w0 w1 w2 where "requireUser c PermOrgCreate = Inr uid" "NewOrg nid name uid False (clock t) = Inr o1"
    "\<exists>r \<in> set (t_users (db w)). u_id r = uid \<and> u_deleted_at r = None \<and> u_verified_at r \<noteq> None"
    "db w0 = db (interfere w)" "checkOwnedOrgs s uid w0 = (Inr (), w1)"
    "insert_with_owner o1 uid (clock t) (by_actor c) w1 = (Inr o2, w2)" "db w' = db w2" "role = RoleOwner"
proof -
  from assms obtain uid o1 em w3 w4 where r: "requireUser c PermOrgCreate = Inr uid" "NewOrg nid name uid False (clock t) = Inr o1"
    and 1: "requireVerified uid w = (Inr em, w3)"
    and 2: "InTx (bindC (checkOwnedOrgs s uid) (\<lambda>_. insert_with_owner o1 uid (clock t) (by_actor c))) w3 = (Inr o2, w4)"
    and db: "db w' = db w4" and role: "role = RoleOwner"
    unfolding Create_def bindC_run Let_def liftC_run mapErrC_run audit_ev_def extC_run retC_run by auto
  from 1 obtain a b cc w5 where "SelectUserEmail uid w = (Inr (a, b, cc), w5)" "cc"
    unfolding requireVerified_def bindC_run tryC_run case_sum_run case_prod_run if_run failC_run by auto
  with SelectUserEmail_run(2) have v: "\<exists>r \<in> set (t_users (db w)). u_id r = uid \<and> u_deleted_at r = None \<and> u_verified_at r \<noteq> None"
    by blast
  from 2 obtain w0 w6 where "db w0 = db (interfere w3)"
    and tx: "bindC (checkOwnedOrgs s uid) (\<lambda>_. insert_with_owner o1 uid (clock t) (by_actor c)) w0 = (Inr o2, w6)"
    and "db w4 = db w6" by (rule InTx_success)
  with that [OF r v] reads_interfere(1) [OF reads_service(3) 1] db role show thesis
    unfolding bindC_run by auto
qed

text \<open>
  creating an organisation. When \<open>Create\<close> succeeds, the caller's account was live with a verified
  address; the organisation has the trimmed name and version 1; the tables gain exactly the organisation
  and the caller as its owner; and the caller owns at most as many live organisations as allowed, however
  many requests run at once.
\<close>

theorem Create_bounded:
  assumes "fst (Create s c t nid name w) = Inr (o2, role)" "tables_ok (db (interfere w))"
  defines "d \<equiv> db (interfere w)" and "d' \<equiv> db (snd (Create s c t nid name w))"
  shows "\<exists>uid. userID c = Inr uid \<and> role = RoleOwner \<and>
    (\<exists>r \<in> set (t_users (db w)). u_id r = uid \<and> u_deleted_at r = None \<and> u_verified_at r \<noteq> None) \<and>
    o_ID o2 = nid \<and> o_Name o2 = TrimSpace name \<and> o_Version o2 = 1 \<and>
    d' = d\<lparr>t_orgs := t_orgs d @ [o2], t_members := t_members d @
      [\<lparr>mr_org = nid, mr_user = uid, mr_role = RoleOwner, mr_joined = clock t, mr_by = by_actor c\<rparr>]\<rparr> \<and>
    int (owned_count d' uid) \<le> s_maxOwned s"
proof -
  obtain w' where run: "Create s c t nid name w = (Inr (o2, role), w')" and w': "d' = db w'"
    using assms(1) by (auto elim: successE simp: d'_def)
  from run obtain uid o1 w0 w1 w2 where u: "requireUser c PermOrgCreate = Inr uid"
    and n: "NewOrg nid name uid False (clock t) = Inr o1"
    and v: "\<exists>r \<in> set (t_users (db w)). u_id r = uid \<and> u_deleted_at r = None \<and> u_verified_at r \<noteq> None"
    and w0: "db w0 = d" and chk: "checkOwnedOrgs s uid w0 = (Inr (), w1)"
    and ins: "insert_with_owner o1 uid (clock t) (by_actor c) w1 = (Inr o2, w2)" and w2: "d' = db w2" and role: "role = RoleOwner"
    unfolding d_def w' by (rule Create_run)
  have uid: "userID c = Inr uid" using u by (cases "Require c PermOrgCreate") (auto simp: requireUser_def bind_res_Inr)
  have db1: "db w1 = d" using checkOwnedOrgs_run(1) [OF chk] w0 by simp
  have cnt: "int (owned_count d uid) < s_maxOwned s" using checkOwnedOrgs_run(2) [OF chk] w0 by (simp add: owned_count_def)
  note i = insert_with_owner_run [OF ins, unfolded db1]
  have o2: "o_ID o2 = nid" "o_Name o2 = TrimSpace name" "o_Version o2 = 1" "\<not> o_Personal o2" "o_DeletedAt o2 = None"
    using NewOrg_Inr [OF n] i(1) NormalizeName_Inr by auto
  let ?m = "\<lparr>mr_org = nid, mr_user = uid, mr_role = RoleOwner, mr_joined = clock t, mr_by = by_actor c\<rparr>"
  have d': "d' = d\<lparr>t_orgs := t_orgs d @ [o2], t_members := t_members d @ [?m]\<rparr>"
    using i(2) w2 NewOrg_Inr [OF n] by simp
  have "owned_count d' uid = owned_count d uid + 1"
    unfolding d' using assms(2) i(1,3) o2 by (intro owned_count_insert) (auto simp: d_def)
  with uid role v o2 d' cnt show ?thesis by auto
qed

theorem Create_bounded_witness:
  "owned_count (db (snd (Create demo (as_user ''bob'') 5000 ''org_b'' '' Bob Ltd'' (world_of demo_db)))) ''bob'' \<le> 20"
proof -
  have "fst (Create demo (as_user ''bob'') 5000 ''org_b'' '' Bob Ltd'' (world_of demo_db)) =
     Inr (\<lparr>o_ID = ''org_b'', o_Name = ''Bob Ltd'', o_Personal = False, o_CreatedBy = ''bob'', o_Version = 1,
       o_CreatedAt = 5000, o_UpdatedAt = 5000, o_DeletedAt = None, o_PurgeAfter = None\<rparr>, RoleOwner)" by code_simp
  from Create_bounded [OF this] demo_db_inv show ?thesis
    by (auto simp: interfere_def world_of_def orgs_inv_def userID_def as_user_def From_def demo_def)
qed

end
