(* ===== verification/Orgs_Purge.thy ===== *)
theory Orgs_Purge
  imports Orgs_Lifecycle
begin

text \<open>
  Deleting, restoring and purging organisations: a purge removes only what is past its retention,
  and, without faults and with enough loop turns, all of it.
\<close>

section \<open>What a purge may remove\<close>

text \<open>The tables without the organisations \<open>S\<close> and everything that belongs to them.\<close>

definition purge_set :: "string set \<Rightarrow> orgdb \<Rightarrow> orgdb" where
  "purge_set S d = d\<lparr>
     t_orgs := filter (\<lambda>r. o_ID r \<notin> S) (t_orgs d),
     t_members := filter (\<lambda>m. mr_org m \<notin> S) (t_members d),
     t_invitations := filter (\<lambda>i. i_OrgID i \<notin> S) (t_invitations d),
     t_service_accounts := filter (\<lambda>a. sa_org a \<notin> Some ` S) (t_service_accounts d)\<rparr>"

definition past_retention :: "time \<Rightarrow> orgdb \<Rightarrow> string set" where
  "past_retention now d = o_ID ` {r \<in> set (t_orgs d). purgeable now r}"

text \<open>\<open>d'\<close> is \<open>d\<close> without some organisations that were past their retention.\<close>

definition purged_from :: "time \<Rightarrow> orgdb \<Rightarrow> orgdb \<Rightarrow> bool" where
  "purged_from now d d' \<longleftrightarrow> (\<exists>S \<subseteq> past_retention now d. d' = purge_set S d)"

lemma purge_set_empty: "purge_set {} d = d"
  by (simp add: purge_set_def)

lemma purge_set_insert: "purge_tables oid (purge_set S d) = purge_set (insert oid S) d"
  by (simp add: purge_set_def purge_tables_def conj_commute)

lemma purge_set_Un: "purge_set T (purge_set S d) = purge_set (T \<union> S) d"
  by (simp add: purge_set_def conj_commute image_Un)

lemma past_retention_purge_set: "past_retention now (purge_set S d) = past_retention now d - S"
  by (auto simp: past_retention_def purge_set_def)

lemma purged_from_refl: "purged_from now d d"
  unfolding purged_from_def by (intro exI [of _ "{}"]) (simp add: purge_set_empty)

lemma DeleteOrg_purged [pres_intros]: "pres (purged_from now d) (DeleteOrg oid now)"
  unfolding DeleteOrg_def
proof (rule pres_stmt)
  fix e assume "purged_from now d e"
  then obtain S where S: "S \<subseteq> past_retention now d" "e = purge_set S d" by (auto simp: purged_from_def)
  show "purged_from now d (snd (if \<exists>r\<in>set (t_orgs e). o_ID r = oid \<and> purgeable now r
      then (Inr True, purge_tables oid e) else (Inr False, e)))"
  proof (cases "\<exists>r\<in>set (t_orgs e). o_ID r = oid \<and> purgeable now r")
    case True
    then have "oid \<in> past_retention now e" by (auto simp: past_retention_def)
    then have "insert oid S \<subseteq> past_retention now d" using S past_retention_purge_set by auto
    then have "purged_from now d (purge_tables oid e)" unfolding S(2) purge_set_insert purged_from_def by blast
    with True show ?thesis by (simp only: if_True snd_conv)
  qed (use S in \<open>auto simp: purged_from_def\<close>)
qed

lemma audit_ev_pres [pres_intros]: "pres I (audit_ev c a oid rt rid md)"
  by (simp add: audit_ev_def pres_extC)

lemma purge_batch_purged [pres_intros]: "pres (purged_from now d) (purge_batch c now oids n)"
  by (induction oids arbitrary: n) (simp_all, (intro pres_intros | assumption)+)

lemma purge_loop_purged: "pres (purged_from now d) (purge_loop c now stop ticks n)"
proof (induction ticks arbitrary: n)
  case (Cons a ticks)
  obtain tick cancelled where "a = (tick, cancelled)" by fastforce
  then show ?case by (simp only: purge_loop.simps) (intro pres_intros Cons.IH)
qed (simp add: pres_intros)


section \<open>A purge removes everything past retention\<close>

lemma audit_ev_works: "audit_ev c a oid rt rid md w = (Inr (), w\<lparr>ext := (ext w)\<lparr>x_audit := x_audit (ext w) @ [(c, zero_Event\<lparr>e_Action := a, e_OrgID := oid,
       e_ResourceType := rt, e_ResourceID := rid, e_Outcome := OutcomeSuccess, e_Metadata := md\<rparr>)]\<rparr>\<rparr>)"
  by (simp add: audit_ev_def extC_def)

lemma purge_batch_works:
  assumes "faults w = []" "distinct oids" "set oids \<subseteq> past_retention now (db w)"
  shows "\<exists>w'. purge_batch c now oids n w = (Inr (n + length oids), w') \<and> faults w' = [] \<and>
    db w' = purge_set (set oids) (db w)"
  using assms
proof (induction oids arbitrary: n w)
  case Nil
  then show ?case by (simp add: retC_def purge_set_empty)
next
  case (Cons oid oids)
  have "\<exists>r \<in> set (t_orgs (db w)). o_ID r = oid \<and> purgeable now r"
    using Cons.prems(3) by (auto simp: past_retention_def)
  then have del: "DeleteOrg oid now w = (Inr True, w\<lparr>db := purge_tables oid (db w)\<rparr>)"
    using Cons.prems(1) by (simp add: DeleteOrg_def run_simps)
  let ?w = "snd (audit_ev c ''orgs.org.purged'' oid ''org'' oid [] (w\<lparr>db := purge_tables oid (db w)\<rparr>))"
  have w: "faults ?w = []" "db ?w = purge_set {oid} (db w)"
    using Cons.prems(1) purge_set_insert [of oid "{}" "db w"] by (simp_all add: audit_ev_works purge_set_empty)
  have "set oids \<subseteq> past_retention now (db ?w)"
    using Cons.prems(2,3) unfolding w(2) past_retention_purge_set by auto
  from Cons.IH [OF w(1) _ this, of "n + 1"] Cons.prems(2) obtain w' where
    w': "purge_batch c now oids (n + 1) ?w = (Inr (n + 1 + length oids), w')" "faults w' = []"
      "db w' = purge_set (set oids) (db ?w)" by auto
  have "purge_set (set oids) (purge_set {oid} (db w)) = purge_set (set (oid # oids)) (db w)"
    by (simp add: purge_set_Un)
  moreover have "purge_batch c now (oid # oids) n w = purge_batch c now oids (n + 1) ?w"
    by (simp add: del bindC_def mapErrC_def audit_ev_works)
  ultimately show ?case using w' w(2) by auto
qed

lemma SelectOrgsToPurge_works:
  assumes "faults w = []" "tables_ok (db w)"
  shows "\<exists>oids. SelectOrgsToPurge now limit w = (Inr oids, w) \<and> distinct oids \<and> set oids \<subseteq> past_retention now (db w) \<and>
    length oids = min limit (card (past_retention now (db w)))"
proof -
  let ?rows = "sort_key (\<lambda>r. (the (o_PurgeAfter r), o_ID r)) (filter (purgeable now) (t_orgs (db w)))"
  let ?ids = "map o_ID ?rows"
  have "distinct (map o_ID (filter (purgeable now) (t_orgs (db w))))"
    using assms(2) by (simp add: tables_defs distinct_map_filterI)
  then have d: "distinct ?ids" by (simp add: distinct_map)
  have s: "set ?ids = past_retention now (db w)" by (auto simp: past_retention_def)
  have "length ?ids = card (past_retention now (db w))" using distinct_card [OF d] s by simp
  moreover have "SelectOrgsToPurge now limit w = (Inr (take limit ?ids), w)"
    using assms(1) by (simp add: SelectOrgsToPurge_def run_simps take_map)
  moreover have "set (take limit ?ids) \<subseteq> past_retention now (db w)" using s set_take_subset by fastforce
  ultimately show ?thesis using distinct_take [OF d, of limit] by (intro exI [of _ "take limit ?ids"]) simp
qed

lemma finite_past_retention: "finite (past_retention now d)"
  by (simp add: past_retention_def)

lemma tables_ok_purge_set: "tables_ok d \<Longrightarrow> tables_ok (purge_set S d)"
  by (auto simp: tables_defs purge_set_def distinct_map_filterI filter_filter known_user_def
      intro: distinct_map_filter_sub)

lemma purge_loop_works:
  assumes "faults w = []" "tables_ok (db w)" "\<forall>x \<in> set ticks. fst x < stop \<and> \<not> snd x"
    "card (past_retention now (db w)) < purgeBatch * length ticks"
  shows "\<exists>w'. purge_loop c now stop ticks n w = (Inr (n + card (past_retention now (db w)), None), w') \<and>
    db w' = purge_set (past_retention now (db w)) (db w)"
  using assms
proof (induction ticks arbitrary: n w)
  case (Cons a ticks)
  obtain tick cancelled where a: "a = (tick, cancelled)" by fastforce
  have go: "tick < stop" "\<not> cancelled" using Cons.prems(3) a by auto
  let ?P = "past_retention now (db w)"
  obtain oids where sel: "SelectOrgsToPurge now purgeBatch w = (Inr oids, w)" and oids: "distinct oids" "set oids \<subseteq> ?P"
    "length oids = min purgeBatch (card ?P)"
    using SelectOrgsToPurge_works [OF Cons.prems(1,2)] by blast
  obtain w1 where b: "purge_batch c now oids 0 w = (Inr (length oids), w1)" "faults w1 = []" "db w1 = purge_set (set oids) (db w)"
    using purge_batch_works [OF Cons.prems(1) oids(1,2), of c 0] by auto
  have step: "purge_loop c now stop (a # ticks) n w =
      (if length oids < purgeBatch \<or> length oids = 0 then (Inr (n + length oids, None), w1)
       else purge_loop c now stop ticks (n + length oids) w1)"
    using go sel b(1) by (simp add: a bindC_def tryC_def mapErrC_def retC_def)
  have P1: "past_retention now (db w1) = ?P - set oids" unfolding b(3) past_retention_purge_set ..
  have len: "length oids = card (set oids)" using distinct_card [OF oids(1)] by simp
  show ?case
  proof (cases "length oids < purgeBatch")
    case True
    then have "card (set oids) = card ?P" using oids(3) len by simp
    then have "set oids = ?P" using oids(2) finite_past_retention card_subset_eq by blast
    with step True b(3) len show ?thesis by auto
  next
    case False
    then have full: "length oids = purgeBatch" "purgeBatch \<le> card ?P" using oids(3) by auto
    have pos: "0 < purgeBatch" by (simp add: purgeBatch_def)
    have c1: "card (past_retention now (db w1)) = card ?P - purgeBatch"
      unfolding P1 using card_Diff_subset [OF _ oids(2)] len full(1) by simp
    then have "card (past_retention now (db w1)) < purgeBatch * length ticks" using Cons.prems(4) full pos by auto
    moreover have "tables_ok (db w1)" unfolding b(3) using Cons.prems(2) by (rule tables_ok_purge_set)
    ultimately obtain w' where w': "purge_loop c now stop ticks (n + length oids) w1 =
        (Inr (n + length oids + card (past_retention now (db w1)), None), w')"
      "db w' = purge_set (past_retention now (db w1)) (db w1)"
      using Cons.IH [OF b(2), of "n + length oids"] Cons.prems(3) by auto
    have "purge_set (?P - set oids) (purge_set (set oids) (db w)) = purge_set ?P (db w)"
      using oids(2) by (simp add: purge_set_Un Un_absorb2)
    with w' step full c1 P1 b(3) pos show ?thesis by (intro exI [of _ w']) simp
  qed
qed simp

text \<open>
  C9: a purge keeps up. Without faults, when the loop may turn often enough for the number of
  organisations past their retention (a hundred per turn) before its budget is spent, \<open>Purge\<close>
  returns no error, removes every one of them, and returns how many.
\<close>

theorem Purge_complete:
  assumes "faults w = []" "tables_ok (db w)" "\<forall>x \<in> set ticks. fst x < started + purgeBudget \<and> \<not> snd x"
    "card (past_retention (clock t) (db w)) < purgeBatch * length ticks"
  shows "fst (Purge c t started ticks w) = Inr (card (past_retention (clock t) (db w)), None) \<and>
    past_retention (clock t) (db (snd (Purge c t started ticks w))) = {}"
proof -
  obtain w' where "purge_loop c (clock t) (started + purgeBudget) ticks 0 w =
      (Inr (0 + card (past_retention (clock t) (db w)), None), w')"
    "db w' = purge_set (past_retention (clock t) (db w)) (db w)"
    using purge_loop_works [OF assms, of c 0] by (elim exE conjE)
  then show ?thesis by (simp add: Purge_def past_retention_purge_set)
qed

definition stale_db :: orgdb where
  "stale_db = demo_db\<lparr>t_orgs := [acme_org\<lparr>o_DeletedAt := Some 2000, o_PurgeAfter := Some 4000\<rparr>]\<rparr>"

theorem Purge_complete_witness:
  "past_retention (clock 5000) (db (snd (Purge Background 5000 0 [(1, False)] (world_of stale_db)))) = {}"
proof -
  have "past_retention (clock 5000) (db (world_of stale_db)) = {acme}"
    by code_simp
  moreover have "tables_ok (db (world_of stale_db))"
    by (simp add: world_of_def stale_db_def tables_defs demo_db_def acme_org_def row_def user_def known_user_def)
  ultimately have "fst (Purge Background 5000 0 [(1, False)] (world_of stale_db)) =
      Inr (card (past_retention (clock 5000) (db (world_of stale_db))), None) \<and>
    past_retention (clock 5000) (db (snd (Purge Background 5000 0 [(1, False)] (world_of stale_db)))) = {}"
    by (intro Purge_complete) (auto simp: world_of_def purgeBudget_def purgeBatch_def)
  then show ?thesis ..
qed

section \<open>Deleting and restoring\<close>

lemma delete_tx_run:
  assumes "delete_tx s c now p orgID w = (Inr x, w')"
  shows "db w' = (db w)\<lparr>t_orgs := update_where (\<lambda>r. o_ID r = orgID \<and> o_DeletedAt r = None)
      (\<lambda>r. r\<lparr>o_DeletedAt := Some now, o_PurgeAfter := Some p, o_UpdatedAt := now, o_Version := o_Version r + 1\<rparr>)
      (t_orgs (db w))\<rparr>"
    "\<exists>o1 \<in> set (t_orgs (db w)). o_ID o1 = orgID \<and> o_DeletedAt o1 = None \<and> \<not> o_Personal o1"
    "\<exists>role. member_holds (db w) orgID (caller c) role \<and> PermOrgDelete \<in> set (Permissions (s_catalog s) [role])"
proof -
  from assms obtain o1 me w1 where 1: "lockOrg s c orgID PermOrgDelete w = (Inr (o1, me), w1)" "\<not> o_Personal o1"
    and 2: "MarkOrgDeleted orgID now p w1 = (Inr (), w')"
    unfolding delete_tx_def bindC_run case_prod_run if_run failC_run by auto
  note l = lockOrg_run [OF 1(1)]
  show "db w' = (db w)\<lparr>t_orgs := update_where (\<lambda>r. o_ID r = orgID \<and> o_DeletedAt r = None)
      (\<lambda>r. r\<lparr>o_DeletedAt := Some now, o_PurgeAfter := Some p, o_UpdatedAt := now, o_Version := o_Version r + 1\<rparr>)
      (t_orgs (db w))\<rparr>" using MarkOrgDeleted_run [OF 2] l(1) by simp
  show "\<exists>o1 \<in> set (t_orgs (db w)). o_ID o1 = orgID \<and> o_DeletedAt o1 = None \<and> \<not> o_Personal o1" using l(2-4) 1(2) by auto
  show "\<exists>role. member_holds (db w) orgID (caller c) role \<and> PermOrgDelete \<in> set (Permissions (s_catalog s) [role])"
    using l(5) by (auto dest!: subsetD [OF allowed_perms_subset])
qed

lemma Delete_run:
  assumes "Delete s c t orgID w = (Inr x, w')"
  obtains c' w0 w1 where "db w0 = db (interfere w)" "delete_tx s c' (clock t) (clock t + s_retention s) orgID w0 = (Inr (), w1)"
    "db w' = db w1" "acting c c'"
proof -
  from assms obtain c' me w1 w2 where 1: "RequireMember c MemberRole (s_catalog s) orgID PermOrgDelete w = (Inr (c', me), w1)"
    and 2: "InTx (delete_tx s c' (clock t) (clock t + s_retention s) orgID) w1 = (Inr (), w2)" and db: "db w' = db w2"
    unfolding Delete_def bindC_run mapErrC_run case_prod_run Let_def audit_ev_def extC_run by auto
  from 2 obtain w0 w3 where "db w0 = db (interfere w1)"
    "delete_tx s c' (clock t) (clock t + s_retention s) orgID w0 = (Inr (), w3)" "db w2 = db w3" by (rule InTx_success)
  with that reads_interfere(1) [OF reads_service(1) 1] RequireMember_acting(1) [OF 1] db show thesis by metis
qed

lemma Restore_run:
  assumes "Restore s c t orgID w = (Inr m, w')"
  obtains uid w0 w1 where "userID c = Inr uid" "db w0 = db (interfere w)" "restore_tx s c t uid orgID w0 = (Inr m, w1)" "db w' = db w1"
proof -
  from assms obtain uid w2 where u: "userID c = Inr uid" and 2: "InTx (restore_tx s c t uid orgID) w = (Inr m, w2)"
    and db: "db w' = db w2"
    unfolding Restore_def bindC_run mapErrC_run liftC_run case_sum_run failC_run retC_run audit_ev_def extC_run by auto
  from 2 obtain w0 w3 where "db w0 = db (interfere w)" "restore_tx s c t uid orgID w0 = (Inr m, w3)" "db w2 = db w3"
    by (rule InTx_success)
  with that [OF u] db show thesis by metis
qed

text \<open>
  deleting is undone by restoring. A successful delete of an organisation followed by a successful
  restore on the tables it left gives back the same tables, but for the organisation's version, two
  higher, and the time it was last updated; in between it is hidden from everyone.
\<close>

theorem Delete_Restore_roundtrip:
  assumes "fst (Delete s c t orgID w) = Inr x" "tables_ok (db (interfere w))"
    "db w2 = db (snd (Delete s c t orgID w))" "others w2 = []" "fst (Restore s c2 t2 orgID w2) = Inr m"
  shows "(\<forall>u role. \<not> member_holds (db w2) orgID u role) \<and>
    db (snd (Restore s c2 t2 orgID w2)) = (db (interfere w))\<lparr>t_orgs := update_where (\<lambda>r. o_ID r = orgID)
      (\<lambda>r. r\<lparr>o_UpdatedAt := clock t2, o_Version := o_Version r + 2\<rparr>) (t_orgs (db (interfere w)))\<rparr>"
proof -
  let ?d = "db (interfere w)"
  obtain w' where 1: "Delete s c t orgID w = (Inr x, w')" "snd (Delete s c t orgID w) = w'" using assms(1) by (rule successE)
  obtain w3 where 2: "Restore s c2 t2 orgID w2 = (Inr m, w3)" "snd (Restore s c2 t2 orgID w2) = w3" using assms(5) by (rule successE)
  from 1(1) obtain c' w0 w1 where w0: "db w0 = ?d" and del: "delete_tx s c' (clock t) (clock t + s_retention s) orgID w0 = (Inr (), w1)"
    and w1: "db w' = db w1" by (rule Delete_run)
  note D = delete_tx_run(1,2) [OF del, unfolded w0]
  from 2(1) obtain uid v0 v1 where v0: "db v0 = db (interfere w2)" and res: "restore_tx s c2 t2 uid orgID v0 = (Inr m, v1)"
    and v1: "db w3 = db v1" by (rule Restore_run)
  have v0': "db v0 = db w1" using v0 interfere_none [OF assms(4)] assms(3) 1(2) w1 by simp
  obtain o2 role where m: "m = (o2, role)" by fastforce
  have uniq: "distinct (map o_ID (t_orgs ?d))" using assms(2) by (simp add: tables_defs)
  have live: "o_DeletedAt r = None \<and> o_PurgeAfter r = None" if "r \<in> set (t_orgs ?d)" "o_ID r = orgID" for r
    using D(2) distinct_map_unique [OF uniq that(1)] that tables_ok_row [OF assms(2) that(1)] by metis
  have "\<not> live_org (db w2) orgID"
  proof
    assume "live_org (db w2) orgID"
    then obtain r where r: "r \<in> set (t_orgs (db w1))" "o_ID r = orgID" "o_DeletedAt r = None"
      using assms(3) 1(2) w1 by (auto simp: live_org_def)
    from r(1) have "r \<in> set (update_where (\<lambda>r. o_ID r = orgID \<and> o_DeletedAt r = None)
      (\<lambda>r. r\<lparr>o_DeletedAt := Some (clock t), o_PurgeAfter := Some (clock t + s_retention s), o_UpdatedAt := clock t, o_Version := o_Version r + 1\<rparr>)
      (t_orgs ?d))" unfolding D(1) by simp
    then show False using r(2,3) by (cases rule: update_where_memE) auto
  qed
  moreover have "db v1 = ?d\<lparr>t_orgs := update_where (\<lambda>r. o_ID r = orgID)
      (\<lambda>r. r\<lparr>o_UpdatedAt := clock t2, o_Version := o_Version r + 2\<rparr>) (t_orgs ?d)\<rparr>"
    using res [unfolded m]
  proof (cases rule: restore_tx_run)
    case (1 o1 row)
    show ?thesis unfolding 1(12) v0' D(1)
      by (simp add: update_where_def o_def) (use live in \<open>auto intro!: map_cong\<close>)
  qed
  ultimately show ?thesis using 2(2) v1 by (simp add: member_holds_def)
qed

definition deleted_db :: orgdb where
  "deleted_db = db (snd (Delete demo (as_user ''ada'') 5000 acme (world_of demo_db)))"

lemma demo_Delete: "fst (Delete demo (as_user ''ada'') 5000 acme (world_of demo_db)) = Inr ()"
  by code_simp

lemma demo_Restore:
  "fst (Restore demo (as_user ''ada'') 6000 acme (world_of deleted_db)) =
     Inr (acme_org\<lparr>o_UpdatedAt := 5000, o_Version := 2\<rparr>, RoleOwner)"
  by code_simp

theorem Delete_Restore_roundtrip_witness:
  "t_members (db (snd (Restore demo (as_user ''ada'') 6000 acme (world_of deleted_db)))) = t_members demo_db"
proof -
  have ok: "tables_ok (db (interfere (world_of demo_db)))"
    using demo_db_inv by (simp add: interfere_def world_of_def orgs_inv_def)
  have "db (world_of deleted_db) = db (snd (Delete demo (as_user ''ada'') 5000 acme (world_of demo_db)))"
    by (simp add: world_of_def deleted_db_def)
  moreover have "others (world_of deleted_db) = []" by (simp add: world_of_def)
  ultimately have "db (snd (Restore demo (as_user ''ada'') 6000 acme (world_of deleted_db))) =
      (db (interfere (world_of demo_db)))\<lparr>t_orgs := update_where (\<lambda>r. o_ID r = acme)
      (\<lambda>r. r\<lparr>o_UpdatedAt := clock 6000, o_Version := o_Version r + 2\<rparr>) (t_orgs (db (interfere (world_of demo_db))))\<rparr>"
    by (rule Delete_Restore_roundtrip [OF demo_Delete ok _ _ demo_Restore, THEN conjunct2])
  then show ?thesis by (simp add: interfere_def world_of_def)
qed

text \<open>
  C10: \<open>Restore\<close> answers with a version that is already out of date. The stored organisation is one
  version ahead of the one \<open>Restore\<close> returns, so a rename at the version it returned, the one its
  caller has read, is refused although nothing else changed.
\<close>

theorem Restore_returns_stale_version:
  assumes "fst (Restore s c t orgID w) = Inr (o2, role)" "tables_ok (db (interfere w))"
    "db w2 = db (snd (Restore s c t orgID w))" "others w2 = []"
  shows "(\<exists>o3 \<in> set (t_orgs (db w2)). o_ID o3 = orgID \<and> o_DeletedAt o3 = None \<and> o_Version o3 = o_Version o2 + 1) \<and>
    fst (Rename s c3 t3 orgID name (o_Version o2) w2) \<noteq> Inr y"
proof -
  obtain w3 where 2: "Restore s c t orgID w = (Inr (o2, role), w3)" "snd (Restore s c t orgID w) = w3" using assms(1) by (rule successE)
  from 2(1) obtain uid v0 v1 where v0: "db v0 = db (interfere w)" and res: "restore_tx s c t uid orgID v0 = (Inr (o2, role), v1)"
    and v1: "db w3 = db v1" by (rule Restore_run)
  have w2: "db w2 = db v1" using assms(3) 2(2) v1 by simp
  have ok: "tables_ok (db w2)" unfolding w2 using presD [OF tables_ok_txs(4) _ res] assms(2) v0 by simp
  from res show ?thesis
  proof (cases rule: restore_tx_run)
    case (1 o1 row)
    let ?o3 = "o1\<lparr>o_DeletedAt := None, o_PurgeAfter := None, o_UpdatedAt := clock t, o_Version := o_Version o1 + 1\<rparr>"
    have o3: "?o3 \<in> set (t_orgs (db w2))"
      unfolding w2 1(12) using 1(1-3) by (auto simp: set_update_where intro!: image_eqI [of _ _ o1])
    have "fst (Rename s c3 t3 orgID name (o_Version o2) w2) \<noteq> Inr y"
    proof
      assume "fst (Rename s c3 t3 orgID name (o_Version o2) w2) = Inr y"
      then have "fst (Rename s c3 t3 orgID name (o_Version o2) w2) = Inr (fst y, snd y)" by simp
      from Rename_matches [OF this] obtain o4 where o4: "o4 \<in> set (t_orgs (db w2))" "o_ID o4 = orgID" "o_Version o4 = o_Version o2"
        using interfere_none [OF assms(4)] by auto
      have "distinct (map o_ID (t_orgs (db w2)))" using ok by (simp add: tables_defs)
      then have "o4 = ?o3" using distinct_map_unique [of o_ID, OF _ o4(1) o3] o4(2) 1(2) by simp
      then have "o_Version o4 = o_Version o1 + 1" by simp
      with o4(3) 1(4) show False by simp
    qed
    with o3 1(2,4) show ?thesis by (intro conjI bexI [of _ ?o3]) simp_all
  qed
qed

theorem Restore_returns_stale_version_witness:
  "fst (Rename demo (as_user ''ada'') 7000 acme ''Apex'' 2
     (world_of (db (snd (Restore demo (as_user ''ada'') 6000 acme (world_of deleted_db)))))) \<noteq> Inr (acme_org, RoleOwner)"
proof -
  let ?w2 = "world_of (db (snd (Restore demo (as_user ''ada'') 6000 acme (world_of deleted_db))))"
  have ok: "tables_ok (db (interfere (world_of deleted_db)))"
  proof -
    have e: "deleted_db = demo_db\<lparr>t_orgs := [acme_org\<lparr>o_DeletedAt := Some 5000, o_PurgeAfter := Some (5000 + 30 * 24 * hour),
        o_UpdatedAt := 5000, o_Version := 2\<rparr>]\<rparr>" unfolding deleted_db_def by code_simp
    show ?thesis
      by (simp add: e interfere_def world_of_def tables_defs demo_db_def acme_org_def row_def user_def known_user_def)
  qed
  have "fst (Rename demo (as_user ''ada'') 7000 acme ''Apex''
      (o_Version (acme_org\<lparr>o_UpdatedAt := 5000, o_Version := 2\<rparr>)) ?w2) \<noteq> Inr (acme_org, RoleOwner)"
    by (rule Restore_returns_stale_version [OF demo_Restore ok, THEN conjunct2]) (simp_all add: world_of_def)
  then show ?thesis by simp
qed

end
