(* ===== verification/Page.thy ===== *)
theory Page
  imports Go_Text
begin

text \<open>
  Cursor pagination (\<open>page/page.go\<close>): the limits, the sort parameter and the opaque cursors. The
  parts of the standard library it calls, \<open>strconv.Atoi\<close>, \<open>FormatInt\<close> and the raw URL base64 encoding, are modelled
  here; \<open>encoding/json\<close> on the position's type is a parameter (\<open>json_api\<close>).
\<close>

section \<open>strconv.Atoi\<close>

definition digit_val :: "char \<Rightarrow> int option" where
  "digit_val c = (if 48 \<le> byte c \<and> byte c \<le> 57 then Some (int (byte c) - 48) else None)"

fun digits_val :: "int \<Rightarrow> string \<Rightarrow> int option" where
  "digits_val acc [] = Some acc"
| "digits_val acc (c # s) = (case digit_val c of None \<Rightarrow> None | Some d \<Rightarrow> digits_val (acc * 10 + d) s)"

definition in_int64 :: "int \<Rightarrow> bool" where
  "in_int64 n \<longleftrightarrow> - (2 ^ 63) \<le> n \<and> n < 2 ^ 63"

definition Atoi :: "string \<Rightarrow> int option" where
  "Atoi s =
     (let (neg, ds) = (case s of c # r \<Rightarrow> if c = CHR ''-'' then (True, r) else if c = CHR ''+'' then (False, r) else (False, s)
                       | [] \<Rightarrow> (False, [])) in
      if ds = [] then None
      else case digits_val 0 ds of
        None \<Rightarrow> None
      | Some n \<Rightarrow> let n = (if neg then - n else n) in if in_int64 n then Some n else None)"

section \<open>strconv.FormatInt\<close>

fun digits_of :: "nat \<Rightarrow> string" where
  "digits_of n = (if n < 10 then [char_of (48 + n)] else digits_of (n div 10) @ [char_of (48 + n mod 10)])"

declare digits_of.simps [simp del]

definition FormatInt :: "int \<Rightarrow> string" where
  "FormatInt n = (if n < 0 then CHR ''-'' # digits_of (nat (- n)) else digits_of (nat n))"

section \<open>base64.RawURLEncoding\<close>

fun sextets :: "nat list \<Rightarrow> nat list" where
  "sextets (a # b # c # r) = a div 4 # (a mod 4 * 16 + b div 16) # (b mod 16 * 4 + c div 64) # c mod 64 # sextets r"
| "sextets [a, b] = [a div 4, a mod 4 * 16 + b div 16, b mod 16 * 4]"
| "sextets [a] = [a div 4, a mod 4 * 16]"
| "sextets [] = []"

text \<open>A last group of one sextet is corrupt; left-over bits are ignored (the encoding is not strict).\<close>

fun octets :: "nat list \<Rightarrow> nat list option" where
  "octets (a # b # c # d # r) =
     map_option (\<lambda>bs. (a * 4 + b div 16) # (b mod 16 * 16 + c div 4) # (c mod 4 * 64 + d) # bs) (octets r)"
| "octets [a, b, c] = Some [a * 4 + b div 16, b mod 16 * 16 + c div 4]"
| "octets [a, b] = Some [a * 4 + b div 16]"
| "octets [a] = None"
| "octets [] = Some []"

definition url_char :: "nat \<Rightarrow> char" where
  "url_char n = char_of (if n < 26 then n + 65 else if n < 52 then n + 71 else if n < 62 then n - 4
     else if n = 62 then 45 else 95)"

definition url_digit :: "char \<Rightarrow> nat option" where
  "url_digit c =
     (let b = byte c in
      if 65 \<le> b \<and> b \<le> 90 then Some (b - 65)
      else if 97 \<le> b \<and> b \<le> 122 then Some (b - 71)
      else if 48 \<le> b \<and> b \<le> 57 then Some (b + 4)
      else if b = 45 then Some 62 else if b = 95 then Some 63 else None)"

definition EncodeToString :: "string \<Rightarrow> string" where
  "EncodeToString s = map url_char (sextets (map byte s))"

fun all_some :: "'a option list \<Rightarrow> 'a list option" where
  "all_some [] = Some []"
| "all_some (x # xs) = (case x of None \<Rightarrow> None | Some y \<Rightarrow> map_option (Cons y) (all_some xs))"

text \<open>The decoder skips carriage returns and newlines wherever they stand.\<close>

definition DecodeString :: "string \<Rightarrow> string option" where
  "DecodeString s =
     (case all_some (map url_digit (filter (\<lambda>c. byte c \<noteq> 10 \<and> byte c \<noteq> 13) s)) of
        None \<Rightarrow> None
      | Some ns \<Rightarrow> map_option (map char_of) (octets ns))"

lemma sextets_bound: "\<forall>x \<in> set bs. x < 256 \<Longrightarrow> n \<in> set (sextets bs) \<Longrightarrow> n < 64"
  by (induction bs rule: sextets.induct) auto

lemma octets_sextets: "\<forall>x \<in> set bs. x < 256 \<Longrightarrow> octets (sextets bs) = Some bs"
proof (induction bs rule: sextets.induct)
  case (1 a b c r)
  have "a < 256" "b < 256" "c < 256" using "1.prems" by auto
  then have "(a mod 4 * 16 + b div 16) div 16 = a mod 4" "(a mod 4 * 16 + b div 16) mod 16 = b div 16"
    "(b mod 16 * 4 + c div 64) div 4 = b mod 16" "(b mod 16 * 4 + c div 64) mod 4 = c div 64"
    by (simp_all add: div_add1_eq mod_add_eq [symmetric] less_mult_imp_div_less)
  with 1 show ?case by (simp add: mult.commute)
next
  case (2 a b)
  then have "b div 16 < 16" by (simp add: less_mult_imp_div_less)
  then show ?case by (simp add: mult.commute)
next
  case (3 a)
  then show ?case by (simp add: mult.commute)
qed simp

lemma url_digit_char:
  assumes "n < 64" shows "url_digit (url_char n) = Some n" "byte (url_char n) \<noteq> 10" "byte (url_char n) \<noteq> 13"
  using assms by (auto simp: url_digit_def url_char_def Let_def)

lemma all_some_map: "(\<And>x. x \<in> set xs \<Longrightarrow> f x = Some (g x)) \<Longrightarrow> all_some (map f xs) = Some (map g xs)"
  by (induction xs) auto

lemma DecodeString_EncodeToString: "DecodeString (EncodeToString s) = Some s"
proof -
  have byte: "\<forall>x \<in> set (map byte s). x < 256" by auto
  note lt = sextets_bound [OF this]
  then have "filter (\<lambda>c. byte c \<noteq> 10 \<and> byte c \<noteq> 13) (EncodeToString s) = EncodeToString s"
    by (auto simp: EncodeToString_def filter_id_conv url_digit_char)
  moreover have "all_some (map url_digit (EncodeToString s)) = Some (sextets (map byte s))"
    using all_some_map [of "sextets (map byte s)" "url_digit \<circ> url_char" id] lt
    by (simp add: EncodeToString_def url_digit_char)
  ultimately show ?thesis using octets_sextets [OF byte] by (simp add: DecodeString_def comp_def)
qed

lemma length_EncodeToString: "length (EncodeToString s) = (4 * length s + 2) div 3"
proof -
  have "length (sextets bs) = (4 * length bs + 2) div 3" for bs
    by (induction bs rule: sextets.induct) (auto simp: field_simps)
  then show ?thesis by (simp add: EncodeToString_def)
qed

section \<open>Requests\<close>

definition DefaultLimit :: int where "DefaultLimit = 20"
definition MaxLimit :: int where "MaxLimit = 100"
definition MaxCursorLength :: nat where "MaxCursorLength = 512"

datatype page_error = ErrInvalidLimit | ErrInvalidCursor | ErrInvalidSort

record Params =
  p_Limit :: int
  p_Cursor :: string
  p_Sort :: string

record SortField =
  sf_Field :: string
  sf_Desc :: bool

record Options =
  o_DefaultLimit :: int
  o_MaxLimit :: int
  o_SortFields :: "string list"
  o_DefaultSort :: "SortField list"

record Request =
  r_Limit :: int
  r_Cursor :: string
  r_Sort :: "SortField list"

definition sort_field :: "string \<Rightarrow> SortField" where
  "sort_field part =
     (case cut_prefix part ''-'' of Some f \<Rightarrow> \<lparr>sf_Field = f, sf_Desc = True\<rparr> | None \<Rightarrow> \<lparr>sf_Field = part, sf_Desc = False\<rparr>)"

text \<open>The loop over the parts of \<open>sort\<close>; \<open>seen\<close> holds the fields so far.\<close>

fun sort_loop :: "string list \<Rightarrow> string list \<Rightarrow> string list \<Rightarrow> page_error + SortField list" where
  "sort_loop allowed seen [] = Inr []"
| "sort_loop allowed seen (part # parts) =
     (let f = sort_field (TrimSpace part) in
      if sf_Field f \<notin> set allowed then Inl ErrInvalidSort
      else if sf_Field f \<in> set seen then Inl ErrInvalidSort
      else bind_res (sort_loop allowed (sf_Field f # seen) parts) (\<lambda>fs. Inr (f # fs)))"

definition Params_Request :: "Params \<Rightarrow> Options \<Rightarrow> page_error + Request" where
  "Params_Request p opts =
     (let def = (if o_DefaultLimit opts \<le> 0 then DefaultLimit else o_DefaultLimit opts);
          mx = (if o_MaxLimit opts \<le> 0 then MaxLimit else o_MaxLimit opts) in
      if p_Limit p \<noteq> 0 \<and> (p_Limit p < 0 \<or> p_Limit p > mx) then Inl ErrInvalidLimit
      else if length (p_Cursor p) > MaxCursorLength then Inl ErrInvalidCursor
      else
        let r = \<lparr>r_Limit = (if p_Limit p = 0 then def else p_Limit p), r_Cursor = p_Cursor p, r_Sort = []\<rparr> in
        if TrimSpace (p_Sort p) = [] then Inr (r\<lparr>r_Sort := o_DefaultSort opts\<rparr>)
        else bind_res (sort_loop (o_SortFields opts) [] (split_on CHR '','' (p_Sort p))) (\<lambda>fs. Inr (r\<lparr>r_Sort := fs\<rparr>)))"

text \<open>\<open>url.Values.Get\<close>: the first value, or the empty string.\<close>

definition Get :: "(string \<rightharpoonup> string list) \<Rightarrow> string \<Rightarrow> string" where
  "Get q k = (case q k of Some (v # _) \<Rightarrow> v | _ \<Rightarrow> [])"

definition Parse :: "(string \<rightharpoonup> string list) \<Rightarrow> Options \<Rightarrow> page_error + Request" where
  "Parse q opts =
     (let raw = Get q ''limit''; p = \<lparr>p_Limit = 0, p_Cursor = Get q ''cursor'', p_Sort = Get q ''sort''\<rparr> in
      if raw = [] then Params_Request p opts
      else case Atoi raw of
        None \<Rightarrow> Inl ErrInvalidLimit
      | Some n \<Rightarrow> Params_Request (p\<lparr>p_Limit := n\<rparr>) opts)"

section \<open>Cursors\<close>

record 'p json_api =
  Marshal :: "'p \<Rightarrow> string option"
  Unmarshal :: "string \<Rightarrow> 'p option"

datatype encode_error = ErrEncodeCursor

definition EncodeCursor :: "'p json_api \<Rightarrow> 'p \<Rightarrow> encode_error + string" where
  "EncodeCursor js position =
     (case Marshal js position of None \<Rightarrow> Inl ErrEncodeCursor | Some b \<Rightarrow> Inr (EncodeToString b))"

definition DecodeCursor :: "'p json_api \<Rightarrow> string \<Rightarrow> page_error + 'p" where
  "DecodeCursor js cursor =
     (if length cursor > MaxCursorLength then Inl ErrInvalidCursor
      else case DecodeString cursor of
        None \<Rightarrow> Inl ErrInvalidCursor
      | Some b \<Rightarrow> (case Unmarshal js b of None \<Rightarrow> Inl ErrInvalidCursor | Some position \<Rightarrow> Inr position))"

section \<open>What a request holds\<close>

lemma sort_loop_sound:
  "sort_loop allowed seen parts = Inr fs \<Longrightarrow>
    distinct (map sf_Field fs) \<and> set (map sf_Field fs) \<subseteq> set allowed - set seen \<and> length fs = length parts"
proof (induction parts arbitrary: seen fs)
  case (Cons part parts)
  then obtain gs where gs: "fs = sort_field (TrimSpace part) # gs"
      "sf_Field (sort_field (TrimSpace part)) \<in> set allowed - set seen"
      "sort_loop allowed (sf_Field (sort_field (TrimSpace part)) # seen) parts = Inr gs"
    by (auto simp: Let_def bind_res_Inr split: if_splits)
  from Cons.IH [OF gs(3)] gs(1,2) show ?case by auto
qed simp

text \<open>
  a validated request is bounded. Its limit is positive and at most the endpoint's maximum, unless it is the
  endpoint's own default; its cursor is at most 512 bytes; its sort is the endpoint's default, or names each field
  at most once and only fields from the allowlist.
\<close>

theorem Params_Request_sound:
  assumes "Params_Request p opts = Inr r"
  shows "0 < r_Limit r \<and> (r_Limit r \<le> (if o_MaxLimit opts \<le> 0 then 100 else o_MaxLimit opts) \<or>
      r_Limit r = (if o_DefaultLimit opts \<le> 0 then 20 else o_DefaultLimit opts)) \<and>
    length (r_Cursor r) \<le> 512 \<and>
    (r_Sort r = o_DefaultSort opts \<or> distinct (map sf_Field (r_Sort r)) \<and> set (map sf_Field (r_Sort r)) \<subseteq> set (o_SortFields opts))"
  using assms sort_loop_sound [of "o_SortFields opts" "[]" "split_on CHR '','' (p_Sort p)"]
  by (auto simp: Params_Request_def Let_def bind_res_Inr DefaultLimit_def MaxLimit_def MaxCursorLength_def image_subset_iff split: if_splits)

definition list_options :: Options where
  "list_options = \<lparr>o_DefaultLimit = 0, o_MaxLimit = 50, o_SortFields = [''created_at'', ''name''], o_DefaultSort = []\<rparr>"

theorem Params_Request_sound_witness:
  "\<exists>r. Parse [''limit'' \<mapsto> [''7''], ''sort'' \<mapsto> [''-created_at,name'']] list_options = Inr r \<and> r_Limit r \<le> 50"
proof -
  let ?p = "\<lparr>p_Limit = 7, p_Cursor = [], p_Sort = ''-created_at,name''\<rparr>"
  let ?r = "\<lparr>r_Limit = 7, r_Cursor = [], r_Sort = [\<lparr>sf_Field = ''created_at'', sf_Desc = True\<rparr>, \<lparr>sf_Field = ''name'', sf_Desc = False\<rparr>]\<rparr>"
  have "Parse [''limit'' \<mapsto> [''7''], ''sort'' \<mapsto> [''-created_at,name'']] list_options = Params_Request ?p list_options"
    by (simp add: Parse_def Get_def Atoi_def digit_val_def in_int64_def)
  moreover have ok: "Params_Request ?p list_options = Inr ?r" by (simp add: Params_Request_def list_options_def MaxCursorLength_def TrimSpace_plain sort_field_def cut_prefix_def has_prefix_def)
  moreover have "r_Limit ?r \<le> 50"
    using Params_Request_sound [OF ok] by (simp add: list_options_def)
  ultimately show ?thesis by metis
qed

section \<open>Round trips\<close>

text \<open>How a client writes a sort order.\<close>

definition show_field :: "SortField \<Rightarrow> string" where
  "show_field f = (if sf_Desc f then ''-'' else []) @ sf_Field f"

fun join_with :: "char \<Rightarrow> string list \<Rightarrow> string" where
  "join_with c [] = []"
| "join_with c [p] = p"
| "join_with c (p # ps) = p @ [c] @ join_with c ps"

lemma split_on_clean: "c \<notin> set p \<Longrightarrow> split_on c (p @ c # s) = p # split_on c s" "c \<notin> set p \<Longrightarrow> split_on c p = [p]"
  by (induction p) auto

lemma split_on_join: "ps \<noteq> [] \<Longrightarrow> \<forall>p \<in> set ps. c \<notin> set p \<Longrightarrow> split_on c (join_with c ps) = ps"
  by (induction ps rule: join_with.induct) (auto simp: split_on_clean)

lemma name_char_byte: "name_char c \<Longrightarrow> 45 < byte c \<and> byte c < 128"
  by (auto simp: name_char_def name_start_def)

lemma snake_name_chars: "snake_name s \<Longrightarrow> s \<noteq> [] \<and> (\<forall>c \<in> set s. name_char c)"
  by (cases s) (auto simp: name_char_def list_all_iff)

lemma show_field_chars:
  assumes "snake_name (sf_Field f)"
  shows "show_field f \<noteq> []" "\<And>c. c \<in> set (show_field f) \<Longrightarrow> 45 \<le> byte c \<and> byte c < 128"
  using snake_name_chars [OF assms] name_char_byte by (fastforce simp: show_field_def)+

lemma TrimSpace_show_field: "snake_name (sf_Field f) \<Longrightarrow> TrimSpace (show_field f) = show_field f"
  by (rule TrimSpace_plain; use show_field_chars [of f] in \<open>fastforce dest: hd_in_set last_in_set\<close>)

lemma sort_field_show:
  assumes "snake_name (sf_Field f)" shows "sort_field (show_field f) = f"
proof (cases "sf_Desc f")
  case True
  then have "cut_prefix (show_field f) ''-'' = Some (sf_Field f)" by (simp add: show_field_def cut_prefix_Some)
  with True show ?thesis by (simp add: sort_field_def)
next
  case False
  have "hd (sf_Field f) \<noteq> CHR ''-''" using snake_name_chars [OF assms] name_char_byte [of "CHR ''-''"] hd_in_set by force
  with False have "cut_prefix (show_field f) ''-'' = None"
    by (cases "sf_Field f") (auto simp: show_field_def cut_prefix_def has_prefix_def)
  with False show ?thesis by (simp add: sort_field_def show_field_def)
qed

lemma sort_loop_show:
  "\<forall>f \<in> set fs. snake_name (sf_Field f) \<Longrightarrow> set (map sf_Field fs) \<subseteq> set allowed - set seen \<Longrightarrow> distinct (map sf_Field fs) \<Longrightarrow>
    sort_loop allowed seen (map show_field fs) = Inr fs"
proof (induction fs arbitrary: seen)
  case (Cons f fs)
  then have "sort_loop allowed (sf_Field f # seen) (map show_field fs) = Inr fs" using Cons.IH [of "sf_Field f # seen"] by (simp add: subset_Diff_insert)
  with Cons.prems show ?case by (simp add: TrimSpace_show_field sort_field_show)
qed simp

lemma join_with_chars:
  "ps \<noteq> [] \<Longrightarrow> \<forall>p \<in> set ps. p \<noteq> [] \<Longrightarrow> hd (join_with c ps) = hd (hd ps) \<and> last (join_with c ps) = last (last ps) \<and> join_with c ps \<noteq> []"
  by (induction ps rule: join_with.induct) auto

text \<open>
  what a client asks for is what it gets. A sort order of distinct allowlisted fields (whose names are
  lowercase identifiers), written with commas and a leading minus for descending, is read back exactly, order and
  directions included.
\<close>

theorem sort_roundtrip:
  assumes "fs \<noteq> []" "distinct (map sf_Field fs)" "set (map sf_Field fs) \<subseteq> set (o_SortFields opts)"
    "\<forall>f \<in> set fs. snake_name (sf_Field f)" "0 < n" "n \<le> o_MaxLimit opts" "length cur \<le> 512"
  shows "Params_Request \<lparr>p_Limit = n, p_Cursor = cur, p_Sort = join_with CHR '','' (map show_field fs)\<rparr> opts =
    Inr \<lparr>r_Limit = n, r_Cursor = cur, r_Sort = fs\<rparr>"
proof -
  let ?ps = "map show_field fs"
  note ch = show_field_chars [OF assms(4) [rule_format]]
  have "\<forall>p \<in> set ?ps. CHR '','' \<notin> set p" using ch(2) by fastforce
  with split_on_join [of ?ps] assms(1) have parts: "split_on CHR '','' (join_with CHR '','' ?ps) = ?ps" by simp
  have ends: "hd (join_with CHR '','' ?ps) = hd (hd ?ps)" "last (join_with CHR '','' ?ps) = last (last ?ps)"
      "join_with CHR '','' ?ps \<noteq> []"
    using join_with_chars [of ?ps] assms(1) ch(1) by auto
  have "hd ?ps \<in> set ?ps" "last ?ps \<in> set ?ps" using assms(1) by (intro hd_in_set last_in_set; simp)+
  then obtain f g where "f \<in> set fs" "hd ?ps = show_field f" "g \<in> set fs" "last ?ps = show_field g" by auto
  then have "33 \<le> byte (hd (hd ?ps)) \<and> byte (hd (hd ?ps)) < 128" "33 \<le> byte (last (last ?ps)) \<and> byte (last (last ?ps)) < 128"
    using ch(2) [of f "hd (show_field f)"] ch(2) [of g "last (show_field g)"] ch(1) [of f] ch(1) [of g] by simp_all
  then have "TrimSpace (join_with CHR '','' ?ps) \<noteq> []" using ends TrimSpace_plain by simp
  then show ?thesis using assms(5-7) sort_loop_show [OF assms(4), of "o_SortFields opts" "[]"] assms(2,3)
    by (simp add: Params_Request_def parts MaxCursorLength_def)
qed

theorem sort_roundtrip_witness:
  "Params_Request \<lparr>p_Limit = 5, p_Cursor = [], p_Sort = ''-created_at,name''\<rparr> list_options =
    Inr \<lparr>r_Limit = 5, r_Cursor = [], r_Sort = [\<lparr>sf_Field = ''created_at'', sf_Desc = True\<rparr>, \<lparr>sf_Field = ''name'', sf_Desc = False\<rparr>]\<rparr>"
  using sort_roundtrip [of "[\<lparr>sf_Field = ''created_at'', sf_Desc = True\<rparr>, \<lparr>sf_Field = ''name'', sf_Desc = False\<rparr>]" list_options 5 "[]"]
  by (simp add: list_options_def show_field_def name_start_def name_char_def)

text \<open>
  C14: cursors round-trip, up to their size. When the JSON of a position is read back as that position, the
  cursor made from it decodes to it if the JSON has at most 384 bytes; a longer one makes a cursor over
  \<open>MaxCursorLength\<close>, which \<open>EncodeCursor\<close> still hands out and \<open>DecodeCursor\<close> refuses.
\<close>

theorem cursor_roundtrip:
  assumes "Marshal js pos = Some b" "Unmarshal js b = Some pos"
  shows "\<exists>cur. EncodeCursor js pos = Inr cur \<and>
    DecodeCursor js cur = (if length b \<le> 384 then Inr pos else Inl ErrInvalidCursor)"
  using assms by (auto simp: EncodeCursor_def DecodeCursor_def DecodeString_EncodeToString MaxCursorLength_def length_EncodeToString)

text \<open>JSON of a string position without characters to escape.\<close>

definition plain_json :: "string json_api" where
  "plain_json = \<lparr>Marshal = (\<lambda>s. Some (CHR 0x22 # s @ [CHR 0x22])), Unmarshal = (\<lambda>b. Some (butlast (tl b)))\<rparr>"

theorem cursor_roundtrip_witness:
  "\<exists>cur. EncodeCursor plain_json ''org_1'' = Inr cur \<and> DecodeCursor plain_json cur = Inr ''org_1''"
  using cursor_roundtrip [of plain_json "''org_1''" "CHR 0x22 # ''org_1'' @ [CHR 0x22]"] by (simp add: plain_json_def)

end
