(* ===== verification/Snapshots.thy ===== *)
theory Snapshots
  imports Prelude
begin

text \<open>
  Snapshots in memory that follow a table: the feature flags and the runtime settings of every instance are a
  map from keys to versioned states, which single changes and full reloads update, in whatever order they arrive
  (\<open>Registry.apply\<close> and \<open>Registry.replaceAll\<close> of \<open>modules/flags\<close> and \<open>modules/settings\<close>).

  The locale \<open>versioned_memory\<close> is what both promise: a state only ever gives way to one whose version is at least
  as new. Its lemmas say what any sequence of deliveries leaves behind.
\<close>

datatype 's delivery = One string 's | All "string \<rightharpoonup> 's"

fun delivered :: "'s delivery \<Rightarrow> string \<Rightarrow> 's option" where
  "delivered (One k s) j = (if j = k then Some s else None)"
| "delivered (All ld) j = ld j"

fun deliver :: "(string \<Rightarrow> 's \<Rightarrow> 'm \<Rightarrow> 'm) \<Rightarrow> ((string \<rightharpoonup> 's) \<Rightarrow> 'm \<Rightarrow> 'm) \<Rightarrow> 's delivery \<Rightarrow> 'm \<Rightarrow> 'm" where
  "deliver app rep (One k s) m = app k s m"
| "deliver app rep (All ld) m = rep ld m"

definition deliver_all :: "(string \<Rightarrow> 's \<Rightarrow> 'm \<Rightarrow> 'm) \<Rightarrow> ((string \<rightharpoonup> 's) \<Rightarrow> 'm \<Rightarrow> 'm) \<Rightarrow> 's delivery list \<Rightarrow> 'm \<Rightarrow> 'm" where
  "deliver_all app rep ds m = foldl (\<lambda>m d. deliver app rep d m) m ds"

text \<open>The state that stays when a new one arrives.\<close>

definition newer :: "('s \<Rightarrow> int) \<Rightarrow> 's option \<Rightarrow> 's option \<Rightarrow> 's option" where
  "newer ver old new =
     (case new of None \<Rightarrow> old
      | Some s \<Rightarrow> (case old of None \<Rightarrow> Some s | Some t \<Rightarrow> if ver t > ver s then Some t else Some s))"

lemma newer_simps [simp]: "newer ver old None = old" "newer ver None (Some s) = Some s"
  by (simp_all add: newer_def)

lemma newer_cases: "newer ver old new = old \<or> newer ver old new = new"
  by (auto simp: newer_def split: option.splits)

lemma newer_ge: "newer ver old new = Some s \<Longrightarrow> old = Some t \<or> new = Some t \<Longrightarrow> ver t \<le> ver s"
  by (auto simp: newer_def split: option.splits if_splits)

lemma newer_None: "newer ver old new = None \<longleftrightarrow> old = None \<and> new = None"
  by (auto simp: newer_def split: option.splits)

locale versioned_memory =
  fixes ver :: "'s \<Rightarrow> int"
    and app :: "string \<Rightarrow> 's \<Rightarrow> 'm \<Rightarrow> 'm"
    and rep :: "(string \<rightharpoonup> 's) \<Rightarrow> 'm \<Rightarrow> 'm"
    and look :: "'m \<Rightarrow> string \<Rightarrow> 's option"
  assumes look_app: "look (app k s m) j = newer ver (look m j) (delivered (One k s) j)"
    and look_rep: "look (rep ld m) j = newer ver (look m j) (ld j)"
begin

lemma look_deliver: "look (deliver app rep d m) j = newer ver (look m j) (delivered d j)"
  by (cases d) (simp_all add: look_app look_rep)

lemma deliver_all_simps [simp]:
  "deliver_all app rep [] m = m"
  "deliver_all app rep (d # ds) m = deliver_all app rep ds (deliver app rep d m)"
  by (simp_all add: deliver_all_def)

text \<open>What is in memory came from somewhere, and is at least as new as everything that arrived.\<close>

lemma deliver_all_origin:
  "look (deliver_all app rep ds m) j = Some s \<Longrightarrow> look m j = Some s \<or> (\<exists>d \<in> set ds. delivered d j = Some s)"
proof (induction ds arbitrary: m)
  case (Cons d ds)
  from Cons.IH [of "deliver app rep d m"] Cons.prems show ?case
    using newer_cases [of ver "look m j" "delivered d j"] by (auto simp: look_deliver)
qed simp

lemma deliver_all_newest:
  "look m j = Some t \<or> (\<exists>d \<in> set ds. delivered d j = Some t) \<Longrightarrow>
    \<exists>s. look (deliver_all app rep ds m) j = Some s \<and> ver t \<le> ver s"
proof (induction ds arbitrary: m t)
  case (Cons d ds)
  show ?case
  proof (cases "\<exists>d \<in> set ds. delivered d j = Some t")
    case True
    with Cons.IH [of "deliver app rep d m" t] show ?thesis by simp
  next
    case False
    with Cons.prems have here: "look m j = Some t \<or> delivered d j = Some t" by auto
    then obtain s where s: "look (deliver app rep d m) j = Some s"
      using newer_None [of ver "look m j" "delivered d j"] by (auto simp: look_deliver)
    then have "ver t \<le> ver s" using newer_ge [of ver "look m j" "delivered d j" s t] here by (auto simp: look_deliver)
    with Cons.IH [of "deliver app rep d m" s] s show ?thesis by (metis deliver_all_simps(2) order_trans)
  qed
qed simp

text \<open>
  When every state that arrives is the one the table had under its version, memory holds the newest state that
  arrived, whatever the order and however often each arrived.
\<close>

lemma deliver_all_converges:
  assumes genuine: "\<And>d s. d \<in> set ds \<Longrightarrow> delivered d j = Some s \<Longrightarrow> s = H (ver s)"
    and start: "\<And>s. look m j = Some s \<Longrightarrow> s = H (ver s) \<and> ver s \<le> n"
    and newest: "\<And>d s. d \<in> set ds \<Longrightarrow> delivered d j = Some s \<Longrightarrow> ver s \<le> n"
    and arrives: "\<exists>d \<in> set ds. delivered d j = Some t" "ver t = n"
  shows "look (deliver_all app rep ds m) j = Some (H n)"
proof -
  from deliver_all_newest [of m j t ds] arrives obtain s where s: "look (deliver_all app rep ds m) j = Some s" "n \<le> ver s"
    by auto
  from deliver_all_origin [OF s(1)] have "s = H (ver s) \<and> ver s \<le> n" using genuine start newest by blast
  with s show ?thesis by auto
qed

end

end
