(* ===== verification/Settings.thy ===== *)
theory Settings
  imports Complex_Main Snapshots Audit_Events Txn
begin

text \<open>
  Runtime settings (\<open>modules/settings\<close>): declarations with a default and validators, values read from memory for the
  platform or for the caller's organisation, the snapshots of both that changes and reloads keep current, and the
  store: changes with a version check, a history row and a notification in one transaction, views, histories and the
  organisations that override a setting.

  Parameters are the library calls that read and print text (\<open>go_lib\<close>): \<open>json.Unmarshal\<close> into each Go type,
  \<open>json.Marshal\<close>, \<open>time.ParseDuration\<close>, \<open>Duration.String\<close>, \<open>url.Parse\<close>, \<open>mail.ParseAddress\<close>; how a \<open>jsonb\<close> column
  reformats a text or refuses it; and the collation key of the database. A finite \<open>float64\<close> is the rational number it is.
  The type assertion \<open>v.(T)\<close> that would panic is the error \<open>TypePanic\<close>.
\<close>

section \<open>Values\<close>

datatype Value = VBool bool | VInt int | VFloat rat | VString string | VDuration duration | VList "string list"

datatype go_type = TBool | TInt | TFloat | TString | TDuration | TList

fun type_of :: "Value \<Rightarrow> go_type" where
  "type_of (VBool _) = TBool"
| "type_of (VInt _) = TInt"
| "type_of (VFloat _) = TFloat"
| "type_of (VString _) = TString"
| "type_of (VDuration _) = TDuration"
| "type_of (VList _) = TList"

datatype setting_kind = KindBool | KindInt | KindFloat | KindString | KindEnum | KindDuration | KindStringList

fun kind_type :: "setting_kind \<Rightarrow> go_type" where
  "kind_type KindBool = TBool"
| "kind_type KindInt = TInt"
| "kind_type KindFloat = TFloat"
| "kind_type KindString = TString"
| "kind_type KindEnum = TString"
| "kind_type KindDuration = TDuration"
| "kind_type KindStringList = TList"

record go_lib =
  l_bool :: "string \<Rightarrow> bool option"
  l_int :: "string \<Rightarrow> int option"
  l_float :: "string \<Rightarrow> rat option"
  l_string :: "string \<Rightarrow> string option"
  l_strings :: "string \<Rightarrow> string list option"
  l_Marshal :: "Value \<Rightarrow> string"
  l_ParseDuration :: "string \<Rightarrow> duration option"
  l_DurationString :: "duration \<Rightarrow> string"
  l_ParseURL :: "string \<Rightarrow> (string \<times> string) option"
  l_ParseAddress :: "string \<Rightarrow> string option"
  l_jsonb :: "string \<Rightarrow> string option"
  l_collate :: "string \<Rightarrow> string"

datatype value_error = ValueRequired | MustBe string | BadDuration | OutOfRange Value Value | NotOneOf "string list"
  | TooLong int | TooManyItems int | NotURL | NotEmail | Custom string | BadItem nat value_error | TypePanic

definition isNull :: "string \<Rightarrow> bool" where
  "isNull raw = (let trimmed = TrimSpace raw in trimmed = [] \<or> trimmed = ''null'')"

definition decodeJSON :: "(string \<Rightarrow> 'a option) \<Rightarrow> string \<Rightarrow> string \<Rightarrow> value_error + 'a" where
  "decodeJSON unmarshal what raw =
     (if isNull raw then Inl ValueRequired
      else case unmarshal raw of None \<Rightarrow> Inl (MustBe what) | Some v \<Rightarrow> Inr v)"

definition decodeDuration :: "go_lib \<Rightarrow> string \<Rightarrow> value_error + duration" where
  "decodeDuration lib raw =
     bind_res (decodeJSON (l_string lib) ''a duration such as \"15m\"'' raw) (\<lambda>s.
     case l_ParseDuration lib s of None \<Rightarrow> Inl BadDuration | Some d \<Rightarrow> Inr d)"

text \<open>A nil list is the empty list.\<close>

definition decodeStringList :: "go_lib \<Rightarrow> string \<Rightarrow> value_error + string list" where
  "decodeStringList lib raw = decodeJSON (l_strings lib) ''a list of strings'' raw"

text \<open>The decoder a declaration of each kind passes on, as a value of any type; and the encoder.\<close>

fun decode_kind :: "go_lib \<Rightarrow> setting_kind \<Rightarrow> string \<Rightarrow> value_error + Value" where
  "decode_kind lib KindBool raw = map_sum id VBool (decodeJSON (l_bool lib) ''a boolean'' raw)"
| "decode_kind lib KindInt raw = map_sum id VInt (decodeJSON (l_int lib) ''a whole number'' raw)"
| "decode_kind lib KindFloat raw = map_sum id VFloat (decodeJSON (l_float lib) ''a number'' raw)"
| "decode_kind lib KindString raw = map_sum id VString (decodeJSON (l_string lib) ''a string'' raw)"
| "decode_kind lib KindEnum raw = map_sum id VString (decodeJSON (l_string lib) ''a string'' raw)"
| "decode_kind lib KindDuration raw = map_sum id VDuration (decodeDuration lib raw)"
| "decode_kind lib KindStringList raw = map_sum id VList (decodeStringList lib raw)"

fun encode_value :: "go_lib \<Rightarrow> Value \<Rightarrow> string" where
  "encode_value lib (VDuration d) = l_Marshal lib (VString (l_DurationString lib d))"
| "encode_value lib v = l_Marshal lib v"

section \<open>Declarations\<close>

datatype constraint = CValue Value | CText string | CTexts "string list" | CInt int

record setting_def =
  se_key :: string
  se_kind :: setting_kind
  se_description :: string
  se_group :: string
  se_reasonRequired :: bool
  se_restartRequired :: bool
  se_orgOverridable :: bool
  se_def :: Value
  se_validators :: "(Value \<Rightarrow> value_error option) list"
  se_constraints :: "string \<rightharpoonup> constraint"

fun run_validators :: "(Value \<Rightarrow> value_error option) list \<Rightarrow> Value \<Rightarrow> value_error option" where
  "run_validators [] v = None"
| "run_validators (f # fs) v = (case f v of Some e \<Rightarrow> Some e | None \<Rightarrow> run_validators fs v)"

definition parse :: "go_lib \<Rightarrow> setting_def \<Rightarrow> string \<Rightarrow> value_error + Value" where
  "parse lib d raw =
     bind_res (decode_kind lib (se_kind d) raw) (\<lambda>v.
     case run_validators (se_validators d) v of Some e \<Rightarrow> Inl e | None \<Rightarrow> Inr v)"

text \<open>\<open>Range\<close> is one option per type of its bounds.\<close>

datatype set_option = OptDescribe string | OptGroup string | ReasonRequired | RestartRequired | OrgOverridable
  | RangeInt int int | RangeFloat rat rat | RangeDuration duration duration | OneOf "string list" | MaxLen int
  | MaxItems int | URL | Email | Validate go_type "Value \<Rightarrow> string option"

definition DefaultMaxItems :: int where "DefaultMaxItems = 100"

definition add_validator :: "(Value \<Rightarrow> value_error option) \<Rightarrow> setting_def \<Rightarrow> setting_def" where
  "add_validator f d = d\<lparr>se_validators := se_validators d @ [f]\<rparr>"

definition constrain :: "string \<Rightarrow> constraint \<Rightarrow> setting_def \<Rightarrow> setting_def" where
  "constrain k x d = d\<lparr>se_constraints := (se_constraints d)(k \<mapsto> x)\<rparr>"

fun constraintValue :: "go_lib \<Rightarrow> Value \<Rightarrow> constraint" where
  "constraintValue lib (VDuration d) = CText (l_DurationString lib d)"
| "constraintValue lib v = CValue v"

fun check_items :: "(string \<Rightarrow> value_error option) \<Rightarrow> nat \<Rightarrow> string list \<Rightarrow> value_error option" where
  "check_items check i [] = None"
| "check_items check i (s # ss) = (case check s of Some e \<Rightarrow> Some (BadItem (i + 1) e) | None \<Rightarrow> check_items check (i + 1) ss)"

definition eachString :: "(string \<Rightarrow> value_error option) \<Rightarrow> setting_def \<Rightarrow> setting_def option" where
  "eachString check d =
     (if se_kind d = KindString \<or> se_kind d = KindEnum
      then Some (add_validator (\<lambda>v. case v of VString s \<Rightarrow> check s | _ \<Rightarrow> Some TypePanic) d)
      else if se_kind d = KindStringList
      then Some (add_validator (\<lambda>v. case v of VList ss \<Rightarrow> check_items check 0 ss | _ \<Rightarrow> Some TypePanic) d)
      else None)"

definition check_range :: "(Value \<Rightarrow> 'a::linorder option) \<Rightarrow> ('a \<Rightarrow> Value) \<Rightarrow> 'a \<Rightarrow> 'a \<Rightarrow> Value \<Rightarrow> value_error option" where
  "check_range get mk lo hi v =
     (case get v of None \<Rightarrow> Some TypePanic
      | Some x \<Rightarrow> if x < lo \<or> x > hi then Some (OutOfRange (mk lo) (mk hi)) else None)"

fun as_int :: "Value \<Rightarrow> int option" where
  "as_int (VInt x) = Some x"
| "as_int _ = None"

fun as_float :: "Value \<Rightarrow> rat option" where
  "as_float (VFloat x) = Some x"
| "as_float _ = None"

fun as_duration :: "Value \<Rightarrow> duration option" where
  "as_duration (VDuration x) = Some x"
| "as_duration _ = None"

definition apply_range :: "go_lib \<Rightarrow> (Value \<Rightarrow> 'a::linorder option) \<Rightarrow> ('a \<Rightarrow> Value) \<Rightarrow> 'a \<Rightarrow> 'a \<Rightarrow> setting_def \<Rightarrow> setting_def option" where
  "apply_range lib get mk lo hi d =
     (if get (se_def d) = None \<or> lo > hi then None
      else Some (constrain ''max'' (constraintValue lib (mk hi)) (constrain ''min'' (constraintValue lib (mk lo))
        (add_validator (check_range get mk lo hi) d))))"

definition one_of :: "string list \<Rightarrow> string \<Rightarrow> value_error option" where
  "one_of allowed s = (if s \<in> set allowed then None else Some (NotOneOf allowed))"

definition max_len :: "int \<Rightarrow> string \<Rightarrow> value_error option" where
  "max_len n s = (if int (rune_count s) > n then Some (TooLong n) else None)"

definition is_url :: "go_lib \<Rightarrow> string \<Rightarrow> value_error option" where
  "is_url lib s =
     (case l_ParseURL lib s of None \<Rightarrow> Some NotURL
      | Some (scheme, host) \<Rightarrow> if (scheme \<noteq> ''http'' \<and> scheme \<noteq> ''https'') \<or> host = [] then Some NotURL else None)"

definition is_email :: "go_lib \<Rightarrow> string \<Rightarrow> value_error option" where
  "is_email lib s = (if l_ParseAddress lib s = Some s then None else Some NotEmail)"

definition max_items :: "int \<Rightarrow> Value \<Rightarrow> value_error option" where
  "max_items n v = (case v of VList ss \<Rightarrow> if int (length ss) > n then Some (TooManyItems n) else None | _ \<Rightarrow> Some TypePanic)"

text \<open>An option that does not fit the declaration is \<open>None\<close>.\<close>

fun apply_set_option :: "go_lib \<Rightarrow> set_option \<Rightarrow> setting_def \<Rightarrow> setting_def option" where
  "apply_set_option lib (OptDescribe t) d = Some (d\<lparr>se_description := t\<rparr>)"
| "apply_set_option lib (OptGroup n) d = Some (d\<lparr>se_group := n\<rparr>)"
| "apply_set_option lib ReasonRequired d = Some (d\<lparr>se_reasonRequired := True\<rparr>)"
| "apply_set_option lib RestartRequired d = Some (d\<lparr>se_restartRequired := True\<rparr>)"
| "apply_set_option lib OrgOverridable d = Some (d\<lparr>se_orgOverridable := True\<rparr>)"
| "apply_set_option lib (RangeInt lo hi) d = apply_range lib as_int VInt lo hi d"
| "apply_set_option lib (RangeFloat lo hi) d = apply_range lib as_float VFloat lo hi d"
| "apply_set_option lib (RangeDuration lo hi) d = apply_range lib as_duration VDuration lo hi d"
| "apply_set_option lib (OneOf values) d =
     (if values = [] then None else eachString (one_of values) (constrain ''one_of'' (CTexts values) d))"
| "apply_set_option lib (MaxLen n) d = (if n \<le> 0 then None else eachString (max_len n) (constrain ''max_len'' (CInt n) d))"
| "apply_set_option lib (MaxItems n) d =
     (if se_kind d \<noteq> KindStringList \<or> n \<le> 0 then None
      else Some (add_validator (max_items n) (constrain ''max_items'' (CInt n) d)))"
| "apply_set_option lib URL d = eachString (is_url lib) (constrain ''format'' (CText ''url'') d)"
| "apply_set_option lib Email d = eachString (is_email lib) (constrain ''format'' (CText ''email'') d)"
| "apply_set_option lib (Validate t fn) d =
     (if type_of (se_def d) \<noteq> t then None
      else Some (add_validator (\<lambda>v. if type_of v \<noteq> t then Some TypePanic else map_option Custom (fn v)) d))"

fun apply_options :: "go_lib \<Rightarrow> set_option list \<Rightarrow> setting_def \<Rightarrow> setting_def option" where
  "apply_options lib [] d = Some d"
| "apply_options lib (x # xs) d = (case apply_set_option lib x d of None \<Rightarrow> None | Some d \<Rightarrow> apply_options lib xs d)"

section \<open>The registry\<close>

record set_stored =
  st_value :: "Value option"
  st_version :: int
  st_updatedAt :: time
  st_updatedBy :: string
  st_invalid :: bool
  st_seq :: nat

record set_Registry =
  sr_defs :: "string \<rightharpoonup> setting_def"
  sr_keys :: "string list"
  sr_frozen :: bool
  sr_live :: "(string \<rightharpoonup> set_stored) option"
  sr_boot :: "(string \<rightharpoonup> set_stored) option"
  sr_unknown :: "string list option"
  sr_orgs :: "string \<rightharpoonup> (string \<times> set_stored) list"
  sr_orgSeq :: nat

definition set_NewRegistry :: set_Registry where
  "set_NewRegistry = \<lparr>sr_defs = Map.empty, sr_keys = [], sr_frozen = False, sr_live = None, sr_boot = None, sr_unknown = None,
     sr_orgs = Map.empty, sr_orgSeq = 0\<rparr>"

definition new_def :: "string \<Rightarrow> setting_kind \<Rightarrow> Value \<Rightarrow> setting_def" where
  "new_def key kind def = \<lparr>se_key = key, se_kind = kind, se_description = [], se_group = [], se_reasonRequired = False,
     se_restartRequired = False, se_orgOverridable = False, se_def = def, se_validators = [], se_constraints = Map.empty\<rparr>"

definition bound_items :: "setting_def \<Rightarrow> setting_def" where
  "bound_items d =
     (if se_kind d = KindStringList \<and> se_constraints d ''max_items'' = None
      then add_validator (max_items DefaultMaxItems) (constrain ''max_items'' (CInt DefaultMaxItems) d) else d)"

text \<open>A declaration that panics is \<open>None\<close>.\<close>

definition declare_setting :: "go_lib \<Rightarrow> set_Registry \<Rightarrow> string \<Rightarrow> setting_kind \<Rightarrow> Value \<Rightarrow> set_option list \<Rightarrow> set_Registry option" where
  "declare_setting lib r key kind def opts =
     (if \<not> dotted_name2 key then None
      else case apply_options lib opts (new_def key kind def) of
        None \<Rightarrow> None
      | Some d0 \<Rightarrow>
          let d = bound_items d0 in
          if se_orgOverridable d \<and> se_restartRequired d then None
          else (case parse lib d (encode_value lib def) of
             Inl _ \<Rightarrow> None
           | Inr _ \<Rightarrow>
               if sr_frozen r \<or> sr_defs r key \<noteq> None then None
               else Some (r\<lparr>sr_defs := (sr_defs r)(key \<mapsto> d), sr_keys := sr_keys r @ [key]\<rparr>)))"

text \<open>The exported declarations, one for each kind.\<close>

definition set_Bool where "set_Bool lib r key def opts = declare_setting lib r key KindBool (VBool def) opts"
definition set_Int where "set_Int lib r key def opts = declare_setting lib r key KindInt (VInt def) opts"
definition set_Float where "set_Float lib r key def opts = declare_setting lib r key KindFloat (VFloat def) opts"
definition set_String where "set_String lib r key def opts = declare_setting lib r key KindString (VString def) opts"
definition set_Enum where
  "set_Enum lib r key def allowed opts = declare_setting lib r key KindEnum (VString def) (OneOf allowed # opts)"
definition set_Duration where "set_Duration lib r key def opts = declare_setting lib r key KindDuration (VDuration def) opts"
definition set_StringList where "set_StringList lib r key def opts = declare_setting lib r key KindStringList (VList def) opts"

definition set_freeze :: "set_Registry \<Rightarrow> set_Registry" where
  "set_freeze r = r\<lparr>sr_frozen := True\<rparr>"

definition set_definitions :: "set_Registry \<Rightarrow> setting_def list" where
  "set_definitions r = map (\<lambda>k. the (sr_defs r k)) (sr_keys r)"

definition snap_value :: "(string \<rightharpoonup> set_stored) option \<Rightarrow> string \<Rightarrow> set_stored option" where
  "snap_value snap key = (case snap of None \<Rightarrow> None | Some m \<Rightarrow> m key)"

definition set_apply :: "string \<Rightarrow> set_stored \<Rightarrow> set_Registry \<Rightarrow> set_Registry" where
  "set_apply key st r =
     (case sr_live r of
        None \<Rightarrow> r\<lparr>sr_live := Some [key \<mapsto> st]\<rparr>
      | Some cur \<Rightarrow>
          (case cur key of
             Some old \<Rightarrow> if st_version old > st_version st then r else r\<lparr>sr_live := Some (cur(key \<mapsto> st))\<rparr>
           | None \<Rightarrow> r\<lparr>sr_live := Some (cur(key \<mapsto> st))\<rparr>))"

definition set_keep_newer :: "(string \<rightharpoonup> set_stored) \<Rightarrow> (string \<rightharpoonup> set_stored) \<Rightarrow> string \<rightharpoonup> set_stored" where
  "set_keep_newer cur loaded = (\<lambda>k. case cur k of
      None \<Rightarrow> loaded k
    | Some old \<Rightarrow> (case loaded k of None \<Rightarrow> Some old | Some st \<Rightarrow> if st_version old > st_version st then Some old else Some st))"

definition set_replaceAll :: "(string \<rightharpoonup> set_stored) \<Rightarrow> string list \<Rightarrow> set_Registry \<Rightarrow> set_Registry" where
  "set_replaceAll loaded unknown r =
     (let next' = (case sr_live r of None \<Rightarrow> loaded | Some cur \<Rightarrow> set_keep_newer cur loaded) in
      r\<lparr>sr_live := Some next', sr_boot := (case sr_boot r of None \<Rightarrow> Some next' | Some b \<Rightarrow> Some b), sr_unknown := Some unknown\<rparr>)"

section \<open>Organisation values\<close>

definition maxOrgIDLen :: nat where "maxOrgIDLen = 100"

definition checkOrgID :: "string \<Rightarrow> bool" where
  "checkOrgID i = (i \<noteq> [] \<and> length i \<le> maxOrgIDLen \<and> list_all (\<lambda>c. 32 < byte c \<and> byte c \<le> 126) i)"

fun findOrgValue :: "(string \<times> set_stored) list \<Rightarrow> string \<Rightarrow> set_stored option" where
  "findOrgValue [] key = None"
| "findOrgValue ((k, st) # vs) key = (if k = key then Some st else findOrgValue vs key)"

definition orgValue :: "set_Registry \<Rightarrow> string \<Rightarrow> string \<Rightarrow> set_stored option" where
  "orgValue r org key = (case sr_orgs r org of None \<Rightarrow> None | Some vs \<Rightarrow> findOrgValue vs key)"

definition applyOrg :: "string \<Rightarrow> string \<Rightarrow> set_stored \<Rightarrow> set_Registry \<Rightarrow> set_Registry" where
  "applyOrg org key st r =
     (let old = (case sr_orgs r org of None \<Rightarrow> [] | Some vs \<Rightarrow> vs) in
      if (case findOrgValue old key of None \<Rightarrow> False | Some prev \<Rightarrow> st_version prev > st_version st) then r
      else
        let seq = (sr_orgSeq r + 1) mod 2 ^ 64 in
        r\<lparr>sr_orgSeq := seq,
          sr_orgs := (sr_orgs r)(org \<mapsto> filter (\<lambda>v. fst v \<noteq> key) old @ [(key, st\<lparr>st_seq := seq\<rparr>)])\<rparr>)"

text \<open>One value of an organisation against the reloaded values, of which \<open>slices.IndexFunc\<close> finds the first with its key.\<close>

definition merge_value :: "nat \<Rightarrow> (string \<times> set_stored) list \<Rightarrow> string \<times> set_stored \<Rightarrow> (string \<times> set_stored) list" where
  "merge_value since vs old =
     (case List.find (\<lambda>i. fst (vs ! i) = fst old) [0..<length vs] of
        None \<Rightarrow> if st_seq (snd old) > since then vs @ [old] else vs
      | Some i \<Rightarrow> if st_version (snd old) > st_version (snd (vs ! i)) then vs[i := old] else vs)"

definition merge_org :: "nat \<Rightarrow> (string \<times> set_stored) list \<Rightarrow> (string \<times> set_stored) list \<Rightarrow> (string \<times> set_stored) list" where
  "merge_org since olds vs = foldl (merge_value since) vs olds"

definition replaceOrgs :: "(string \<rightharpoonup> (string \<times> set_stored) list) \<Rightarrow> nat \<Rightarrow> set_Registry \<Rightarrow> set_Registry" where
  "replaceOrgs loaded since r =
     r\<lparr>sr_orgs := (\<lambda>org. case sr_orgs r org of
         None \<Rightarrow> loaded org
       | Some olds \<Rightarrow>
           (let next' = merge_org since olds (case loaded org of None \<Rightarrow> [] | Some vs \<Rightarrow> vs) in
            if next' = [] then loaded org else Some next'))\<rparr>"

section \<open>Reading a setting\<close>

definition org_override :: "set_Registry \<Rightarrow> ctx \<Rightarrow> setting_def \<Rightarrow> Value option" where
  "org_override r c d =
     (if \<not> se_orgOverridable d then None
      else case From c of
        None \<Rightarrow> None
      | Some a \<Rightarrow> if a_OrgID a = [] then None
                  else case orgValue r (a_OrgID a) (se_key d) of None \<Rightarrow> None | Some st \<Rightarrow> st_value st)"

definition set_Get :: "set_Registry \<Rightarrow> ctx \<Rightarrow> setting_def \<Rightarrow> Value" where
  "set_Get r c d =
     (case org_override r c d of
        Some v \<Rightarrow> v
      | None \<Rightarrow>
          (case snap_value (if se_restartRequired d then sr_boot r else sr_live r) (se_key d) of
             None \<Rightarrow> se_def d
           | Some st \<Rightarrow> (case st_value st of None \<Rightarrow> se_def d | Some v \<Rightarrow> v)))"

end
