(* ===== verification/Settings_Store.thy ===== *)
theory Settings_Store
  imports Settings
begin

text \<open>
  The settings store: the tables \<open>settings_values\<close> and \<open>settings_history\<close> with one definition per statement, reloads,
  views, changes for the platform and for an organisation, and histories (\<open>store.go\<close>, \<open>org.go\<close>, \<open>upsert_value.go\<close>,
  \<open>select_value.go\<close>, \<open>select_org_value.go\<close>, \<open>select_overrides.go\<close>, \<open>history.go\<close>, \<open>delete_history.go\<close>). An empty organisation ID
  stands for the \<open>NULL\<close> of a platform-wide row, as \<open>coalesce\<close> and \<open>nullable\<close> have it.
\<close>

section \<open>Tables\<close>

record valueRow =
  vr_key :: string
  vr_orgID :: string
  vr_value :: "string option"
  vr_version :: int
  vr_updatedAt :: time
  vr_updatedBy :: string

record set_historyRow =
  sh_id :: int
  sh_key :: string
  sh_orgID :: string
  sh_oldValue :: "string option"
  sh_newValue :: "string option"
  sh_version :: int
  sh_reason :: string
  sh_actorKind :: Kind
  sh_actorID :: string
  sh_requestID :: string
  sh_changedAt :: time

text \<open>The tables, the identity sequence of the history, the database clock and the notifications sent.\<close>

record settings_db =
  tb_values :: "valueRow list"
  tb_history :: "set_historyRow list"
  tb_nextID :: int
  tb_now :: time
  tb_notified :: "string list"

datatype set_error = ErrUnknownSetting | ErrVersionConflict | ErrReasonRequired | ErrActorRequired | ErrNotOrgOverridable
  | ErrInvalidOrgID | InvalidValueError string value_error | ErrDeleteLimit

text \<open>What an instance keeps outside the database: its registry and the events it hands to the audit recorder.\<close>

record set_instance =
  si_reg :: set_Registry
  si_events :: "(ctx \<times> Event) list"

type_synonym 'a st = "(settings_db, set_instance, set_error, 'a) comp"

definition is_row :: "string \<Rightarrow> string \<Rightarrow> valueRow \<Rightarrow> bool" where
  "is_row key org row \<longleftrightarrow> vr_key row = key \<and> vr_orgID row = org"

definition find_value :: "string \<Rightarrow> string \<Rightarrow> settings_db \<Rightarrow> valueRow option" where
  "find_value key org d = List.find (is_row key org) (tb_values d)"

definition no_value :: "string \<Rightarrow> string \<Rightarrow> valueRow" where
  "no_value key org = \<lparr>vr_key = key, vr_orgID = org, vr_value = None, vr_version = 0, vr_updatedAt = 0, vr_updatedBy = []\<rparr>"

definition selectOne :: "string \<Rightarrow> string \<Rightarrow> (valueRow \<times> bool) st" where
  "selectOne key org = query (\<lambda>d. Inr (case find_value key org d of Some r \<Rightarrow> (r, True) | None \<Rightarrow> (no_value key org, False)))"

definition selectValues :: "valueRow list st" where
  "selectValues = query (\<lambda>d. Inr (filter (\<lambda>row. vr_orgID row = []) (tb_values d)))"

definition selectOrgValues :: "string list \<Rightarrow> valueRow list st" where
  "selectOrgValues keys = query (\<lambda>d. Inr (filter (\<lambda>row. vr_orgID row \<noteq> [] \<and> vr_key row \<in> set keys) (tb_values d)))"

text \<open>A parameter of a \<open>jsonb\<close> column, which is \<open>NULL\<close> for nil; \<open>None\<close> when the database refuses the text.\<close>

definition jsonbParam :: "go_lib \<Rightarrow> string option \<Rightarrow> string option option" where
  "jsonbParam lib value = (case value of None \<Rightarrow> Some None | Some raw \<Rightarrow> map_option Some (l_jsonb lib raw))"

definition insertValue :: "go_lib \<Rightarrow> string \<Rightarrow> string \<Rightarrow> string option \<Rightarrow> string \<Rightarrow> valueRow st" where
  "insertValue lib key org value by' = stmt (\<lambda>d.
     case jsonbParam lib value of
       None \<Rightarrow> (Inl Driver, d)
     | Some val \<Rightarrow>
         if find_value key org d \<noteq> None then (Inl (Err ErrVersionConflict), d)
         else let row = \<lparr>vr_key = key, vr_orgID = org, vr_value = val, vr_version = 1, vr_updatedAt = tb_now d, vr_updatedBy = by'\<rparr>
              in (Inr row, d\<lparr>tb_values := tb_values d @ [row]\<rparr>))"

definition updateValue :: "go_lib \<Rightarrow> string \<Rightarrow> string \<Rightarrow> string option \<Rightarrow> string \<Rightarrow> valueRow st" where
  "updateValue lib key org value by' = stmt (\<lambda>d.
     case (jsonbParam lib value, find_value key org d) of
       (Some val, Some r) \<Rightarrow>
         let upd = (\<lambda>r. r\<lparr>vr_value := val, vr_version := vr_version r + 1, vr_updatedAt := tb_now d, vr_updatedBy := by'\<rparr>)
         in (Inr (upd r), d\<lparr>tb_values := update_where (is_row key org) upd (tb_values d)\<rparr>)
     | _ \<Rightarrow> (Inl Driver, d))"

definition set_insertHistory :: "go_lib \<Rightarrow> set_historyRow \<Rightarrow> unit st" where
  "set_insertHistory lib h = stmt (\<lambda>d.
     case (jsonbParam lib (sh_oldValue h), jsonbParam lib (sh_newValue h)) of
       (Some old, Some new) \<Rightarrow>
         (Inr (), d\<lparr>tb_history := tb_history d @ [h\<lparr>sh_id := tb_nextID d, sh_oldValue := old, sh_newValue := new, sh_changedAt := tb_now d\<rparr>],
                    tb_nextID := tb_nextID d + 1\<rparr>)
     | _ \<Rightarrow> (Inl Driver, d))"

definition payload :: "string \<Rightarrow> string \<Rightarrow> string" where
  "payload key org = (if org = [] then key else key @ '' '' @ org)"

definition set_notify :: "string \<Rightarrow> string \<Rightarrow> unit st" where
  "set_notify key org = stmt (\<lambda>d. (Inr (), d\<lparr>tb_notified := tb_notified d @ [payload key org]\<rparr>))"

definition set_selectHistory :: "string \<Rightarrow> string \<Rightarrow> int \<Rightarrow> int \<Rightarrow> set_historyRow list st" where
  "set_selectHistory key org before limit = query (\<lambda>d. Inr (take (nat limit) (rev (sort_key sh_id
     (filter (\<lambda>h. sh_key h = key \<and> sh_orgID h = org \<and> (before = 0 \<or> sh_id h < before)) (tb_history d))))))"

definition override_rows :: "go_lib \<Rightarrow> string \<Rightarrow> settings_db \<Rightarrow> valueRow list" where
  "override_rows lib key d = sort_key (\<lambda>row. l_collate lib (vr_orgID row))
     (filter (\<lambda>row. vr_key row = key \<and> vr_orgID row \<noteq> [] \<and> vr_value row \<noteq> None) (tb_values d))"

definition selectOverrides :: "go_lib \<Rightarrow> string \<Rightarrow> string \<Rightarrow> int \<Rightarrow> valueRow list st" where
  "selectOverrides lib key after limit = query (\<lambda>d. Inr (take (nat limit)
     (filter (\<lambda>row. l_collate lib after < l_collate lib (vr_orgID row)) (override_rows lib key d))))"

section \<open>Loading\<close>

definition toStored :: "go_lib \<Rightarrow> setting_def \<Rightarrow> valueRow \<Rightarrow> set_stored" where
  "toStored lib d row =
     (let st = \<lparr>st_value = None, st_version = vr_version row, st_updatedAt = vr_updatedAt row, st_updatedBy = vr_updatedBy row,
                st_invalid = False, st_seq = 0\<rparr> in
      case vr_value row of
        None \<Rightarrow> st
      | Some raw \<Rightarrow> (case parse lib d raw of Inl _ \<Rightarrow> st\<lparr>st_invalid := True\<rparr> | Inr v \<Rightarrow> st\<lparr>st_value := Some v\<rparr>))"

definition set_load_rows :: "go_lib \<Rightarrow> set_Registry \<Rightarrow> valueRow list \<Rightarrow> string \<rightharpoonup> set_stored" where
  "set_load_rows lib r rows = map_of (rev (map (\<lambda>row. (vr_key row, toStored lib (the (sr_defs r (vr_key row))) row))
     (filter (\<lambda>row. sr_defs r (vr_key row) \<noteq> None) rows)))"

definition unknown_keys :: "set_Registry \<Rightarrow> valueRow list \<Rightarrow> string list" where
  "unknown_keys r rows = map vr_key (filter (\<lambda>row. sr_defs r (vr_key row) = None) rows)"

definition load_orgs :: "go_lib \<Rightarrow> set_Registry \<Rightarrow> valueRow list \<Rightarrow> string \<rightharpoonup> (string \<times> set_stored) list" where
  "load_orgs lib r rows = (\<lambda>org.
     let mine = filter (\<lambda>row. vr_orgID row = org \<and> sr_defs r (vr_key row) \<noteq> None) rows in
     if mine = [] then None else Some (map (\<lambda>row. (vr_key row, toStored lib (the (sr_defs r (vr_key row))) row)) mine))"

definition on_reg :: "(set_Registry \<Rightarrow> set_Registry) \<Rightarrow> unit st" where
  "on_reg f = extC (\<lambda>x. x\<lparr>si_reg := f (si_reg x)\<rparr>)"

definition reloadOrgs :: "go_lib \<Rightarrow> nat \<Rightarrow> unit st" where
  "reloadOrgs lib since =
     bindC getC (\<lambda>x. let keys = map se_key (filter se_orgOverridable (set_definitions (si_reg x))) in
       if keys = [] then retC ()
       else bindC (selectOrgValues keys) (\<lambda>rows. on_reg (\<lambda>r. replaceOrgs (load_orgs lib r rows) since r)))"

definition set_Reload :: "go_lib \<Rightarrow> unit st" where
  "set_Reload lib =
     bindC getC (\<lambda>x. let since = sr_orgSeq (si_reg x) in
     bindC selectValues (\<lambda>rows.
     bindC (on_reg (\<lambda>r. set_replaceAll (set_load_rows lib r rows) (unknown_keys r rows) r)) (\<lambda>_.
     reloadOrgs lib since)))"

definition reloadOrgKey :: "go_lib \<Rightarrow> setting_def \<Rightarrow> string \<Rightarrow> unit st" where
  "reloadOrgKey lib d org =
     (if \<not> se_orgOverridable d \<or> \<not> checkOrgID org then retC ()
      else bindC (selectOne (se_key d) org) (\<lambda>(row, found).
        if \<not> found then retC () else on_reg (applyOrg org (se_key d) (toStored lib d row))))"

definition set_reloadKey :: "go_lib \<Rightarrow> string \<Rightarrow> unit st" where
  "set_reloadKey lib text =
     (let (key, org, _) = cut_at CHR '' '' text in
      bindC getC (\<lambda>x. case sr_defs (si_reg x) key of
        None \<Rightarrow> retC ()
      | Some d \<Rightarrow>
          if org \<noteq> [] then reloadOrgKey lib d org
          else bindC (selectOne key []) (\<lambda>(row, found).
            if \<not> found then retC () else on_reg (set_apply key (toStored lib d row)))))"

section \<open>Views\<close>

record set_View =
  sv_Key :: string
  sv_Kind :: setting_kind
  sv_Group :: string
  sv_Description :: string
  sv_Value :: string
  sv_Default :: string
  sv_Modified :: bool
  sv_InvalidStoredValue :: bool
  sv_Version :: int
  sv_UpdatedAt :: time
  sv_UpdatedBy :: string
  sv_ReasonRequired :: bool
  sv_RestartRequired :: bool
  sv_RestartPending :: bool
  sv_Constraints :: "string \<rightharpoonup> constraint"
  sv_OrgOverridable :: bool
  sv_OrgID :: string
  sv_PlatformValue :: string

definition base_view :: "go_lib \<Rightarrow> setting_def \<Rightarrow> set_View" where
  "base_view lib d = \<lparr>sv_Key = se_key d, sv_Kind = se_kind d,
     sv_Group = (if se_group d = [] then fst (cut_at CHR ''.'' (se_key d)) else se_group d), sv_Description = se_description d,
     sv_Value = encode_value lib (se_def d), sv_Default = encode_value lib (se_def d), sv_Modified = False,
     sv_InvalidStoredValue = False, sv_Version = 0, sv_UpdatedAt = 0, sv_UpdatedBy = [], sv_ReasonRequired = se_reasonRequired d,
     sv_RestartRequired = se_restartRequired d, sv_RestartPending = False, sv_Constraints = se_constraints d,
     sv_OrgOverridable = se_orgOverridable d, sv_OrgID = [], sv_PlatformValue = []\<rparr>"

definition view_stored :: "go_lib \<Rightarrow> set_stored option \<Rightarrow> set_View \<Rightarrow> set_View" where
  "view_stored lib found v =
     (case found of None \<Rightarrow> v
      | Some st \<Rightarrow>
          let v = v\<lparr>sv_Version := st_version st, sv_UpdatedAt := st_updatedAt st, sv_UpdatedBy := st_updatedBy st,
                    sv_InvalidStoredValue := st_invalid st\<rparr> in
          case st_value st of None \<Rightarrow> v | Some x \<Rightarrow> v\<lparr>sv_Value := encode_value lib x, sv_Modified := True\<rparr>)"

definition set_view :: "go_lib \<Rightarrow> set_Registry \<Rightarrow> setting_def \<Rightarrow> set_View" where
  "set_view lib r d =
     (let v = view_stored lib (snap_value (sr_live r) (se_key d)) (base_view lib d);
          bootVersion = (case snap_value (sr_boot r) (se_key d) of None \<Rightarrow> 0 | Some st \<Rightarrow> st_version st) in
      if se_restartRequired d then v\<lparr>sv_RestartPending := (sv_Version v \<noteq> bootVersion)\<rparr> else v)"

definition orgViewOf :: "go_lib \<Rightarrow> set_Registry \<Rightarrow> setting_def \<Rightarrow> string \<Rightarrow> set_stored option \<Rightarrow> set_View" where
  "orgViewOf lib r d org found =
     (let v = set_view lib r d in
      view_stored lib found (v\<lparr>sv_OrgID := org, sv_PlatformValue := sv_Value v, sv_Modified := False, sv_InvalidStoredValue := False,
        sv_Version := 0, sv_UpdatedAt := 0, sv_UpdatedBy := []\<rparr>))"

definition orgView :: "go_lib \<Rightarrow> set_Registry \<Rightarrow> setting_def \<Rightarrow> string \<Rightarrow> set_View" where
  "orgView lib r d org = orgViewOf lib r d org (orgValue r org (se_key d))"

definition set_List :: "go_lib \<Rightarrow> set_Registry \<Rightarrow> set_View list" where
  "set_List lib r = map (set_view lib r) (set_definitions r)"

definition set_Get_view :: "go_lib \<Rightarrow> set_Registry \<Rightarrow> string \<Rightarrow> set_error + set_View" where
  "set_Get_view lib r key = (case sr_defs r key of None \<Rightarrow> Inl ErrUnknownSetting | Some d \<Rightarrow> Inr (set_view lib r d))"

definition orgDefinition :: "set_Registry \<Rightarrow> string \<Rightarrow> string \<Rightarrow> set_error + setting_def" where
  "orgDefinition r org key =
     (if \<not> checkOrgID org then Inl ErrInvalidOrgID
      else case sr_defs r key of
        None \<Rightarrow> Inl ErrUnknownSetting
      | Some d \<Rightarrow> if \<not> se_orgOverridable d then Inl ErrNotOrgOverridable else Inr d)"

definition ListForOrg :: "go_lib \<Rightarrow> set_Registry \<Rightarrow> string \<Rightarrow> set_error + set_View list" where
  "ListForOrg lib r org =
     (if \<not> checkOrgID org then Inl ErrInvalidOrgID
      else Inr (map (\<lambda>d. orgView lib r d org) (filter se_orgOverridable (set_definitions r))))"

definition GetForOrg :: "go_lib \<Rightarrow> set_Registry \<Rightarrow> string \<Rightarrow> string \<Rightarrow> set_error + set_View" where
  "GetForOrg lib r org key = bind_res (orgDefinition r org key) (\<lambda>d. Inr (orgView lib r d org))"

section \<open>Changes\<close>

record set_Change =
  sc_Version :: int
  sc_Reason :: string

definition sameValue :: "go_lib \<Rightarrow> setting_def \<Rightarrow> string option \<Rightarrow> string option \<Rightarrow> bool" where
  "sameValue lib d a b =
     (case (a, b) of
        (Some x, Some y) \<Rightarrow>
          (case (decode_kind lib (se_kind d) x, decode_kind lib (se_kind d) y) of (Inr u, Inr v) \<Rightarrow> u = v | _ \<Rightarrow> False)
      | _ \<Rightarrow> a = None \<and> b = None)"

definition set_write_tx :: "go_lib \<Rightarrow> ctx \<Rightarrow> Actor \<Rightarrow> setting_def \<Rightarrow> string \<Rightarrow> string option \<Rightarrow> set_Change \<Rightarrow> (valueRow \<times> bool) st" where
  "set_write_tx lib c a d org newRaw change =
     bindC (selectOne (se_key d) org) (\<lambda>(current, _).
     if sc_Version change \<noteq> vr_version current then failC (Err ErrVersionConflict)
     else if sameValue lib d (vr_value current) newRaw then retC (current, False)
     else
       bindC (if vr_version current = 0 then insertValue lib (se_key d) org newRaw (a_ID a)
              else updateValue lib (se_key d) org newRaw (a_ID a)) (\<lambda>result.
       bindC (set_insertHistory lib \<lparr>sh_id = 0, sh_key = se_key d, sh_orgID = org, sh_oldValue = vr_value current,
                sh_newValue = newRaw, sh_version = vr_version result, sh_reason = TrimSpace (sc_Reason change),
                sh_actorKind = a_Kind a, sh_actorID = a_ID a, sh_requestID = ctx_request_id c, sh_changedAt = 0\<rparr>) (\<lambda>_.
       bindC (set_notify (se_key d) org) (\<lambda>_. retC (result, True)))))"

definition set_change_event :: "string \<Rightarrow> string \<Rightarrow> int \<Rightarrow> bool \<Rightarrow> string \<Rightarrow> Event" where
  "set_change_event key org version reset reason =
     zero_Event\<lparr>e_Action := ''settings.value.changed'', e_ResourceType := ''setting'', e_ResourceID := key, e_OrgID := org,
       e_Outcome := OutcomeSuccess,
       e_Metadata := [(''version'', MInt version), (''reset'', MBool reset), (''reason'', MStr reason)] @
         (if org = [] then [] else [(''org_id'', MStr org)])\<rparr>"

definition set_save_error :: "set_error goerr \<Rightarrow> set_error goerr" where
  "set_save_error e = (if errors_is e ErrVersionConflict then e else Driver)"

definition set_write :: "go_lib \<Rightarrow> ctx \<Rightarrow> setting_def \<Rightarrow> string \<Rightarrow> string option \<Rightarrow> set_Change \<Rightarrow> set_View st" where
  "set_write lib c d org newRaw change =
     (case From c of
        None \<Rightarrow> failC (Err ErrActorRequired)
      | Some a \<Rightarrow>
          if a_Kind a = KindAnonymous \<or> a_ID a = [] then failC (Err ErrActorRequired)
          else if se_reasonRequired d \<and> TrimSpace (sc_Reason change) = [] then failC (Err ErrReasonRequired)
          else
            bindC (mapErrC set_save_error (BeginFunc (set_write_tx lib c a d org newRaw change))) (\<lambda>(result, changed).
            bindC (if changed
                   then extC (\<lambda>x. x\<lparr>si_reg := (if org \<noteq> [] then applyOrg org (se_key d) (toStored lib d result) (si_reg x)
                                     else set_apply (se_key d) (toStored lib d result) (si_reg x)),
                          si_events := si_events x @ [(c, set_change_event (se_key d) org (vr_version result) (newRaw = None)
                            (TrimSpace (sc_Reason change)))]\<rparr>)
                   else retC ()) (\<lambda>_.
            bindC getC (\<lambda>x. retC (if org \<noteq> [] then orgView lib (si_reg x) d org else set_view lib (si_reg x) d)))))"

definition set_lookup :: "string \<Rightarrow> setting_def st" where
  "set_lookup key = bindC getC (\<lambda>x. case sr_defs (si_reg x) key of None \<Rightarrow> failC (Err ErrUnknownSetting) | Some d \<Rightarrow> retC d)"

definition set_Set :: "go_lib \<Rightarrow> ctx \<Rightarrow> string \<Rightarrow> string \<Rightarrow> set_Change \<Rightarrow> set_View st" where
  "set_Set lib c key value change =
     bindC (set_lookup key) (\<lambda>d.
     case parse lib d value of
       Inl e \<Rightarrow> failC (Err (InvalidValueError key e))
     | Inr v \<Rightarrow> set_write lib c d [] (Some (encode_value lib v)) change)"

definition set_Reset :: "go_lib \<Rightarrow> ctx \<Rightarrow> string \<Rightarrow> set_Change \<Rightarrow> set_View st" where
  "set_Reset lib c key change = bindC (set_lookup key) (\<lambda>d. set_write lib c d [] None change)"

definition SetForOrg :: "go_lib \<Rightarrow> ctx \<Rightarrow> string \<Rightarrow> string \<Rightarrow> string \<Rightarrow> set_Change \<Rightarrow> set_View st" where
  "SetForOrg lib c org key value change =
     bindC getC (\<lambda>x. bindC (liftC (orgDefinition (si_reg x) org key)) (\<lambda>d.
     case parse lib d value of
       Inl e \<Rightarrow> failC (Err (InvalidValueError key e))
     | Inr v \<Rightarrow> set_write lib c d org (Some (encode_value lib v)) change))"

definition ResetForOrg :: "go_lib \<Rightarrow> ctx \<Rightarrow> string \<Rightarrow> string \<Rightarrow> set_Change \<Rightarrow> set_View st" where
  "ResetForOrg lib c org key change =
     bindC getC (\<lambda>x. bindC (liftC (orgDefinition (si_reg x) org key)) (\<lambda>d. set_write lib c d org None change))"

section \<open>History and overrides\<close>

definition clamp_limit :: "int \<Rightarrow> int" where
  "clamp_limit limit = min (max limit 1) 100"

definition set_History :: "string \<Rightarrow> int \<Rightarrow> int \<Rightarrow> set_historyRow list st" where
  "set_History key before limit = bindC (set_lookup key) (\<lambda>_. set_selectHistory key [] before (clamp_limit limit))"

definition HistoryForOrg :: "string \<Rightarrow> string \<Rightarrow> int \<Rightarrow> int \<Rightarrow> set_historyRow list st" where
  "HistoryForOrg org key before limit =
     bindC getC (\<lambda>x. bindC (liftC (orgDefinition (si_reg x) org key)) (\<lambda>_. set_selectHistory key org before (clamp_limit limit)))"

definition Overrides :: "go_lib \<Rightarrow> string \<Rightarrow> string \<Rightarrow> int \<Rightarrow> set_View list st" where
  "Overrides lib key after limit =
     bindC (set_lookup key) (\<lambda>d.
     if \<not> se_orgOverridable d then retC []
     else bindC (selectOverrides lib key after (clamp_limit limit)) (\<lambda>rows.
       bindC getC (\<lambda>x. retC (map (\<lambda>row. orgViewOf lib (si_reg x) d (vr_orgID row) (Some (toStored lib d row))) rows))))"

definition set_DeleteHistoryBefore :: "time \<Rightarrow> int \<Rightarrow> nat st" where
  "set_DeleteHistoryBefore before limit =
     (if limit < 1 then failC (Err ErrDeleteLimit)
      else stmt (\<lambda>d. let gone = take (nat limit) (sort_key sh_id (filter (\<lambda>h. sh_changedAt h < before) (tb_history d))) in
        (Inr (length gone), d\<lparr>tb_history := filter (\<lambda>h. sh_id h \<notin> sh_id ` set gone) (tb_history d)\<rparr>)))"

definition set_OldestHistory :: "time option st" where
  "set_OldestHistory = query (\<lambda>d. Inr (if tb_history d = [] then None else Some (Min (set (map sh_changedAt (tb_history d))))))"

end
