(* ===== verification/Settings_Props.thy ===== *)
theory Settings_Props
  imports Settings_Store
begin

text \<open>
  What the runtime settings promise: whatever is declared, stored and reloaded, a read gives a value of the declared type
  that passes the validators; an organisation's value is seen in that organisation only; a change reaches the other
  instances through its notification; and a full reload loses nothing that was applied while it ran.
\<close>

section \<open>Types\<close>

definition valid_for :: "setting_def \<Rightarrow> Value \<Rightarrow> bool" where
  "valid_for d v \<longleftrightarrow> type_of v = kind_type (se_kind d) \<and> run_validators (se_validators d) v = None"

definition no_panic :: "go_type \<Rightarrow> (Value \<Rightarrow> value_error option) \<Rightarrow> bool" where
  "no_panic t f \<longleftrightarrow> (\<forall>v. type_of v = t \<longrightarrow> f v \<noteq> Some TypePanic)"

definition well_typed :: "setting_def \<Rightarrow> bool" where
  "well_typed d \<longleftrightarrow> type_of (se_def d) = kind_type (se_kind d) \<and> (\<forall>f \<in> set (se_validators d). no_panic (kind_type (se_kind d)) f)"

lemma type_of_cases:
  "type_of v = TBool \<longleftrightarrow> (\<exists>x. v = VBool x)" "type_of v = TInt \<longleftrightarrow> (\<exists>x. v = VInt x)"
  "type_of v = TFloat \<longleftrightarrow> (\<exists>x. v = VFloat x)" "type_of v = TString \<longleftrightarrow> (\<exists>x. v = VString x)"
  "type_of v = TDuration \<longleftrightarrow> (\<exists>x. v = VDuration x)" "type_of v = TList \<longleftrightarrow> (\<exists>x. v = VList x)"
  by (cases v; simp)+

lemma decode_kind_type: "decode_kind lib k raw = Inr v \<Longrightarrow> type_of v = kind_type k"
  by (cases k) (auto simp: map_sum_def split: sum.splits)

lemma map_sum_no_panic: "decode_kind lib k raw \<noteq> Inl TypePanic"
proof -
  have j: "decodeJSON u what raw \<noteq> Inl TypePanic" for u :: "string \<Rightarrow> 'b option" and what
    by (simp add: decodeJSON_def split: option.splits)
  have m: "map_sum id f x \<noteq> Inl TypePanic" if "x \<noteq> Inl TypePanic" for f :: "'b \<Rightarrow> Value" and x :: "value_error + 'b"
    using that by (cases x) auto
  show ?thesis
  proof (cases k)
    case KindDuration
    have "decodeDuration lib raw \<noteq> Inl TypePanic"
      by (auto simp: decodeDuration_def bind_res_def decodeJSON_def split: sum.splits option.splits if_splits)
    with KindDuration show ?thesis by (auto simp: map_sum_def split: sum.splits)
  qed (auto simp: map_sum_def decodeStringList_def decodeJSON_def split: sum.splits option.splits if_splits)
qed

lemma run_validators_no_panic:
  "\<forall>f \<in> set fs. no_panic t f \<Longrightarrow> type_of v = t \<Longrightarrow> run_validators fs v \<noteq> Some TypePanic"
  by (induction fs) (auto simp: no_panic_def split: option.splits)

lemma parse_sound: "parse lib d raw = Inr v \<Longrightarrow> valid_for d v"
  by (auto simp: parse_def valid_for_def bind_res_Inr decode_kind_type split: option.splits)

lemma parse_no_panic: "well_typed d \<Longrightarrow> parse lib d raw \<noteq> Inl TypePanic"
proof (cases "decode_kind lib (se_kind d) raw")
  case (Inr v)
  assume "well_typed d"
  with run_validators_no_panic decode_kind_type [OF Inr] have "run_validators (se_validators d) v \<noteq> Some TypePanic"
    by (auto simp: well_typed_def)
  with Inr show ?thesis by (auto simp: parse_def split: option.splits)
qed (use map_sum_no_panic in \<open>auto simp: parse_def\<close>)

lemma well_typed_add:
  "well_typed d \<Longrightarrow> no_panic (kind_type (se_kind d)) f \<Longrightarrow> well_typed (add_validator f d)"
  "well_typed d \<Longrightarrow> well_typed (constrain k x d)"
  "se_kind (add_validator f d) = se_kind d" "se_kind (constrain k x d) = se_kind d"
  "se_def (add_validator f d) = se_def d" "se_def (constrain k x d) = se_def d"
  "se_key (add_validator f d) = se_key d" "se_key (constrain k x d) = se_key d"
  by (auto simp: well_typed_def add_validator_def constrain_def)

lemma eachString_well_typed:
  assumes "well_typed d" "eachString check d = Some d'" "\<And>s. check s \<noteq> Some TypePanic"
  shows "well_typed d' \<and> se_kind d' = se_kind d \<and> se_def d' = se_def d \<and> se_key d' = se_key d"
proof -
  have items: "check_items check i ss \<noteq> Some TypePanic" for i ss
    by (induction ss arbitrary: i) (auto split: option.splits)
  have s: "no_panic TString (\<lambda>v. case v of VString s \<Rightarrow> check s | _ \<Rightarrow> Some TypePanic)"
    using assms(3) by (auto simp: no_panic_def type_of_cases)
  have l: "no_panic TList (\<lambda>v. case v of VList ss \<Rightarrow> check_items check 0 ss | _ \<Rightarrow> Some TypePanic)"
    using items by (auto simp: no_panic_def type_of_cases)
  from assms(1,2) s l show ?thesis
    by (auto simp: eachString_def well_typed_add split: if_splits intro!: well_typed_add(1))
qed

lemma apply_range_well_typed:
  assumes "well_typed d" "apply_range lib get mk lo hi d = Some d'"
    "\<And>v w. get v \<noteq> None \<Longrightarrow> type_of w = type_of v \<Longrightarrow> get w \<noteq> None"
  shows "well_typed d' \<and> se_kind d' = se_kind d \<and> se_def d' = se_def d \<and> se_key d' = se_key d"
proof -
  from assms(2) have g: "get (se_def d) \<noteq> None" by (auto simp: apply_range_def split: if_splits)
  have "no_panic (kind_type (se_kind d)) (check_range get mk lo hi)"
    unfolding no_panic_def
  proof (intro allI impI)
    fix v assume "type_of v = kind_type (se_kind d)"
    with assms(1) assms(3) [OF g, of v] show "check_range get mk lo hi v \<noteq> Some TypePanic"
      by (auto simp: well_typed_def check_range_def split: if_splits)
  qed
  with assms(1,2) show ?thesis by (auto simp: apply_range_def well_typed_add split: if_splits intro!: well_typed_add)
qed

lemma max_items_no_panic: "no_panic TList (max_items n)"
  by (auto simp: no_panic_def max_items_def type_of_cases split: if_splits)

lemma apply_set_option_well_typed:
  assumes "well_typed d" "apply_set_option lib x d = Some d'"
  shows "well_typed d' \<and> se_kind d' = se_kind d \<and> se_def d' = se_def d \<and> se_key d' = se_key d"
proof (cases x)
  case (RangeInt lo hi)
  have "as_int v \<noteq> None \<longleftrightarrow> type_of v = TInt" for v by (cases v) auto
  with RangeInt assms show ?thesis by (intro apply_range_well_typed [where get = as_int]) auto
next
  case (RangeFloat lo hi)
  have "as_float v \<noteq> None \<longleftrightarrow> type_of v = TFloat" for v by (cases v) auto
  with RangeFloat assms show ?thesis by (intro apply_range_well_typed [where get = as_float]) auto
next
  case (RangeDuration lo hi)
  have "as_duration v \<noteq> None \<longleftrightarrow> type_of v = TDuration" for v by (cases v) auto
  with RangeDuration assms show ?thesis by (intro apply_range_well_typed [where get = as_duration]) auto
next
  case (OneOf vs)
  with assms eachString_well_typed [of "constrain ''one_of'' (CTexts vs) d" "one_of vs" d'] show ?thesis
    by (auto simp: well_typed_add one_of_def split: if_splits)
next
  case (MaxLen n)
  with assms eachString_well_typed [of "constrain ''max_len'' (CInt n) d" "max_len n" d'] show ?thesis
    by (auto simp: well_typed_add max_len_def split: if_splits)
next
  case URL
  with assms eachString_well_typed [of "constrain ''format'' (CText ''url'') d" "is_url lib" d'] show ?thesis
    by (auto simp: well_typed_add is_url_def split: option.splits)
next
  case Email
  with assms eachString_well_typed [of "constrain ''format'' (CText ''email'') d" "is_email lib" d'] show ?thesis
    by (auto simp: well_typed_add is_email_def)
next
  case (MaxItems n)
  with max_items_no_panic assms show ?thesis by (auto simp: well_typed_add split: if_splits intro!: well_typed_add)
next
  case (Validate t fn)
  have "no_panic t (\<lambda>v. if type_of v \<noteq> t then Some TypePanic else map_option Custom (fn v))" by (auto simp: no_panic_def)
  moreover have "t = kind_type (se_kind d)" using Validate assms by (auto simp: well_typed_def split: if_splits)
  ultimately show ?thesis using Validate assms by (auto simp: well_typed_add split: if_splits intro!: well_typed_add)
qed (use assms in \<open>auto simp: well_typed_def\<close>)

lemma apply_options_well_typed:
  "well_typed d \<Longrightarrow> apply_options lib xs d = Some d' \<Longrightarrow>
    well_typed d' \<and> se_kind d' = se_kind d \<and> se_def d' = se_def d \<and> se_key d' = se_key d"
proof (induction xs arbitrary: d)
  case (Cons x xs)
  then obtain d1 where d1: "apply_set_option lib x d = Some d1" "apply_options lib xs d1 = Some d'"
    by (auto split: option.splits)
  with apply_set_option_well_typed [OF Cons.prems(1) d1(1)] Cons.IH [OF _ d1(2)] show ?case by simp
qed simp

lemma bound_items_well_typed:
  "well_typed d \<Longrightarrow> well_typed (bound_items d) \<and> se_kind (bound_items d) = se_kind d \<and> se_def (bound_items d) = se_def d \<and>
    se_key (bound_items d) = se_key d"
  using max_items_no_panic by (auto simp: bound_items_def well_typed_add intro!: well_typed_add)

section \<open>Registries the program reaches\<close>

text \<open>
  What happens to a registry: the seven declarations, \<open>NewStore\<close> freezing it, and rows of its settings that changes,
  notifications and reloads put in memory.
\<close>

inductive reg_step :: "go_lib \<Rightarrow> set_Registry \<Rightarrow> set_Registry \<Rightarrow> bool" for lib where
  step_Bool: "set_Bool lib r key b opts = Some r' \<Longrightarrow> reg_step lib r r'"
| step_Int: "set_Int lib r key i opts = Some r' \<Longrightarrow> reg_step lib r r'"
| step_Float: "set_Float lib r key f opts = Some r' \<Longrightarrow> reg_step lib r r'"
| step_String: "set_String lib r key s opts = Some r' \<Longrightarrow> reg_step lib r r'"
| step_Enum: "set_Enum lib r key s allowed opts = Some r' \<Longrightarrow> reg_step lib r r'"
| step_Duration: "set_Duration lib r key t opts = Some r' \<Longrightarrow> reg_step lib r r'"
| step_StringList: "set_StringList lib r key ss opts = Some r' \<Longrightarrow> reg_step lib r r'"
| step_freeze: "reg_step lib r (set_freeze r)"
| step_apply: "sr_defs r key = Some d \<Longrightarrow> reg_step lib r (set_apply key (toStored lib d row) r)"
| step_reload: "reg_step lib r (set_replaceAll (set_load_rows lib r rows) u r)"
| step_applyOrg: "sr_defs r key = Some d \<Longrightarrow> reg_step lib r (applyOrg org key (toStored lib d row) r)"
| step_reloadOrgs: "reg_step lib r (replaceOrgs (load_orgs lib r rows) since r)"

definition fits :: "set_Registry \<Rightarrow> string \<Rightarrow> set_stored \<Rightarrow> bool" where
  "fits r k st \<longleftrightarrow> (\<exists>d. sr_defs r k = Some d \<and> (\<forall>v. st_value st = Some v \<longrightarrow> valid_for d v))"

definition declared_ok :: "go_lib \<Rightarrow> string \<Rightarrow> setting_def \<Rightarrow> bool" where
  "declared_ok lib k d \<longleftrightarrow> se_key d = k \<and> dotted_name2 k \<and> well_typed d \<and> (\<exists>v. parse lib d (encode_value lib (se_def d)) = Inr v) \<and>
     \<not> (se_orgOverridable d \<and> se_restartRequired d)"

definition reg_inv :: "go_lib \<Rightarrow> set_Registry \<Rightarrow> bool" where
  "reg_inv lib r \<longleftrightarrow> (\<forall>k d. sr_defs r k = Some d \<longrightarrow> declared_ok lib k d) \<and>
     (\<forall>k st. snap_value (sr_live r) k = Some st \<longrightarrow> fits r k st) \<and> (\<forall>k st. snap_value (sr_boot r) k = Some st \<longrightarrow> fits r k st) \<and>
     (\<forall>org vs k st. sr_orgs r org = Some vs \<longrightarrow> (k, st) \<in> set vs \<longrightarrow> fits r k st)"

lemma fitsD: "fits r k st \<Longrightarrow> sr_defs r k = Some d \<Longrightarrow> st_value st = Some v \<Longrightarrow> valid_for d v"
  by (simp add: fits_def)

lemma reg_inv_fits:
  "reg_inv lib r \<Longrightarrow> snap_value (sr_live r) k = Some st \<or> snap_value (sr_boot r) k = Some st \<Longrightarrow> fits r k st"
  "reg_inv lib r \<Longrightarrow> sr_orgs r org = Some vs \<Longrightarrow> (k, st) \<in> set vs \<Longrightarrow> fits r k st"
  by (auto simp: reg_inv_def)

lemma findOrgValue_mem: "findOrgValue vs k = Some st \<Longrightarrow> (k, st) \<in> set vs"
  by (induction vs) (auto split: if_splits)

lemma toStored_fits: "sr_defs r k = Some d \<Longrightarrow> fits r k (toStored lib d row)"
  by (auto simp: fits_def toStored_def Let_def dest: parse_sound split: option.splits sum.splits)

lemma fits_seq [simp]: "fits r k (st\<lparr>st_seq := n\<rparr>) = fits r k st"
  by (simp add: fits_def)

lemma reg_inv_declare:
  assumes "reg_inv lib r" "declare_setting lib r key kind def opts = Some r'" "type_of def = kind_type kind"
  shows "reg_inv lib r'"
proof -
  from assms(2) obtain d0 d v where d0: "apply_options lib opts (new_def key kind def) = Some d0" and d: "d = bound_items d0"
    and new: "dotted_name2 key" "\<not> (se_orgOverridable d \<and> se_restartRequired d)" "parse lib d (encode_value lib def) = Inr v"
      "sr_defs r key = None" "r' = r\<lparr>sr_defs := (sr_defs r)(key \<mapsto> d), sr_keys := sr_keys r @ [key]\<rparr>"
    by (auto simp: declare_setting_def Let_def split: option.splits if_splits sum.splits)
  have "well_typed (new_def key kind def)" using assms(3) by (simp add: well_typed_def new_def_def)
  from apply_options_well_typed [OF this d0] have wt: "well_typed d0" "se_def d0 = def" "se_key d0 = key" by (simp_all add: new_def_def)
  with bound_items_well_typed [OF wt(1)] d new have "declared_ok lib key d" by (auto simp: declared_ok_def)
  moreover have "fits r k st \<Longrightarrow> fits r' k st" for k st using new by (auto simp: fits_def)
  ultimately show ?thesis using assms(1) new(5) by (auto simp: reg_inv_def)
qed

lemma set_load_rows_fits: "set_load_rows lib r rows k = Some st \<Longrightarrow> fits r k st"
  by (auto simp: set_load_rows_def toStored_fits dest!: map_of_SomeD)

lemma load_orgs_fits: "load_orgs lib r rows org = Some vs \<Longrightarrow> (k, st) \<in> set vs \<Longrightarrow> fits r k st"
  by (auto simp: load_orgs_def Let_def toStored_fits split: if_splits)

lemma merge_org_mem: "set (merge_org since olds vs) \<subseteq> set vs \<union> set olds"
proof -
  have "set (merge_value since vs x) \<subseteq> insert x (set vs)" for vs x
    by (auto simp: merge_value_def split: option.splits if_splits dest: set_update_subset_insert [THEN subsetD])
  then show ?thesis unfolding merge_org_def by (induction olds arbitrary: vs) fastforce+
qed

lemma reg_inv_step: "reg_step lib r r' \<Longrightarrow> reg_inv lib r \<Longrightarrow> reg_inv lib r'"
proof (induction rule: reg_step.induct)
  case (step_freeze r)
  then show ?case by (simp add: reg_inv_def fits_def set_freeze_def)
next
  case (step_apply r key d row)
  have "sr_defs (set_apply key (toStored lib d row) r) = sr_defs r" by (simp add: set_apply_def split: option.splits)
  then have f: "fits (set_apply key (toStored lib d row) r) = fits r" by (intro ext) (simp add: fits_def)
  from step_apply toStored_fits [OF step_apply(1)] show ?case unfolding reg_inv_def f
    by (auto simp: set_apply_def snap_value_def split: option.splits if_splits)
next
  case (step_reload r rows u)
  have f: "fits (set_replaceAll (set_load_rows lib r rows) u r) = fits r"
    by (intro ext) (simp add: fits_def set_replaceAll_def Let_def)
  have live: "snap_value (sr_live (set_replaceAll (set_load_rows lib r rows) u r)) k = Some st \<Longrightarrow> fits r k st" for k st
    using step_reload set_load_rows_fits
    by (auto simp: set_replaceAll_def snap_value_def set_keep_newer_def reg_inv_def Let_def split: option.splits if_splits)
  then have "snap_value (sr_boot (set_replaceAll (set_load_rows lib r rows) u r)) k = Some st \<Longrightarrow> fits r k st" for k st
    using step_reload by (fastforce simp: set_replaceAll_def snap_value_def reg_inv_def Let_def split: option.splits)
  with live step_reload show ?case unfolding reg_inv_def f by (auto simp: set_replaceAll_def Let_def)
next
  case (step_applyOrg r key d org row)
  have f: "fits (applyOrg org key (toStored lib d row) r) = fits r" by (intro ext) (simp add: fits_def applyOrg_def Let_def)
  have old: "(k, st) \<in> set (case sr_orgs r org of None \<Rightarrow> [] | Some vs \<Rightarrow> vs) \<Longrightarrow> fits r k st" for k st
    using reg_inv_fits(2) [OF step_applyOrg(2)] by (cases "sr_orgs r org") auto
  from step_applyOrg toStored_fits [OF step_applyOrg(1)] old show ?case unfolding reg_inv_def f
    by (auto simp: applyOrg_def Let_def split: if_splits)
next
  case (step_reloadOrgs r rows since)
  have f: "fits (replaceOrgs (load_orgs lib r rows) since r) = fits r" by (intro ext) (simp add: fits_def replaceOrgs_def)
  have "fits r k st" if "sr_orgs (replaceOrgs (load_orgs lib r rows) since r) org = Some vs" "(k, st) \<in> set vs" for org vs k st
  proof -
    from that(1) have "load_orgs lib r rows org = Some vs \<or>
        (\<exists>olds. sr_orgs r org = Some olds \<and> vs = merge_org since olds (case load_orgs lib r rows org of None \<Rightarrow> [] | Some ws \<Rightarrow> ws))"
      by (auto simp: replaceOrgs_def Let_def split: option.splits if_splits)
    then show ?thesis using that(2) merge_org_mem load_orgs_fits step_reloadOrgs
      by (fastforce simp: reg_inv_def split: option.splits)
  qed
  with step_reloadOrgs show ?case unfolding reg_inv_def f by (auto simp: replaceOrgs_def)
qed (auto simp: set_Bool_def set_Int_def set_Float_def set_String_def set_Enum_def set_Duration_def set_StringList_def
      intro: reg_inv_declare)

lemma reg_inv_reachable: "(reg_step lib)\<^sup>*\<^sup>* set_NewRegistry r \<Longrightarrow> reg_inv lib r"
proof (induction rule: rtranclp_induct)
  case base
  show ?case by (simp add: reg_inv_def set_NewRegistry_def snap_value_def)
qed (rule reg_inv_step)

lemma declared_default:
  assumes "declared_ok lib k d" "decode_kind lib (se_kind d) (encode_value lib (se_def d)) = Inr (se_def d)"
  shows "valid_for d (se_def d)"
  using assms by (auto simp: declared_ok_def parse_def valid_for_def well_typed_def split: option.splits)

lemma set_Get_valid:
  assumes "reg_inv lib r" "sr_defs r key = Some d" "valid_for d (se_def d)"
  shows "valid_for d (set_Get r c d)"
proof -
  have key: "se_key d = key" using assms by (simp add: reg_inv_def declared_ok_def)
  have snap: "valid_for d v" if "snap_value (if se_restartRequired d then sr_boot r else sr_live r) key = Some st" "st_value st = Some v" for st v
    using fitsD [OF reg_inv_fits(1) [OF assms(1)] assms(2) that(2)] that(1) by (auto split: if_splits)
  have org: "valid_for d v" if "org_override r c d = Some v" for v
  proof -
    from that key obtain o' vs st where o: "sr_orgs r o' = Some vs" "findOrgValue vs key = Some st" "st_value st = Some v"
      by (auto simp: org_override_def orgValue_def split: if_splits option.splits)
    from fitsD [OF reg_inv_fits(2) [OF assms(1) o(1) findOrgValue_mem [OF o(2)]] assms(2) o(3)] show ?thesis .
  qed
  show ?thesis using org snap assms(3) key by (auto simp: set_Get_def split: option.splits)
qed

text \<open>
  C22: settings are type-safe. In every registry the program reaches, by declarations with any options and by rows of any
  content that reach memory in any order, a read of a declared setting by any caller gives a value of its declared Go
  type that passes every validator, and no type assertion in a validator ever panics, whatever text is parsed. The
  default is a value JSON reads back as it is.
\<close>

theorem settings_typed:
  assumes "(reg_step lib)\<^sup>*\<^sup>* set_NewRegistry r" "sr_defs r key = Some d"
    and "decode_kind lib (se_kind d) (encode_value lib (se_def d)) = Inr (se_def d)"
  shows "type_of (set_Get r c d) = kind_type (se_kind d) \<and> run_validators (se_validators d) (set_Get r c d) = None \<and>
    parse lib d raw \<noteq> Inl TypePanic"
proof -
  note inv = reg_inv_reachable [OF assms(1)]
  then have ok: "declared_ok lib key d" using assms(2) by (simp add: reg_inv_def)
  from set_Get_valid [OF inv assms(2) declared_default [OF ok assms(3)]] parse_no_panic [of d lib raw] ok show ?thesis
    by (simp add: valid_for_def declared_ok_def)
qed

text \<open>A library that prints a number as that many digits, for settings that are small numbers.\<close>

definition tally_lib :: go_lib where
  "tally_lib = \<lparr>l_bool = (\<lambda>_. None), l_int = (\<lambda>s. Some (int (length s))), l_float = (\<lambda>_. None), l_string = Some, l_strings = (\<lambda>_. None),
     l_Marshal = (\<lambda>v. case v of VInt n \<Rightarrow> replicate (nat n) CHR ''1'' | VString s \<Rightarrow> s | _ \<Rightarrow> []),
     l_ParseDuration = (\<lambda>_. None), l_DurationString = (\<lambda>_. []), l_ParseURL = (\<lambda>_. None), l_ParseAddress = (\<lambda>_. None),
     l_jsonb = Some, l_collate = id\<rparr>"

definition page_size :: setting_def where
  "page_size = the (apply_options tally_lib [RangeInt 1 9, OrgOverridable] (new_def ''list.page_size'' KindInt (VInt 3)))"

definition page_registry :: set_Registry where
  "page_registry = set_NewRegistry\<lparr>sr_defs := [''list.page_size'' \<mapsto> page_size], sr_keys := [''list.page_size'']\<rparr>"

lemma page_size_eq:
  "page_size = \<lparr>se_key = ''list.page_size'', se_kind = KindInt, se_description = [], se_group = [], se_reasonRequired = False,
     se_restartRequired = False, se_orgOverridable = True, se_def = VInt 3, se_validators = [check_range as_int VInt 1 9],
     se_constraints = [''min'' \<mapsto> CValue (VInt 1), ''max'' \<mapsto> CValue (VInt 9)]\<rparr>"
  by (simp add: page_size_def new_def_def apply_range_def add_validator_def constrain_def)

lemma tally_parse: "decode_kind tally_lib KindInt ''111'' = Inr (VInt 3)" "decode_kind tally_lib KindInt ''11111'' = Inr (VInt 5)"
proof -
  have "isNull ''111'' = False" "isNull ''11111'' = False" by (simp_all add: isNull_def TrimSpace_plain)
  then show "decode_kind tally_lib KindInt ''111'' = Inr (VInt 3)" "decode_kind tally_lib KindInt ''11111'' = Inr (VInt 5)"
    by (simp_all add: decodeJSON_def tally_lib_def)
qed

lemma tally_encode: "encode_value tally_lib (VInt 3) = ''111''" "encode_value tally_lib (VInt 5) = ''11111''"
  by (simp_all add: tally_lib_def numeral_eq_Suc)

lemma page_registry_declared: "set_Int tally_lib set_NewRegistry ''list.page_size'' 3 [RangeInt 1 9, OrgOverridable] = Some page_registry"
proof -
  have opts: "apply_options tally_lib [RangeInt 1 9, OrgOverridable] (new_def ''list.page_size'' KindInt (VInt 3)) = Some page_size"
    by (simp add: page_size_def new_def_def apply_range_def add_validator_def constrain_def)
  have name: "dotted_name2 ''list.page_size''" by (simp add: dotted_name2_def dotted_name_def name_start_def name_char_def)
  have bound: "bound_items page_size = page_size" by (simp add: bound_items_def page_size_eq)
  have "parse tally_lib page_size ''111'' = Inr (VInt 3)"
    by (simp add: parse_def page_size_eq tally_parse check_range_def del: decode_kind.simps)
  with opts name bound show ?thesis
    by (simp add: set_Int_def declare_setting_def Let_def tally_encode page_registry_def set_NewRegistry_def del: encode_value.simps apply_options.simps)
      (simp add: page_size_eq)
qed

theorem settings_typed_witness:
  "run_validators (se_validators page_size) (set_Get page_registry Background page_size) = None"
proof -
  have "reg_step tally_lib set_NewRegistry page_registry" using page_registry_declared by (rule step_Int)
  then have "(reg_step tally_lib)\<^sup>*\<^sup>* set_NewRegistry page_registry" by (rule r_into_rtranclp [of "reg_step tally_lib"])
  moreover have "sr_defs page_registry ''list.page_size'' = Some page_size" by (simp add: page_registry_def)
  moreover have "decode_kind tally_lib (se_kind page_size) (encode_value tally_lib (se_def page_size)) = Inr (se_def page_size)"
    by (simp add: page_size_eq tally_encode tally_parse del: encode_value.simps decode_kind.simps)
  ultimately show ?thesis using settings_typed by blast
qed

text \<open>
  A setting that needs a restart: the view shows the value stored since startup as its value, while every read still
  gives the value loaded at startup; the view reports the restart as pending.
\<close>

lemma restart_view_ahead:
  assumes "se_restartRequired d" "\<not> se_orgOverridable d" "snap_value (sr_live r) (se_key d) = Some st" "st_value st = Some v"
    and "snap_value (sr_boot r) (se_key d) = None" "st_version st \<noteq> 0"
  shows "sv_Value (set_view lib r d) = encode_value lib v \<and> set_Get r c d = se_def d \<and> sv_RestartPending (set_view lib r d)"
  using assms by (simp add: set_view_def view_stored_def base_view_def set_Get_def org_override_def Let_def)

end
