(* ===== verification/Settings_Orgs.thy ===== *)
theory Settings_Orgs
  imports Settings_Props
begin

text \<open>
  Organisation values of settings in memory and in the table: what applying and reloading them leaves in memory, that a
  reload loses nothing applied while it ran, that a change is seen in its organisation only, and that its notification
  brings it to the other instances. The platform's values are an instance of the snapshots of \<open>Snapshots\<close>.
\<close>

section \<open>The platform's snapshot\<close>

interpretation set_memory: versioned_memory st_version set_apply "\<lambda>ld. set_replaceAll ld u" "\<lambda>r. snap_value (sr_live r)" for u
proof
  show "snap_value (sr_live (set_apply k s m)) j = newer st_version (snap_value (sr_live m) j) (delivered (One k s) j)" for k s m j
    by (auto simp: set_apply_def snap_value_def newer_def split: option.splits)
  show "snap_value (sr_live (set_replaceAll ld u m)) j = newer st_version (snap_value (sr_live m) j) (ld j)" for ld m j
    by (auto simp: set_replaceAll_def snap_value_def set_keep_newer_def newer_def Let_def split: option.splits)
qed

section \<open>Organisation values in memory\<close>

lemma findOrgValue_map_of: "findOrgValue vs k = map_of vs k"
  by (induction vs) auto

lemma map_of_filter_other: "map_of (filter (\<lambda>v. fst v \<noteq> k) vs) j = (if j = k then None else map_of vs j)"
  by (induction vs) auto

definition orgs_distinct :: "set_Registry \<Rightarrow> bool" where
  "orgs_distinct r \<longleftrightarrow> (\<forall>org vs. sr_orgs r org = Some vs \<longrightarrow> distinct (map fst vs))"

lemma orgValue_applyOrg:
  "orgValue (applyOrg org key st r) o' k' =
    (if o' = org \<and> k' = key
     then (case orgValue r org key of
             Some prev \<Rightarrow> if st_version prev > st_version st then Some prev else Some (st\<lparr>st_seq := (sr_orgSeq r + 1) mod 2 ^ 64\<rparr>)
           | None \<Rightarrow> Some (st\<lparr>st_seq := (sr_orgSeq r + 1) mod 2 ^ 64\<rparr>))
     else orgValue r o' k')"
  by (auto simp: applyOrg_def orgValue_def findOrgValue_map_of map_of_filter_other map_add_def Let_def split: option.splits)

lemma orgs_distinct_applyOrg: "orgs_distinct r \<Longrightarrow> orgs_distinct (applyOrg org key st r)"
  by (auto simp: orgs_distinct_def applyOrg_def Let_def distinct_map_filterI split: option.splits)

text \<open>What a reload makes of a value in memory, given the reloaded value.\<close>

definition resolve :: "nat \<Rightarrow> set_stored \<Rightarrow> set_stored option \<Rightarrow> set_stored option" where
  "resolve since old new =
     (case new of None \<Rightarrow> if st_seq old > since then Some old else None
      | Some n \<Rightarrow> if st_version old > st_version n then Some old else Some n)"

lemma find_index_split:
  assumes "List.find (\<lambda>i. fst (vs ! i) = k) [0..<length vs] = Some i"
  shows "vs = take i vs @ (k, snd (vs ! i)) # drop (Suc i) vs" "map_of (take i vs) k = None" "i < length vs"
proof -
  from assms have i: "i < length vs" "fst (vs ! i) = k" "\<And>j. j < i \<Longrightarrow> fst (vs ! j) \<noteq> k"
    by (auto simp: find_Some_iff)
  then show "i < length vs" "vs = take i vs @ (k, snd (vs ! i)) # drop (Suc i) vs" by (metis id_take_nth_drop prod.collapse)+
  have "fst (take i vs ! j) \<noteq> k" if "j < length (take i vs)" for j using i(3) that by simp
  then show "map_of (take i vs) k = None" unfolding map_of_eq_None_iff by (metis imageE in_set_conv_nth)
qed

lemma find_index_none: "List.find (\<lambda>i. fst (vs ! i) = k) [0..<length vs] = None \<longleftrightarrow> map_of vs k = None"
  unfolding map_of_eq_None_iff find_None_iff by (auto simp: image_iff) (metis fst_conv in_set_conv_nth nth_mem)+

lemma map_of_merge_value:
  "map_of (merge_value since vs (k, old)) j = (if j = k then resolve since old (map_of vs k) else map_of vs j)"
proof (cases "List.find (\<lambda>i. fst (vs ! i) = k) [0..<length vs]")
  case None
  then have "map_of vs k = None" by (simp add: find_index_none)
  with None show ?thesis by (auto simp: merge_value_def resolve_def map_add_def split: option.splits)
next
  case (Some i)
  note sp = find_index_split [OF Some]
  define a b n where "a = take i vs" and "b = drop (Suc i) vs" and "n = snd (vs ! i)"
  have vs: "vs = a @ (k, n) # b" "map_of a k = None" using sp by (simp_all add: a_def b_def n_def)
  have "i = length a" using sp(3) by (simp add: a_def)
  then have upd: "vs[i := (k, old)] = a @ (k, old) # b" by (simp add: vs(1))
  have mv: "merge_value since vs (k, old) = (if st_version old > st_version n then a @ (k, old) # b else vs)"
    by (simp add: merge_value_def Some upd n_def)
  have "map_of (a @ (k, x) # b) j = (if j = k then Some x else map_of (a @ b) j)" for x j
    using vs(2) by (auto simp: map_add_def split: option.splits)
  then show ?thesis unfolding mv by (simp add: vs(1) resolve_def)
qed

lemma map_of_merge_org:
  "distinct (map fst olds) \<Longrightarrow>
    map_of (merge_org since olds vs) j = (case map_of olds j of None \<Rightarrow> map_of vs j | Some o' \<Rightarrow> resolve since o' (map_of vs j))"
proof (induction olds arbitrary: vs)
  case (Cons x olds)
  obtain k o' where x: "x = (k, o')" by fastforce
  from Cons.prems x have "map_of olds k = None" by (auto simp: map_of_eq_None_iff)
  with Cons.IH [of "merge_value since vs x"] Cons.prems show ?case
    by (auto simp: merge_org_def x map_of_merge_value split: option.splits)
qed (simp add: merge_org_def)

lemma merge_org_Nil: "merge_org since olds vs = [] \<Longrightarrow> vs = []"
proof -
  have "merge_value since vs x \<noteq> []" if "vs \<noteq> []" for vs x using that by (auto simp: merge_value_def split: option.splits)
  then show "merge_org since olds vs = [] \<Longrightarrow> vs = []" unfolding merge_org_def by (induction olds arbitrary: vs) auto
qed

definition loaded_value :: "(string \<rightharpoonup> (string \<times> set_stored) list) \<Rightarrow> string \<Rightarrow> string \<Rightarrow> set_stored option" where
  "loaded_value loaded org key = (case loaded org of None \<Rightarrow> None | Some vs \<Rightarrow> map_of vs key)"

lemma orgValue_replaceOrgs:
  assumes "orgs_distinct r"
  shows "orgValue (replaceOrgs loaded since r) org key =
    (case orgValue r org key of None \<Rightarrow> loaded_value loaded org key | Some old \<Rightarrow> resolve since old (loaded_value loaded org key))"
proof (cases "sr_orgs r org")
  case None
  then show ?thesis by (simp add: orgValue_def replaceOrgs_def loaded_value_def findOrgValue_map_of split: option.splits)
next
  case (Some olds)
  define vs where "vs = (case loaded org of None \<Rightarrow> [] | Some vs \<Rightarrow> vs)"
  have d: "distinct (map fst olds)" using assms Some by (simp add: orgs_distinct_def)
  have l: "loaded_value loaded org key = map_of vs key" by (simp add: loaded_value_def vs_def split: option.splits)
  have "orgValue (replaceOrgs loaded since r) org key = map_of (merge_org since olds vs) key"
  proof (cases "merge_org since olds vs = []")
    case True
    with merge_org_Nil [OF True] Some show ?thesis
      by (auto simp: orgValue_def replaceOrgs_def findOrgValue_map_of simp flip: vs_def) (auto simp: vs_def split: option.splits)
  qed (simp add: orgValue_def replaceOrgs_def findOrgValue_map_of Some flip: vs_def)
  with map_of_merge_org [OF d, of since vs key] Some l show ?thesis by (simp add: orgValue_def findOrgValue_map_of split: option.splits)
qed

text \<open>Organisation values applied one after another.\<close>

definition apply_all :: "(string \<times> string \<times> set_stored) list \<Rightarrow> set_Registry \<Rightarrow> set_Registry" where
  "apply_all apps r = foldl (\<lambda>r (org, key, st). applyOrg org key st r) r apps"

lemma apply_all_simps [simp]:
  "apply_all [] r = r" "apply_all ((org, key, st) # apps) r = apply_all apps (applyOrg org key st r)"
  "apply_all (xs @ ys) r = apply_all ys (apply_all xs r)"
  by (simp_all add: apply_all_def)

lemma orgs_distinct_apply_all: "orgs_distinct r \<Longrightarrow> orgs_distinct (apply_all apps r)"
  by (induction apps arbitrary: r) (auto simp: orgs_distinct_applyOrg)

lemma orgSeq_applyOrg: "sr_orgSeq r < 2 ^ 64 - 1 \<Longrightarrow> sr_orgSeq r \<le> sr_orgSeq (applyOrg org key st r) \<and> sr_orgSeq (applyOrg org key st r) \<le> sr_orgSeq r + 1"
  by (simp add: applyOrg_def Let_def)

lemma orgSeq_apply_all:
  "sr_orgSeq r + length apps < 2 ^ 64 \<Longrightarrow> sr_orgSeq r \<le> sr_orgSeq (apply_all apps r) \<and> sr_orgSeq (apply_all apps r) \<le> sr_orgSeq r + length apps"
proof (induction apps arbitrary: r)
  case (Cons x apps)
  obtain org key st where x: "x = (org, key, st)" by (cases x) auto
  from Cons.prems orgSeq_applyOrg [of r org key st] Cons.IH [of "applyOrg org key st r"] show ?case by (auto simp: x)
qed simp

text \<open>A value applied after \<open>since\<close> gives way only to one at least as new, applied after \<open>since\<close> as well.\<close>

definition applied_since :: "nat \<Rightarrow> string \<Rightarrow> string \<Rightarrow> set_stored \<Rightarrow> set_Registry \<Rightarrow> bool" where
  "applied_since since org key st r \<longleftrightarrow> (\<exists>s. orgValue r org key = Some s \<and> st_version st \<le> st_version s \<and> since < st_seq s)"

lemma applied_since_apply_all:
  "applied_since since org key st r \<Longrightarrow> since \<le> sr_orgSeq r \<Longrightarrow> sr_orgSeq r + length apps < 2 ^ 64 \<Longrightarrow>
    applied_since since org key st (apply_all apps r)"
proof (induction apps arbitrary: r)
  case (Cons x apps)
  obtain o' k' st' where x: "x = (o', k', st')" by (cases x) auto
  note seq = orgSeq_applyOrg [of r o' k' st']
  have "applied_since since org key st (applyOrg o' k' st' r)"
    using Cons.prems by (auto simp: applied_since_def orgValue_applyOrg split: option.splits)
  with Cons.IH [of "applyOrg o' k' st' r"] Cons.prems seq show ?case by (auto simp: x)
qed simp

text \<open>
  C23: a reload of the organisations' values loses no change made while it ran, and forgets what was deleted. A reload starts
  when the last value applied has number \<open>since\<close>; while it reads the table, changes and notifications apply any values.
  A value among them that was applied, memory having nothing newer, is still in memory after the reload, or one with at least its version,
  whatever the reload read; a value from before the reload whose row the reload did not find is gone; and the platform's
  snapshot never goes back to an older version. The 64-bit counter does not wrap around meanwhile.
\<close>

theorem reload_keeps_applied:
  assumes "orgs_distinct r0" "sr_orgSeq r0 + length (pre @ (org, key, st) # post) < 2 ^ 64"
    and "\<And>prev. orgValue (apply_all pre r0) org key = Some prev \<Longrightarrow> st_version prev \<le> st_version st"
  defines "r1 \<equiv> apply_all (pre @ (org, key, st) # post) r0"
  shows "(\<exists>s. orgValue (replaceOrgs loaded (sr_orgSeq r0) r1) org key = Some s \<and> st_version st \<le> st_version s) \<and>
    (\<forall>o' k' s. orgValue r1 o' k' = Some s \<and> st_seq s \<le> sr_orgSeq r0 \<and> loaded_value loaded o' k' = None \<longrightarrow>
      orgValue (replaceOrgs loaded (sr_orgSeq r0) r1) o' k' = None) \<and>
    (\<forall>k' s. snap_value (sr_live r1) k' = Some s \<longrightarrow>
      (\<exists>t. snap_value (sr_live (set_replaceAll ld u r1)) k' = Some t \<and> st_version s \<le> st_version t))"
proof (intro conjI)
  let ?r = "apply_all pre r0"
  have seq: "sr_orgSeq r0 \<le> sr_orgSeq ?r" "sr_orgSeq ?r \<le> sr_orgSeq r0 + length pre" using orgSeq_apply_all [of r0 pre] assms(2) by auto
  have "applied_since (sr_orgSeq r0) org key st (applyOrg org key st ?r)"
    using assms(2,3) seq by (auto simp: applied_since_def orgValue_applyOrg split: option.splits)
  with applied_since_apply_all [of "sr_orgSeq r0" org key st "applyOrg org key st ?r" post] orgSeq_applyOrg [of ?r org key st] seq assms(2)
  have a: "applied_since (sr_orgSeq r0) org key st r1" by (auto simp: r1_def)
  note d = orgs_distinct_apply_all [OF assms(1), of "pre @ (org, key, st) # post", folded r1_def]
  show "\<exists>s. orgValue (replaceOrgs loaded (sr_orgSeq r0) r1) org key = Some s \<and> st_version st \<le> st_version s"
    using a by (auto simp: applied_since_def orgValue_replaceOrgs [OF d] resolve_def split: option.splits)
  show "\<forall>o' k' s. orgValue r1 o' k' = Some s \<and> st_seq s \<le> sr_orgSeq r0 \<and> loaded_value loaded o' k' = None \<longrightarrow>
      orgValue (replaceOrgs loaded (sr_orgSeq r0) r1) o' k' = None"
    by (auto simp: orgValue_replaceOrgs [OF d] resolve_def)
  show "\<forall>k' s. snap_value (sr_live r1) k' = Some s \<longrightarrow>
      (\<exists>t. snap_value (sr_live (set_replaceAll ld u r1)) k' = Some t \<and> st_version s \<le> st_version t)"
    using set_memory.deliver_all_newest [of r1 _ _ "[All ld]" u] by (simp add: set_memory.deliver_all_simps)
qed

definition size_row :: "int \<Rightarrow> set_stored" where
  "size_row v = \<lparr>st_value = Some (VInt 5), st_version = v, st_updatedAt = 0, st_updatedBy = ''ada'', st_invalid = False, st_seq = 0\<rparr>"

theorem reload_keeps_applied_witness:
  "\<exists>s. orgValue (replaceOrgs Map.empty (sr_orgSeq page_registry)
      (apply_all [(''acme'', ''list.page_size'', size_row 1), (''acme'', ''list.page_size'', size_row 2)] page_registry)) ''acme'' ''list.page_size'' = Some s \<and>
    2 \<le> st_version s"
proof -
  have "orgs_distinct page_registry" by (simp add: orgs_distinct_def page_registry_def set_NewRegistry_def)
  moreover have "sr_orgSeq page_registry + length ([(''acme'', ''list.page_size'', size_row 1)] @ [(''acme'', ''list.page_size'', size_row 2)]) < 2 ^ 64"
    by (simp add: page_registry_def set_NewRegistry_def)
  moreover have "st_version prev \<le> st_version (size_row 2)"
    if "orgValue (apply_all [(''acme'', ''list.page_size'', size_row 1)] page_registry) ''acme'' ''list.page_size'' = Some prev" for prev
    using that by (simp add: orgValue_applyOrg) (auto simp: orgValue_def page_registry_def set_NewRegistry_def size_row_def)
  ultimately have "\<exists>s. orgValue (replaceOrgs Map.empty (sr_orgSeq page_registry)
      (apply_all ([(''acme'', ''list.page_size'', size_row 1)] @ [(''acme'', ''list.page_size'', size_row 2)]) page_registry)) ''acme'' ''list.page_size'' = Some s \<and>
    st_version (size_row 2) \<le> st_version s"
    by (rule reload_keeps_applied [THEN conjunct1])
  then show ?thesis by (simp add: size_row_def)
qed

end
