(* ===== verification/Settings_Changes.thy ===== *)
theory Settings_Changes
  imports Settings_Orgs
begin

text \<open>
  What a change of a setting for an organisation does: to the tables, to the memory of the instance that made it, and,
  through its notification, to the memory of every other instance.
\<close>

section \<open>The transaction\<close>

definition current_value :: "string \<Rightarrow> string \<Rightarrow> settings_db \<Rightarrow> valueRow" where
  "current_value key org d = (case find_value key org d of Some r \<Rightarrow> r | None \<Rightarrow> no_value key org)"

definition next_value :: "string \<Rightarrow> string \<Rightarrow> string option \<Rightarrow> string \<Rightarrow> settings_db \<Rightarrow> valueRow" where
  "next_value key org val who d = \<lparr>vr_key = key, vr_orgID = org, vr_value = val,
     vr_version = vr_version (current_value key org d) + 1, vr_updatedAt = tb_now d, vr_updatedBy = who\<rparr>"

lemma find_value_is_row: "find_value key org d = Some r \<Longrightarrow> vr_key r = key \<and> vr_orgID r = org"
  by (auto simp: find_value_def is_row_def dest: find_SomeD)

text \<open>What a change leaves in the tables: its row, the rows of all others as they were, one history entry and one notification.\<close>

definition changed_db :: "ctx \<Rightarrow> Actor \<Rightarrow> string \<Rightarrow> string \<Rightarrow> string option \<Rightarrow> set_Change \<Rightarrow> settings_db \<Rightarrow> settings_db \<Rightarrow> bool" where
  "changed_db c a key org val change d d' \<longleftrightarrow>
     find_value key org d' = Some (next_value key org val (a_ID a) d) \<and>
     filter (\<lambda>r. \<not> is_row key org r) (tb_values d') = filter (\<lambda>r. \<not> is_row key org r) (tb_values d) \<and>
     (\<exists>old. tb_history d' = tb_history d @ [\<lparr>sh_id = tb_nextID d, sh_key = key, sh_orgID = org, sh_oldValue = old, sh_newValue = val,
        sh_version = vr_version (current_value key org d) + 1, sh_reason = TrimSpace (sc_Reason change), sh_actorKind = a_Kind a,
        sh_actorID = a_ID a, sh_requestID = ctx_request_id c, sh_changedAt = tb_now d\<rparr>]) \<and>
     tb_notified d' = tb_notified d @ [payload key org]"

lemma is_row_update [simp]:
  "is_row key org (r\<lparr>vr_value := v, vr_version := n, vr_updatedAt := t, vr_updatedBy := u\<rparr>) = is_row key org r"
  by (simp add: is_row_def)

text \<open>Successful statements.\<close>

lemma selectOne_run:
  "selectOne key org w = (Inr x, w') \<Longrightarrow> fst x = current_value key org (db w) \<and> snd x = (find_value key org (db w) \<noteq> None) \<and>
    db w' = db w \<and> ext w' = ext w"
  by (auto simp: selectOne_def run_elims current_value_def split: option.splits)

lemma insertValue_run:
  "insertValue lib key org v who w = (Inr row, w') \<Longrightarrow> \<exists>val. jsonbParam lib v = Some val \<and> row = next_value key org val who (db w) \<and>
    find_value key org (db w) = None \<and> db w' = (db w)\<lparr>tb_values := tb_values (db w) @ [row]\<rparr> \<and> ext w' = ext w"
  by (auto simp: insertValue_def run_elims next_value_def current_value_def no_value_def Let_def split: option.splits if_splits)

lemma updateValue_run:
  "updateValue lib key org v who w = (Inr row, w') \<Longrightarrow> \<exists>val r. jsonbParam lib v = Some val \<and> row = next_value key org val who (db w) \<and>
    find_value key org (db w) = Some r \<and> ext w' = ext w \<and>
    db w' = (db w)\<lparr>tb_values := update_where (is_row key org) (\<lambda>r. r\<lparr>vr_value := val, vr_version := vr_version r + 1,
      vr_updatedAt := tb_now (db w), vr_updatedBy := who\<rparr>) (tb_values (db w))\<rparr>"
proof -
  assume "updateValue lib key org v who w = (Inr row, w')"
  then obtain val r where r: "jsonbParam lib v = Some val" "find_value key org (db w) = Some r" "ext w' = ext w"
    "row = r\<lparr>vr_value := val, vr_version := vr_version r + 1, vr_updatedAt := tb_now (db w), vr_updatedBy := who\<rparr>"
    "db w' = (db w)\<lparr>tb_values := update_where (is_row key org) (\<lambda>r. r\<lparr>vr_value := val, vr_version := vr_version r + 1,
      vr_updatedAt := tb_now (db w), vr_updatedBy := who\<rparr>) (tb_values (db w))\<rparr>"
    by (auto simp: updateValue_def run_elims Let_def split: option.splits)
  moreover have "row = next_value key org val who (db w)"
    using r find_value_is_row [OF r(2)] by (cases r) (simp add: next_value_def current_value_def)
  ultimately show ?thesis by blast
qed

lemma set_insertHistory_run:
  "set_insertHistory lib h w = (Inr u, w') \<Longrightarrow> \<exists>old new. jsonbParam lib (sh_newValue h) = Some new \<and> ext w' = ext w \<and>
    db w' = (db w)\<lparr>tb_history := tb_history (db w) @ [h\<lparr>sh_id := tb_nextID (db w), sh_oldValue := old, sh_newValue := new,
      sh_changedAt := tb_now (db w)\<rparr>], tb_nextID := tb_nextID (db w) + 1\<rparr>"
  by (auto simp: set_insertHistory_def run_elims split: option.splits)

lemma set_notify_run:
  "set_notify key org w = (Inr u, w') \<Longrightarrow> ext w' = ext w \<and> db w' = (db w)\<lparr>tb_notified := tb_notified (db w) @ [payload key org]\<rparr>"
  by (auto simp: set_notify_def run_elims)

lemma update_find_value:
  assumes "find_value key org d = Some r"
  shows "find_value key org (d\<lparr>tb_values := update_where (is_row key org) (\<lambda>r. r\<lparr>vr_value := val, vr_version := vr_version r + 1,
      vr_updatedAt := tb_now d, vr_updatedBy := who\<rparr>) (tb_values d)\<rparr>) = Some (next_value key org val who d)"
proof -
  have "r\<lparr>vr_value := val, vr_version := vr_version r + 1, vr_updatedAt := tb_now d, vr_updatedBy := who\<rparr> = next_value key org val who d"
    using find_value_is_row [OF assms] assms by (cases r) (simp add: next_value_def current_value_def)
  with assms find_update_where [of "is_row key org" "tb_values d" r] show ?thesis by (simp add: find_value_def is_row_def)
qed

lemma stored_rows:
  assumes "(if b then insertValue lib key org v who else updateValue lib key org v who) w = (Inr row, w')"
  shows "\<exists>val. jsonbParam lib v = Some val \<and> row = next_value key org val who (db w) \<and> ext w' = ext w \<and>
    find_value key org (db w') = Some row \<and>
    filter (\<lambda>r. \<not> is_row key org r) (tb_values (db w')) = filter (\<lambda>r. \<not> is_row key org r) (tb_values (db w)) \<and>
    (\<exists>rows. db w' = (db w)\<lparr>tb_values := rows\<rparr>)"
proof (cases b)
  case True
  with assms have "insertValue lib key org v who w = (Inr row, w')" by simp
  from insertValue_run [OF this] obtain val where "jsonbParam lib v = Some val" "row = next_value key org val who (db w)"
    "find_value key org (db w) = None" "db w' = (db w)\<lparr>tb_values := tb_values (db w) @ [row]\<rparr>" "ext w' = ext w" by blast
  moreover from this have "is_row key org row" by (simp add: next_value_def is_row_def)
  ultimately show ?thesis by (auto simp: find_value_def find_append_new)
next
  case False
  with assms have "updateValue lib key org v who w = (Inr row, w')" by simp
  from updateValue_run [OF this] show ?thesis by (elim exE conjE) (simp add: update_find_value filter_rest_update, blast)
qed

lemma set_write_tx_run:
  assumes "set_write_tx lib c a d org newRaw change w = (Inr (result, changed), w')"
  shows "sc_Version change = vr_version (current_value (se_key d) org (db w)) \<and> ext w' = ext w \<and>
    (if changed then \<exists>val. jsonbParam lib newRaw = Some val \<and> result = next_value (se_key d) org val (a_ID a) (db w) \<and>
       changed_db c a (se_key d) org val change (db w) (db w')
     else sameValue lib d (vr_value (current_value (se_key d) org (db w))) newRaw \<and> db w' = db w)"
proof -
  let ?key = "se_key d" and ?cur = "current_value (se_key d) org (db w)"
  let ?h = "\<lambda>result. \<lparr>sh_id = 0, sh_key = ?key, sh_orgID = org, sh_oldValue = vr_value ?cur,
                sh_newValue = newRaw, sh_version = vr_version result, sh_reason = TrimSpace (sc_Reason change),
                sh_actorKind = a_Kind a, sh_actorID = a_ID a, sh_requestID = ctx_request_id c, sh_changedAt = 0\<rparr>"
  from assms obtain w1 where w1: "db w1 = db w" "ext w1 = ext w" "sc_Version change = vr_version ?cur"
    and rest: "sameValue lib d (vr_value ?cur) newRaw \<and> \<not> changed \<and> w' = w1 \<or>
      (\<exists>w2 w3. (if vr_version ?cur = 0 then insertValue lib ?key org newRaw (a_ID a) else updateValue lib ?key org newRaw (a_ID a)) w1 = (Inr result, w2) \<and>
        set_insertHistory lib (?h result) w2 = (Inr (), w3) \<and> set_notify ?key org w3 = (Inr (), w') \<and> changed)"
    unfolding set_write_tx_def bindC_run retC_run case_prod_run if_run failC_run
    by (fastforce dest: selectOne_run)
  from rest show ?thesis
  proof (elim disjE exE conjE)
    fix w2 w3
    assume ins: "(if vr_version ?cur = 0 then insertValue lib ?key org newRaw (a_ID a) else updateValue lib ?key org newRaw (a_ID a)) w1 = (Inr result, w2)"
      and hist: "set_insertHistory lib (?h result) w2 = (Inr (), w3)" and sent: "set_notify ?key org w3 = (Inr (), w')" and changed
    from stored_rows [OF ins] set_insertHistory_run [OF hist] set_notify_run [OF sent] w1 \<open>changed\<close> show ?thesis
      by (auto simp: changed_db_def next_value_def find_value_def)
  qed (use w1 in auto)
qed

section \<open>A change and its memory\<close>

lemma set_write_run:
  assumes "set_write lib c d org newRaw change w = (Inr v, w')"
  defines "d0 \<equiv> db (interfere w)" and "key \<equiv> se_key d"
  shows "\<exists>a. From c = Some a \<and> a_Kind a \<noteq> KindAnonymous \<and> a_ID a \<noteq> [] \<and> sc_Version change = vr_version (current_value key org d0) \<and>
    (db w' = d0 \<and> ext w' = ext w \<or>
     (\<exists>val row. jsonbParam lib newRaw = Some val \<and> row = next_value key org val (a_ID a) d0 \<and> changed_db c a key org val change d0 (db w') \<and>
       si_reg (ext w') = (if org \<noteq> [] then applyOrg org key (toStored lib d row) (si_reg (ext w)) else set_apply key (toStored lib d row) (si_reg (ext w))) \<and>
       si_events (ext w') = si_events (ext w) @ [(c, set_change_event key org (vr_version row) (newRaw = None) (TrimSpace (sc_Reason change)))]))"
proof -
  from assms(1) obtain a fs w1 result changed where a: "From c = Some a" "a_Kind a \<noteq> KindAnonymous" "a_ID a \<noteq> []"
    and tx: "set_write_tx lib c a d org newRaw change (interfere (w\<lparr>faults := fs\<rparr>)) = (Inr (result, changed), w1)"
    and db: "db w' = db w1" and ext: "ext w' = (if changed then (ext w1)\<lparr>si_reg := (if org \<noteq> [] then applyOrg org key (toStored lib d result) (si_reg (ext w1))
        else set_apply key (toStored lib d result) (si_reg (ext w1))),
      si_events := si_events (ext w1) @ [(c, set_change_event key org (vr_version result) (newRaw = None) (TrimSpace (sc_Reason change)))]\<rparr> else ext w1)"
    unfolding set_write_def key_def
    by (auto simp: run_elims BeginFunc_run split: option.splits if_splits)
  have d0: "db (interfere (w\<lparr>faults := fs\<rparr>)) = d0" "ext (interfere (w\<lparr>faults := fs\<rparr>)) = ext w"
    by (auto simp: d0_def interfere_def split: list.splits)
  show ?thesis by (rule exI [of _ a])
    (use a set_write_tx_run [OF tx, unfolded d0, folded key_def] db ext in \<open>auto split: if_splits\<close>)
qed

lemma SetForOrg_run:
  assumes "SetForOrg lib c org key value change w = (Inr v, w')"
  obtains d x where "checkOrgID org" "sr_defs (si_reg (ext w)) key = Some d" "se_orgOverridable d" "parse lib d value = Inr x"
    "set_write lib c d org (Some (encode_value lib x)) change w = (Inr v, w')"
  using assms unfolding SetForOrg_def
  by (auto simp: run_elims orgDefinition_def split: if_splits option.splits sum.splits)

lemma set_Get_applyOrg_other:
  assumes "(\<forall>a. From c = Some a \<longrightarrow> a_OrgID a \<noteq> org) \<or> se_key d \<noteq> key"
  shows "set_Get (applyOrg org key st r) c d = set_Get r c d"
proof -
  have "sr_live (applyOrg org key st r) = sr_live r" "sr_boot (applyOrg org key st r) = sr_boot r" by (simp_all add: applyOrg_def Let_def)
  moreover have "org_override (applyOrg org key st r) c d = org_override r c d"
    using assms by (auto simp: org_override_def orgValue_applyOrg split: option.splits)
  ultimately show ?thesis unfolding set_Get_def by (simp split: option.split)
qed

text \<open>
  C24: an organisation's setting is its own. A successful \<open>SetForOrg\<close> was made by an authenticated caller, for a
  well-formed organisation ID, a declared setting that allows it and a value within its validation, on the version the
  caller saw. It changes nothing for anyone else: every read by a caller who does not act in that organisation, of any
  setting, and every read of another setting gives what it gave before; and the rows of the platform, of the other
  organisations and of the other settings stay as they were.
\<close>

theorem SetForOrg_isolated:
  assumes "reg_inv lib (si_reg (ext w))" "SetForOrg lib c org key value change w = (Inr v, w')"
  shows "(\<forall>c' d'. (\<forall>a. From c' = Some a \<longrightarrow> a_OrgID a \<noteq> org) \<or> se_key d' \<noteq> key \<longrightarrow>
      set_Get (si_reg (ext w')) c' d' = set_Get (si_reg (ext w)) c' d') \<and>
    filter (\<lambda>r. \<not> is_row key org r) (tb_values (db w')) = filter (\<lambda>r. \<not> is_row key org r) (tb_values (db (interfere w))) \<and>
    (\<exists>a d x. From c = Some a \<and> a_Kind a \<noteq> KindAnonymous \<and> a_ID a \<noteq> [] \<and> checkOrgID org \<and> sr_defs (si_reg (ext w)) key = Some d \<and>
      se_orgOverridable d \<and> parse lib d value = Inr x \<and> sc_Version change = vr_version (current_value key org (db (interfere w))))"
proof -
  from assms(2) obtain d x where d: "checkOrgID org" "sr_defs (si_reg (ext w)) key = Some d" "se_orgOverridable d" "parse lib d value = Inr x"
    and run: "set_write lib c d org (Some (encode_value lib x)) change w = (Inr v, w')" by (rule SetForOrg_run)
  have key: "se_key d = key" using assms(1) d(2) by (simp add: reg_inv_def declared_ok_def)
  have org: "org \<noteq> []" using d(1) by (simp add: checkOrgID_def)
  from set_write_run [OF run] key org obtain a where a: "From c = Some a" "a_Kind a \<noteq> KindAnonymous" "a_ID a \<noteq> []"
      "sc_Version change = vr_version (current_value key org (db (interfere w)))"
    and res: "db w' = db (interfere w) \<and> ext w' = ext w \<or>
      (\<exists>val st. changed_db c a key org val change (db (interfere w)) (db w') \<and> si_reg (ext w') = applyOrg org key st (si_reg (ext w)))"
    by auto
  from res have "filter (\<lambda>r. \<not> is_row key org r) (tb_values (db w')) = filter (\<lambda>r. \<not> is_row key org r) (tb_values (db (interfere w)))"
    by (auto simp: changed_db_def)
  moreover from res have "set_Get (si_reg (ext w')) c' d' = set_Get (si_reg (ext w)) c' d'"
    if "(\<forall>a. From c' = Some a \<longrightarrow> a_OrgID a \<noteq> org) \<or> se_key d' \<noteq> key" for c' d'
    using set_Get_applyOrg_other [OF that] by auto
  ultimately show ?thesis using a d by blast
qed

section \<open>A change reaches the other instances\<close>

lemma payload_cut:
  assumes "dotted_name2 key" shows "cut_at CHR '' '' (payload key org) = (key, org, org \<noteq> [])"
proof -
  have "CHR '' '' \<notin> set key"
    using assms dotted_name_chars [of key "CHR '' ''"] by (auto simp: dotted_name2_def name_char_def name_start_def)
  then show ?thesis using cut_at_join [of "CHR '' ''" key org] by (auto simp: payload_def cut_at_def)
qed

lemma reloadKey_org:
  assumes "dotted_name2 key" "checkOrgID org" "faults w = []" "sr_defs (si_reg (ext w)) key = Some d" "se_key d = key" "se_orgOverridable d"
    "find_value key org (db w) = Some row"
  shows "set_reloadKey lib (payload key org) w = (Inr (), w\<lparr>ext := (ext w)\<lparr>si_reg := applyOrg org key (toStored lib d row) (si_reg (ext w))\<rparr>\<rparr>)"
proof -
  have "org \<noteq> []" using assms(2) by (simp add: checkOrgID_def)
  with assms show ?thesis
    by (simp add: set_reloadKey_def payload_cut bindC_def getC_def reloadOrgKey_def selectOne_def query_works on_reg_def extC_def)
qed

lemma set_Get_applyOrg:
  assumes "se_orgOverridable d" "From c = Some a" "a_OrgID a = org" "org \<noteq> []" "st_value st = Some x"
    "\<And>old. orgValue r org (se_key d) = Some old \<Longrightarrow> st_version old \<le> st_version st"
  shows "set_Get (applyOrg org (se_key d) st r) c d = x"
  using assms by (auto simp: set_Get_def org_override_def orgValue_applyOrg split: option.splits)

text \<open>
  C25: a change for an organisation reaches every instance. After \<open>SetForOrg\<close> has changed a value, a read of the setting in that
  organisation gives the new value on the instance that made the change at once; and any other instance that declares
  the setting gives it too once it has handled the notification the change sent, whose text names the setting and the
  organisation. The value is one that JSON and the \<open>jsonb\<close> column read back; no instance holds a version the table has not had.
\<close>

theorem SetForOrg_propagates:
  assumes "reg_inv lib (si_reg (ext w))" "SetForOrg lib c org key value change w = (Inr v, w')" "db w' \<noteq> db (interfere w)"
    and "sr_defs (si_reg (ext w)) key = Some d" "parse lib d value = Inr x"
    and "\<And>j. l_jsonb lib (encode_value lib x) = Some j \<Longrightarrow> decode_kind lib (se_kind d) j = Inr x"
    and "\<And>st. orgValue (si_reg (ext w)) org key = Some st \<Longrightarrow> st_version st \<le> sc_Version change + 1"
    and "db wb = db w'" "faults wb = []" "sr_defs (si_reg (ext wb)) key = Some d"
    and "\<And>st. orgValue (si_reg (ext wb)) org key = Some st \<Longrightarrow> st_version st \<le> sc_Version change + 1"
    and "From c' = Some b" "a_OrgID b = org"
  shows "set_Get (si_reg (ext w')) c' d = x \<and>
    set_Get (si_reg (ext (snd (set_reloadKey lib (last (tb_notified (db w'))) wb)))) c' d = x"
proof -
  from assms(2,4,5) have d: "checkOrgID org" "se_orgOverridable d"
    and run: "set_write lib c d org (Some (encode_value lib x)) change w = (Inr v, w')" by (auto elim!: SetForOrg_run)
  have key: "se_key d = key" "dotted_name2 key" using assms(1,4) by (auto simp: reg_inv_def declared_ok_def)
  have org: "org \<noteq> []" using d(1) by (simp add: checkOrgID_def)
  from set_write_run [OF run] key org assms(3) obtain a j row where ver: "sc_Version change = vr_version (current_value key org (db (interfere w)))"
    and j: "l_jsonb lib (encode_value lib x) = Some j" and row: "row = next_value key org (Some j) (a_ID a) (db (interfere w))"
    and chg: "changed_db c a key org (Some j) change (db (interfere w)) (db w')"
    and reg: "si_reg (ext w') = applyOrg org key (toStored lib d row) (si_reg (ext w))"
    by (auto simp: jsonbParam_def split: option.splits)
  have "parse lib d j = Inr x" using assms(5) assms(6) [OF j] by (auto simp: parse_def bind_res_Inr split: option.splits)
  then have st: "st_value (toStored lib d row) = Some x" "st_version (toStored lib d row) = sc_Version change + 1"
    by (simp_all add: toStored_def row next_value_def ver)
  have sent: "last (tb_notified (db w')) = payload key org" "find_value key org (db wb) = Some row"
    using chg assms(8) by (simp_all add: changed_db_def row)
  have "set_reloadKey lib (last (tb_notified (db w'))) wb =
      (Inr (), wb\<lparr>ext := (ext wb)\<lparr>si_reg := applyOrg org key (toStored lib d row) (si_reg (ext wb))\<rparr>\<rparr>)"
    unfolding sent(1) by (rule reloadKey_org [OF key(2) d(1) assms(9,10) key(1) d(2) sent(2)])
  moreover note set_Get_applyOrg [OF d(2) assms(12,13) org st(1)]
  ultimately show ?thesis using assms(7,11) st(2) reg key by simp
qed

text \<open>Two instances with one setting, and an operator who sets it for an organisation.\<close>

definition settings_world :: "settings_db \<Rightarrow> (settings_db, set_instance) world" where
  "settings_world d = \<lparr>db = d, faults = [], others = [], ext = \<lparr>si_reg = page_registry, si_events = []\<rparr>\<rparr>"

definition empty_settings :: settings_db where
  "empty_settings = \<lparr>tb_values = [], tb_history = [], tb_nextID = 1, tb_now = 7, tb_notified = []\<rparr>"

definition acting :: "string \<Rightarrow> ctx" where
  "acting org = With Background \<lparr>a_Kind = KindUser, a_ID = ''ada'', a_Label = [], a_OrgID = org, a_Permissions = [], a_StepUp = []\<rparr>"

definition bigger_pages where
  "bigger_pages = SetForOrg tally_lib (acting ''acme'') ''acme'' ''list.page_size'' ''11111'' \<lparr>sc_Version = 0, sc_Reason = []\<rparr> (settings_world empty_settings)"

lemma page_registry_inv: "reg_inv tally_lib page_registry"
  by (rule reg_inv_step [OF step_Int [OF page_registry_declared]]) (simp add: reg_inv_def set_NewRegistry_def snap_value_def)

lemma page_size_parse: "parse tally_lib page_size ''11111'' = Inr (VInt 5)"
  by (simp add: parse_def page_size_eq tally_parse check_range_def del: decode_kind.simps)

lemma bigger_pages_run: "\<exists>v w'. bigger_pages = (Inr v, w') \<and> db w' \<noteq> empty_settings"
proof -
  have "checkOrgID ''acme''" by (simp add: checkOrgID_def maxOrgIDLen_def)
  then show ?thesis
    by (simp add: bigger_pages_def SetForOrg_def settings_world_def page_registry_def orgDefinition_def liftC_def bindC_def getC_def retC_def
        page_size_parse set_write_def acting_def From_def With_def BeginFunc_def interfere_def set_write_tx_def selectOne_def query_def stmt_def
        find_value_def no_value_def empty_settings_def sameValue_def insertValue_def jsonbParam_def set_insertHistory_def set_notify_def
        mapErrC_def extC_def Let_def tally_encode tally_lib_def [THEN arg_cong, of l_jsonb] del: encode_value.simps)
      (simp add: page_size_eq)
qed

theorem SetForOrg_isolated_witness: "set_Get (si_reg (ext (snd bigger_pages))) (acting ''globex'') page_size = VInt 3"
proof -
  obtain v w' where run: "bigger_pages = (Inr v, w')" using bigger_pages_run by blast
  have "set_Get (si_reg (ext w')) (acting ''globex'') page_size = set_Get (si_reg (ext (settings_world empty_settings))) (acting ''globex'') page_size"
    using SetForOrg_isolated [of tally_lib "settings_world empty_settings", OF _ run [unfolded bigger_pages_def]] page_registry_inv
    by (simp add: settings_world_def acting_def From_def With_def)
  also have "\<dots> = VInt 3"
    by (simp add: settings_world_def set_Get_def org_override_def orgValue_def page_registry_def set_NewRegistry_def snap_value_def
        page_size_eq acting_def From_def With_def)
  finally show ?thesis by (simp add: run)
qed

theorem SetForOrg_propagates_witness:
  "set_Get (si_reg (ext (snd (set_reloadKey tally_lib (last (tb_notified (db (snd bigger_pages)))) (settings_world (db (snd bigger_pages)))))))
    (acting ''acme'') page_size = VInt 5"
proof -
  obtain v w' where run: "bigger_pages = (Inr v, w')" "db w' \<noteq> empty_settings" using bigger_pages_run by blast
  let ?w = "settings_world empty_settings" and ?wb = "settings_world (db w')"
  have same: "db (interfere ?w) = empty_settings" by (simp add: interfere_def settings_world_def)
  have decode: "decode_kind tally_lib (se_kind page_size) j = Inr (VInt 5)" if "l_jsonb tally_lib (encode_value tally_lib (VInt 5)) = Some j" for j
  proof -
    have "j = ''11111''" using that by (simp add: tally_encode del: encode_value.simps) (simp add: tally_lib_def)
    then show ?thesis by (simp add: page_size_eq tally_parse del: decode_kind.simps)
  qed
  have none: "orgValue (si_reg (ext (settings_world d))) ''acme'' ''list.page_size'' = Some st \<Longrightarrow> st_version st \<le> n" for d st n
    by (simp add: settings_world_def orgValue_def page_registry_def set_NewRegistry_def)
  have "set_Get (si_reg (ext w')) (acting ''acme'') page_size = VInt 5 \<and>
      set_Get (si_reg (ext (snd (set_reloadKey tally_lib (last (tb_notified (db w'))) ?wb)))) (acting ''acme'') page_size = VInt 5"
    by (rule SetForOrg_propagates [where w = ?w and wb = ?wb and lib = tally_lib, OF _ run(1) [unfolded bigger_pages_def] _ _ page_size_parse decode none _ _ _ none])
      (use run(2) page_registry_inv in \<open>simp_all add: same\<close>, simp_all add: settings_world_def page_registry_def acting_def From_def With_def, simp)
  then show ?thesis by (simp add: run)
qed

end
