(* ===== verification/Flags.thy ===== *)
theory Flags
  imports Snapshots Audit_Events Txn
begin

text \<open>
  Feature flags (\<open>modules/flags\<close>): the state of a flag and its bounds, evaluation for an actor, the registry of
  declared flags with its snapshot of stored states, and the store: changes with a version check, a history row and a
  notification in one transaction, reloads, views and history pages.

  Parameters: SHA-256, and the JSON encoding of a state as \<open>encoding/json\<close> and a \<open>jsonb\<close> column have it
  (\<open>state_json\<close>). What an instance keeps outside the database, its registry and the events it hands to the audit
  recorder, is the record \<open>flag_instance\<close>. \<open>Run\<close>, which listens for notifications, is the deliveries it makes.
\<close>

section \<open>States\<close>

definition MaxTargets :: nat where "MaxTargets = 1000"
definition MaxIDLen :: nat where "MaxIDLen = 100"

record Targets =
  t_Allow :: "string list"
  t_Deny :: "string list"

record State =
  fs_Enabled :: bool
  fs_Default :: bool
  fs_Orgs :: Targets
  fs_Users :: Targets
  fs_Percentage :: "int option"

definition norm_targets :: "Targets \<Rightarrow> Targets" where
  "norm_targets t = \<lparr>t_Allow = sort_compact (t_Allow t), t_Deny = sort_compact (t_Deny t)\<rparr>"

definition normalize :: "State \<Rightarrow> State" where
  "normalize s = s\<lparr>fs_Orgs := norm_targets (fs_Orgs s), fs_Users := norm_targets (fs_Users s)\<rparr>"

definition validID :: "string \<Rightarrow> bool" where
  "validID i = (i \<noteq> [] \<and> length i \<le> MaxIDLen \<and> list_all (\<lambda>c. 32 < byte c \<and> byte c \<le> 126) i)"

text \<open>\<open>slices.BinarySearch\<close> on strings: the loop, and the position with whether the target is there.\<close>

function search_loop :: "string list \<Rightarrow> string \<Rightarrow> nat \<Rightarrow> nat \<Rightarrow> nat" where
  "search_loop xs t i j =
     (if i < j then let h = (i + j) div 2 in if xs ! h < t then search_loop xs t (h + 1) j else search_loop xs t i h
      else i)"
  by pat_completeness auto

termination by (relation "measure (\<lambda>(xs, t, i, j). j - i)") auto

declare search_loop.simps [simp del]

definition BinarySearch :: "string list \<Rightarrow> string \<Rightarrow> nat \<times> bool" where
  "BinarySearch xs t = (let i = search_loop xs t 0 (length xs) in (i, i < length xs \<and> xs ! i = t))"

definition overlaps :: "Targets \<Rightarrow> bool" where
  "overlaps t = list_ex (\<lambda>i. snd (BinarySearch (t_Deny t) i)) (t_Allow t)"

datatype state_error = BadPercentage | TooManyTargets string | BadTarget string nat | Overlap

text \<open>One of the four lists, by its name; the position of the first ID that is out of bounds.\<close>

definition check_list :: "string \<Rightarrow> string list \<Rightarrow> state_error option" where
  "check_list name ids =
     (if length ids > MaxTargets then Some (TooManyTargets name)
      else case List.find (\<lambda>i. \<not> validID (ids ! i)) [0..<length ids] of
        Some i \<Rightarrow> Some (BadTarget name i)
      | None \<Rightarrow> None)"

fun check_lists :: "(string \<times> string list) list \<Rightarrow> state_error option" where
  "check_lists [] = None"
| "check_lists ((name, ids) # ls) = (case check_list name ids of Some e \<Rightarrow> Some e | None \<Rightarrow> check_lists ls)"

definition validate :: "State \<Rightarrow> state_error option" where
  "validate s =
     (if (case fs_Percentage s of None \<Rightarrow> False | Some p \<Rightarrow> p < 0 \<or> p > 100) then Some BadPercentage
      else case check_lists [(''orgs.allow'', t_Allow (fs_Orgs s)), (''orgs.deny'', t_Deny (fs_Orgs s)),
                             (''users.allow'', t_Allow (fs_Users s)), (''users.deny'', t_Deny (fs_Users s))] of
        Some e \<Rightarrow> Some e
      | None \<Rightarrow> if overlaps (fs_Orgs s) \<or> overlaps (fs_Users s) then Some Overlap else None)"

record 'j state_json =
  to_json :: "State \<Rightarrow> 'j"
  of_json :: "'j \<Rightarrow> State option"

definition encodeState :: "'j state_json \<Rightarrow> State \<Rightarrow> 'j" where
  "encodeState js s = to_json js s"

definition decodeState :: "'j state_json \<Rightarrow> 'j \<Rightarrow> State option" where
  "decodeState js raw =
     (case of_json js raw of
        None \<Rightarrow> None
      | Some s \<Rightarrow> let s = normalize s in if validate s = None then Some s else None)"

record compiled =
  c_state :: State
  c_enabled :: bool
  c_def :: bool
  c_percentage :: int
  c_orgAllow :: "string set"
  c_orgDeny :: "string set"
  c_userAllow :: "string set"
  c_userDeny :: "string set"

definition compile :: "State \<Rightarrow> compiled" where
  "compile s =
     (let s = normalize s in
      \<lparr>c_state = s, c_enabled = fs_Enabled s, c_def = fs_Default s,
       c_percentage = (case fs_Percentage s of None \<Rightarrow> -1 | Some p \<Rightarrow> p),
       c_orgAllow = set (t_Allow (fs_Orgs s)), c_orgDeny = set (t_Deny (fs_Orgs s)),
       c_userAllow = set (t_Allow (fs_Users s)), c_userDeny = set (t_Deny (fs_Users s))\<rparr>)"

section \<open>Evaluation\<close>

datatype Reason = ReasonDisabled | ReasonOrgDenied | ReasonOrgAllowed | ReasonUserDenied | ReasonUserAllowed
  | ReasonRollout | ReasonDefault

record Evaluation =
  ev_Key :: string
  ev_Enabled :: bool
  ev_Reason :: Reason

definition be64 :: "string \<Rightarrow> nat" where
  "be64 bs = foldl (\<lambda>n c. n * 256 + byte c) 0 (take 8 bs)"

definition Bucket :: "(string \<Rightarrow> string) \<Rightarrow> string \<Rightarrow> string \<Rightarrow> int" where
  "Bucket sha256 key subject = int (be64 (sha256 (key @ [CHR 0x00] @ subject)) mod 100)"

definition evaluate_compiled :: "(string \<Rightarrow> string) \<Rightarrow> compiled \<Rightarrow> string \<Rightarrow> Actor \<Rightarrow> bool \<times> Reason" where
  "evaluate_compiled sha c key a =
     (let authenticated = (a_Kind a \<noteq> KindAnonymous \<and> a_ID a \<noteq> []);
          subject = (if a_OrgID a = [] \<and> authenticated then a_ID a else a_OrgID a) in
      if \<not> c_enabled c then (False, ReasonDisabled)
      else if a_OrgID a \<noteq> [] \<and> a_OrgID a \<in> c_orgDeny c then (False, ReasonOrgDenied)
      else if a_OrgID a \<noteq> [] \<and> a_OrgID a \<in> c_orgAllow c then (True, ReasonOrgAllowed)
      else if authenticated \<and> a_ID a \<in> c_userDeny c then (False, ReasonUserDenied)
      else if authenticated \<and> a_ID a \<in> c_userAllow c then (True, ReasonUserAllowed)
      else if c_percentage c \<ge> 0 \<and> subject \<noteq> [] then (Bucket sha key subject < c_percentage c, ReasonRollout)
      else if c_percentage c = 0 then (False, ReasonRollout)
      else if c_percentage c = 100 then (True, ReasonRollout)
      else (c_def c, ReasonDefault))"

section \<open>The registry\<close>

record definition_rec =
  d_key :: string
  d_description :: string
  d_group :: string
  d_client :: bool
  d_defaultOn :: bool
  d_declared :: compiled

record stored =
  sd_state :: "compiled option"
  sd_version :: int
  sd_updatedAt :: time
  sd_updatedBy :: string
  sd_invalid :: bool

record Registry =
  r_defs :: "string \<rightharpoonup> definition_rec"
  r_keys :: "string list"
  r_frozen :: bool
  r_live :: "(string \<rightharpoonup> stored) option"
  r_unknown :: "string list option"

definition NewRegistry :: Registry where
  "NewRegistry = \<lparr>r_defs = Map.empty, r_keys = [], r_frozen = False, r_live = None, r_unknown = None\<rparr>"

datatype Option = Describe string | Group string | Client | DefaultOn

fun apply_option :: "definition_rec \<Rightarrow> Option \<Rightarrow> definition_rec" where
  "apply_option d (Describe t) = d\<lparr>d_description := t\<rparr>"
| "apply_option d (Group n) = d\<lparr>d_group := n\<rparr>"
| "apply_option d Client = d\<lparr>d_client := True\<rparr>"
| "apply_option d DefaultOn = d\<lparr>d_defaultOn := True\<rparr>"

definition plain_state :: "bool \<Rightarrow> State" where
  "plain_state on = \<lparr>fs_Enabled = on, fs_Default = on, fs_Orgs = \<lparr>t_Allow = [], t_Deny = []\<rparr>,
     fs_Users = \<lparr>t_Allow = [], t_Deny = []\<rparr>, fs_Percentage = None\<rparr>"

text \<open>A declaration that panics is \<open>None\<close>.\<close>

definition flag_Bool :: "Registry \<Rightarrow> string \<Rightarrow> Option list \<Rightarrow> Registry option" where
  "flag_Bool r key opts =
     (if \<not> dotted_name2 key then None
      else
        let d = foldl apply_option \<lparr>d_key = key, d_description = [], d_group = [], d_client = False, d_defaultOn = False,
                  d_declared = compile (plain_state False)\<rparr> opts;
            d = d\<lparr>d_declared := compile (plain_state (d_defaultOn d))\<rparr> in
        if r_frozen r \<or> r_defs r key \<noteq> None then None
        else Some (r\<lparr>r_defs := (r_defs r)(key \<mapsto> d), r_keys := r_keys r @ [key]\<rparr>))"

definition freeze :: "Registry \<Rightarrow> Registry" where
  "freeze r = r\<lparr>r_frozen := True\<rparr>"

definition definitions :: "Registry \<Rightarrow> definition_rec list" where
  "definitions r = map (\<lambda>k. the (r_defs r k)) (r_keys r)"

definition flag_apply :: "string \<Rightarrow> stored \<Rightarrow> Registry \<Rightarrow> Registry" where
  "flag_apply key st r =
     (case r_live r of
        None \<Rightarrow> r\<lparr>r_live := Some [key \<mapsto> st]\<rparr>
      | Some cur \<Rightarrow>
          (case cur key of
             Some old \<Rightarrow> if sd_version old > sd_version st then r else r\<lparr>r_live := Some (cur(key \<mapsto> st))\<rparr>
           | None \<Rightarrow> r\<lparr>r_live := Some (cur(key \<mapsto> st))\<rparr>))"

text \<open>The loop over the current snapshot puts back what is missing from the load or newer.\<close>

definition keep_newer :: "(string \<rightharpoonup> stored) \<Rightarrow> (string \<rightharpoonup> stored) \<Rightarrow> string \<rightharpoonup> stored" where
  "keep_newer cur loaded = (\<lambda>k. case cur k of
      None \<Rightarrow> loaded k
    | Some old \<Rightarrow> (case loaded k of None \<Rightarrow> Some old | Some st \<Rightarrow> if sd_version old > sd_version st then Some old else Some st))"

definition replaceAll :: "(string \<rightharpoonup> stored) \<Rightarrow> string list \<Rightarrow> Registry \<Rightarrow> Registry" where
  "replaceAll loaded unknown r =
     r\<lparr>r_live := Some (case r_live r of None \<Rightarrow> loaded | Some cur \<Rightarrow> keep_newer cur loaded), r_unknown := Some unknown\<rparr>"

definition live_stored :: "Registry \<Rightarrow> string \<Rightarrow> stored option" where
  "live_stored r key = (case r_live r of None \<Rightarrow> None | Some snap \<Rightarrow> snap key)"

definition evaluate :: "(string \<Rightarrow> string) \<Rightarrow> Registry \<Rightarrow> ctx \<Rightarrow> definition_rec \<Rightarrow> Evaluation" where
  "evaluate sha r c d =
     (let st = (case live_stored r (d_key d) of
                  None \<Rightarrow> d_declared d
                | Some s \<Rightarrow> (case sd_state s of None \<Rightarrow> d_declared d | Some st \<Rightarrow> st));
          (enabled, reason) = evaluate_compiled sha st (d_key d) (FromOrAnonymous c) in
      \<lparr>ev_Key = d_key d, ev_Enabled = enabled, ev_Reason = reason\<rparr>)"

section \<open>Tables\<close>

record 'j state_row =
  fr_key :: string
  fr_state :: "'j option"
  fr_version :: int
  fr_updatedAt :: time
  fr_updatedBy :: string

record 'j history_row =
  fh_id :: int
  fh_key :: string
  fh_oldState :: "'j option"
  fh_newState :: "'j option"
  fh_version :: int
  fh_reason :: string
  fh_actorKind :: Kind
  fh_actorID :: string
  fh_requestID :: string
  fh_changedAt :: time

text \<open>The tables, the identity sequence of the history, the database clock and the notifications sent.\<close>

record 'j flags_db =
  fd_states :: "'j state_row list"
  fd_history :: "'j history_row list"
  fd_nextID :: int
  fd_now :: time
  fd_notified :: "string list"

datatype flag_error = ErrUnknownFlag | ErrVersionConflict | ErrReasonRequired | ErrActorRequired
  | ErrInvalidState string state_error | ErrDeleteLimit

record flag_instance =
  in_reg :: Registry
  in_events :: "(ctx \<times> Event) list"

type_synonym ('j, 'a) fl = "('j flags_db, flag_instance, flag_error, 'a) comp"

definition find_state :: "string \<Rightarrow> 'j flags_db \<Rightarrow> 'j state_row option" where
  "find_state key d = List.find (\<lambda>r. fr_key r = key) (fd_states d)"

definition no_state :: "string \<Rightarrow> 'j state_row" where
  "no_state key = \<lparr>fr_key = key, fr_state = None, fr_version = 0, fr_updatedAt = 0, fr_updatedBy = []\<rparr>"

definition selectState :: "string \<Rightarrow> ('j, 'j state_row \<times> bool) fl" where
  "selectState key = query (\<lambda>d. Inr (case find_state key d of Some r \<Rightarrow> (r, True) | None \<Rightarrow> (no_state key, False)))"

definition insertState :: "string \<Rightarrow> 'j option \<Rightarrow> string \<Rightarrow> ('j, 'j state_row) fl" where
  "insertState key st by' = stmt (\<lambda>d.
     if find_state key d \<noteq> None then (Inl (Err ErrVersionConflict), d)
     else let row = \<lparr>fr_key = key, fr_state = st, fr_version = 1, fr_updatedAt = fd_now d, fr_updatedBy = by'\<rparr>
          in (Inr row, d\<lparr>fd_states := fd_states d @ [row]\<rparr>))"

definition updateState :: "string \<Rightarrow> 'j option \<Rightarrow> string \<Rightarrow> ('j, 'j state_row) fl" where
  "updateState key st by' = stmt (\<lambda>d.
     case find_state key d of
       None \<Rightarrow> (Inl Driver, d)
     | Some r \<Rightarrow>
         let upd = (\<lambda>r. r\<lparr>fr_state := st, fr_version := fr_version r + 1, fr_updatedAt := fd_now d, fr_updatedBy := by'\<rparr>)
         in (Inr (upd r), d\<lparr>fd_states := update_where (\<lambda>r. fr_key r = key) upd (fd_states d)\<rparr>))"

definition insertHistory :: "'j history_row \<Rightarrow> ('j, unit) fl" where
  "insertHistory h = stmt (\<lambda>d. (Inr (), d\<lparr>fd_history := fd_history d @ [h\<lparr>fh_id := fd_nextID d, fh_changedAt := fd_now d\<rparr>],
     fd_nextID := fd_nextID d + 1\<rparr>))"

definition notify :: "string \<Rightarrow> ('j, unit) fl" where
  "notify key = stmt (\<lambda>d. (Inr (), d\<lparr>fd_notified := fd_notified d @ [key]\<rparr>))"

definition selectHistory :: "string \<Rightarrow> int \<Rightarrow> int \<Rightarrow> ('j, 'j history_row list) fl" where
  "selectHistory key before limit = query (\<lambda>d. Inr (take (nat limit)
     (rev (sort_key fh_id (filter (\<lambda>h. fh_key h = key \<and> (before = 0 \<or> fh_id h < before)) (fd_history d))))))"

section \<open>The store\<close>

definition decodeRow :: "'j state_json \<Rightarrow> 'j state_row \<Rightarrow> stored" where
  "decodeRow js row =
     (let st = \<lparr>sd_state = None, sd_version = fr_version row, sd_updatedAt = fr_updatedAt row, sd_updatedBy = fr_updatedBy row,
                sd_invalid = False\<rparr> in
      case fr_state row of
        None \<Rightarrow> st
      | Some raw \<Rightarrow> (case decodeState js raw of None \<Rightarrow> st\<lparr>sd_invalid := True\<rparr> | Some s \<Rightarrow> st\<lparr>sd_state := Some (compile s)\<rparr>))"

definition load_rows :: "'j state_json \<Rightarrow> Registry \<Rightarrow> 'j state_row list \<Rightarrow> string \<rightharpoonup> stored" where
  "load_rows js r rows = map_of (rev (map (\<lambda>row. (fr_key row, decodeRow js row)) (filter (\<lambda>row. r_defs r (fr_key row) \<noteq> None) rows)))"

definition Reload :: "'j state_json \<Rightarrow> ('j, unit) fl" where
  "Reload js =
     bindC (query (\<lambda>d. Inr (fd_states d))) (\<lambda>rows.
     extC (\<lambda>x. let r = in_reg x in
       x\<lparr>in_reg := replaceAll (load_rows js r rows) (map fr_key (filter (\<lambda>row. r_defs r (fr_key row) = None) rows)) r\<rparr>))"

definition reloadKey :: "'j state_json \<Rightarrow> string \<Rightarrow> ('j, unit) fl" where
  "reloadKey js key =
     bindC getC (\<lambda>x. if r_defs (in_reg x) key = None then retC ()
       else bindC (selectState key) (\<lambda>(row, found). if \<not> found then retC ()
         else extC (\<lambda>x. x\<lparr>in_reg := flag_apply key (decodeRow js row) (in_reg x)\<rparr>)))"

record View =
  v_Key :: string
  v_Group :: string
  v_Description :: string
  v_Client :: bool
  v_State :: State
  v_Default :: State
  v_Modified :: bool
  v_InvalidStoredValue :: bool
  v_Version :: int
  v_UpdatedAt :: time
  v_UpdatedBy :: string

definition view :: "Registry \<Rightarrow> definition_rec \<Rightarrow> View" where
  "view r d =
     (let v = \<lparr>v_Key = d_key d, v_Group = (if d_group d = [] then fst (cut_at CHR ''.'' (d_key d)) else d_group d),
               v_Description = d_description d, v_Client = d_client d, v_State = c_state (d_declared d),
               v_Default = c_state (d_declared d), v_Modified = False, v_InvalidStoredValue = False, v_Version = 0,
               v_UpdatedAt = 0, v_UpdatedBy = []\<rparr> in
      case live_stored r (d_key d) of
        None \<Rightarrow> v
      | Some st \<Rightarrow>
          let v = v\<lparr>v_Version := sd_version st, v_UpdatedAt := sd_updatedAt st, v_UpdatedBy := sd_updatedBy st,
                    v_InvalidStoredValue := sd_invalid st\<rparr> in
          case sd_state st of None \<Rightarrow> v | Some c \<Rightarrow> v\<lparr>v_State := c_state c, v_Modified := True\<rparr>)"

definition List_views :: "Registry \<Rightarrow> View list" where
  "List_views r = map (view r) (definitions r)"

definition Get_view :: "Registry \<Rightarrow> string \<Rightarrow> flag_error + View" where
  "Get_view r key = (case r_defs r key of None \<Rightarrow> Inl ErrUnknownFlag | Some d \<Rightarrow> Inr (view r d))"

definition ClientFlags :: "(string \<Rightarrow> string) \<Rightarrow> Registry \<Rightarrow> ctx \<Rightarrow> Evaluation list" where
  "ClientFlags sha r c = map (evaluate sha r c) (filter d_client (definitions r))"

record Change =
  ch_Version :: int
  ch_Reason :: string

definition sameState :: "'j state_json \<Rightarrow> 'j option \<Rightarrow> 'j option \<Rightarrow> bool" where
  "sameState js a b =
     (case (a, b) of
        (Some ja, Some jb) \<Rightarrow> decodeState js ja \<noteq> None \<and> decodeState js ja = decodeState js jb
      | _ \<Rightarrow> a = None \<and> b = None)"

definition write_tx :: "'j state_json \<Rightarrow> ctx \<Rightarrow> Actor \<Rightarrow> string \<Rightarrow> 'j option \<Rightarrow> int \<Rightarrow> string \<Rightarrow> ('j, 'j state_row \<times> bool) fl" where
  "write_tx js c a key newRaw version reason =
     bindC (selectState key) (\<lambda>(current, _).
     if version \<noteq> fr_version current then failC (Err ErrVersionConflict)
     else if sameState js (fr_state current) newRaw then retC (current, False)
     else
       bindC (if fr_version current = 0 then insertState key newRaw (a_ID a) else updateState key newRaw (a_ID a)) (\<lambda>result.
       bindC (insertHistory \<lparr>fh_id = 0, fh_key = key, fh_oldState = fr_state current, fh_newState = newRaw,
                fh_version = fr_version result, fh_reason = reason, fh_actorKind = a_Kind a, fh_actorID = a_ID a,
                fh_requestID = ctx_request_id c, fh_changedAt = 0\<rparr>) (\<lambda>_.
       bindC (notify key) (\<lambda>_. retC (result, True)))))"

definition change_event :: "string \<Rightarrow> int \<Rightarrow> State option \<Rightarrow> string \<Rightarrow> Event" where
  "change_event key version state reason =
     (let e = zero_Event\<lparr>e_ResourceType := ''flag'', e_ResourceID := key, e_Outcome := OutcomeSuccess\<rparr>;
          base = [(''version'', MInt version), (''reason'', MStr reason)] in
      case state of
        None \<Rightarrow> e\<lparr>e_Action := ''flags.flag.reset'', e_Metadata := base\<rparr>
      | Some s \<Rightarrow> e\<lparr>e_Action := ''flags.flag.changed'', e_Metadata := base @
          [(''enabled'', MBool (fs_Enabled s)), (''default'', MBool (fs_Default s)),
           (''org_targets'', MInt (int (length (t_Allow (fs_Orgs s)) + length (t_Deny (fs_Orgs s))))),
           (''user_targets'', MInt (int (length (t_Allow (fs_Users s)) + length (t_Deny (fs_Users s)))))] @
          (case fs_Percentage s of None \<Rightarrow> [] | Some p \<Rightarrow> [(''percentage'', MInt p)])\<rparr>)"

definition save_error :: "flag_error goerr \<Rightarrow> flag_error goerr" where
  "save_error e = (if errors_is e ErrVersionConflict then e else Driver)"

definition flag_write :: "'j state_json \<Rightarrow> ctx \<Rightarrow> definition_rec \<Rightarrow> State option \<Rightarrow> Change \<Rightarrow> ('j, View) fl" where
  "flag_write js c d state change =
     (case From c of
        None \<Rightarrow> failC (Err ErrActorRequired)
      | Some a \<Rightarrow>
          if a_Kind a = KindAnonymous \<or> a_ID a = [] then failC (Err ErrActorRequired)
          else
            let reason = TrimSpace (ch_Reason change); newRaw = map_option (encodeState js) state in
            if reason = [] then failC (Err ErrReasonRequired)
            else
              bindC (mapErrC save_error (BeginFunc (write_tx js c a (d_key d) newRaw (ch_Version change) reason))) (\<lambda>(result, changed).
              bindC (if changed
                     then extC (\<lambda>x. x\<lparr>in_reg := flag_apply (d_key d) (decodeRow js result) (in_reg x),
                            in_events := in_events x @ [(c, change_event (d_key d) (fr_version result) state reason)]\<rparr>)
                     else retC ()) (\<lambda>_.
              bindC getC (\<lambda>x. retC (view (in_reg x) d)))))"

definition Set :: "'j state_json \<Rightarrow> ctx \<Rightarrow> string \<Rightarrow> State \<Rightarrow> Change \<Rightarrow> ('j, View) fl" where
  "Set js c key state change =
     bindC getC (\<lambda>x. case r_defs (in_reg x) key of
         None \<Rightarrow> failC (Err ErrUnknownFlag)
       | Some d \<Rightarrow>
           let state = normalize state in
           case validate state of
             Some e \<Rightarrow> failC (Err (ErrInvalidState key e))
           | None \<Rightarrow> flag_write js c d (Some state) change)"

definition flag_Reset :: "'j state_json \<Rightarrow> ctx \<Rightarrow> string \<Rightarrow> Change \<Rightarrow> ('j, View) fl" where
  "flag_Reset js c key change =
     bindC getC (\<lambda>x. case r_defs (in_reg x) key of
         None \<Rightarrow> failC (Err ErrUnknownFlag)
       | Some d \<Rightarrow> flag_write js c d None change)"

definition historyState :: "'j state_json \<Rightarrow> 'j option \<Rightarrow> State option \<times> bool" where
  "historyState js raw =
     (case raw of None \<Rightarrow> (None, False)
      | Some j \<Rightarrow> (case decodeState js j of None \<Rightarrow> (None, True) | Some s \<Rightarrow> (Some s, False)))"

definition History :: "'j state_json \<Rightarrow> string \<Rightarrow> int \<Rightarrow> int \<Rightarrow>
    ('j, ('j history_row \<times> (State option \<times> bool) \<times> (State option \<times> bool)) list) fl" where
  "History js key before limit =
     bindC getC (\<lambda>x. if r_defs (in_reg x) key = None then failC (Err ErrUnknownFlag)
       else bindC (selectHistory key before (min (max limit 1) 100)) (\<lambda>rows.
         retC (map (\<lambda>h. (h, historyState js (fh_oldState h), historyState js (fh_newState h))) rows)))"

definition DeleteHistoryBefore :: "time \<Rightarrow> int \<Rightarrow> ('j, nat) fl" where
  "DeleteHistoryBefore before limit =
     (if limit < 1 then failC (Err ErrDeleteLimit)
      else stmt (\<lambda>d. let gone = take (nat limit) (sort_key fh_id (filter (\<lambda>h. fh_changedAt h < before) (fd_history d))) in
        (Inr (length gone), d\<lparr>fd_history := filter (\<lambda>h. fh_id h \<notin> fh_id ` set gone) (fd_history d)\<rparr>)))"

definition OldestHistory :: "('j, time option) fl" where
  "OldestHistory = query (\<lambda>d. Inr (if fd_history d = [] then None else Some (Min (set (map fh_changedAt (fd_history d))))))"

end
