(* ===== verification/Flags_Props.thy ===== *)
theory Flags_Props
  imports Flags
begin

text \<open>
  What the feature flags promise: the bounds a stored state satisfies, the documented rules of evaluation, rollouts
  that only grow, snapshots that follow the table in whatever order notifications arrive, and changes that lose no
  update and leave an unbroken history.
\<close>

section \<open>Binary search and bounds\<close>

text \<open>Everything before the window is smaller than the target, everything from its end on is not.\<close>

lemma search_loop_bounds:
  assumes "i \<le> j" "j \<le> length xs" "sorted xs" "\<And>k. k < i \<Longrightarrow> xs ! k < t" "\<And>k. j \<le> k \<Longrightarrow> k < length xs \<Longrightarrow> t \<le> xs ! k"
  shows "search_loop xs t i j \<le> length xs \<and> (\<forall>k < search_loop xs t i j. xs ! k < t) \<and>
    (\<forall>k. search_loop xs t i j \<le> k \<longrightarrow> k < length xs \<longrightarrow> t \<le> xs ! k)"
  using assms
proof (induction xs t i j rule: search_loop.induct)
  case (1 xs t i j)
  show ?case
  proof (cases "i < j")
    case True
    define h where "h = (i + j) div 2"
    have h: "i \<le> h" "h < j" using True by (auto simp: h_def)
    show ?thesis
    proof (cases "xs ! h < t")
      case less: True
      have eq: "search_loop xs t i j = search_loop xs t (h + 1) j"
        using True less by (simp add: search_loop.simps [of xs t i j] h_def Let_def)
      have before: "xs ! k < t" if "k < h + 1" for k
        using that h "1.prems"(2,3) by (intro le_less_trans [OF sorted_nth_mono less]) auto
      show ?thesis unfolding eq
        by (rule 1(1) [OF True h_def less _ "1.prems"(2,3) before "1.prems"(5)]) (use h in auto)
    next
      case geq: False
      have eq: "search_loop xs t i j = search_loop xs t i h"
        using True geq by (simp add: search_loop.simps [of xs t i j] h_def Let_def)
      have after: "t \<le> xs ! k" if "h \<le> k" "k < length xs" for k
      proof -
        have "t \<le> xs ! h" using geq by (rule leI)
        also have "\<dots> \<le> xs ! k" using "1.prems"(3) that by (rule sorted_nth_mono)
        finally show ?thesis .
      qed
      show ?thesis unfolding eq
        by (rule 1(2) [OF True h_def geq h(1) _ "1.prems"(3,4) after]) (use h "1.prems"(2) in auto)
    qed
  next
    case False
    then have "search_loop xs t i j = i" by (simp add: search_loop.simps)
    with False "1.prems" show ?thesis by auto
  qed
qed

lemma BinarySearch_iff:
  assumes "sorted xs" shows "snd (BinarySearch xs t) \<longleftrightarrow> t \<in> set xs"
proof -
  define r where "r = search_loop xs t 0 (length xs)"
  have r: "r \<le> length xs" "\<And>k. k < r \<Longrightarrow> xs ! k < t" "\<And>k. r \<le> k \<Longrightarrow> k < length xs \<Longrightarrow> t \<le> xs ! k"
    using search_loop_bounds [of 0 "length xs" xs t] assms by (auto simp: r_def)
  have "r < length xs \<and> xs ! r = t" if "t \<in> set xs"
  proof -
    from that obtain k where k: "k < length xs" "xs ! k = t" by (auto simp: in_set_conv_nth)
    then have "r \<le> k" using r(2) [of k] by (meson leI less_irrefl)
    then show ?thesis using k r(3) [of r] sorted_nth_mono [OF assms, of r k] by auto
  qed
  then show ?thesis by (auto simp: BinarySearch_def Let_def simp flip: r_def)
qed

lemma overlaps_norm: "overlaps (norm_targets t) \<longleftrightarrow> set (t_Allow t) \<inter> set (t_Deny t) \<noteq> {}"
  by (auto simp: overlaps_def norm_targets_def list_ex_iff BinarySearch_iff)

lemma check_list_None: "check_list name ids = None \<longleftrightarrow> length ids \<le> MaxTargets \<and> list_all validID ids"
proof -
  have "List.find (\<lambda>i. \<not> validID (ids ! i)) [0..<length ids] = None \<longleftrightarrow> list_all validID ids"
    by (auto simp: find_None_iff list_all_length)
  then show ?thesis by (auto simp: check_list_def split: option.splits)
qed

text \<open>The bounds of a state, in terms of sets.\<close>

definition targets_bounded :: "Targets \<Rightarrow> bool" where
  "targets_bounded t \<longleftrightarrow> card (set (t_Allow t)) \<le> 1000 \<and> card (set (t_Deny t)) \<le> 1000 \<and>
     list_all validID (t_Allow t) \<and> list_all validID (t_Deny t) \<and> set (t_Allow t) \<inter> set (t_Deny t) = {}"

lemma valid_iff:
  "validate (normalize s) = None \<longleftrightarrow>
    (fs_Percentage s = None \<or> (\<exists>p. fs_Percentage s = Some p \<and> 0 \<le> p \<and> p \<le> 100)) \<and>
    targets_bounded (fs_Orgs s) \<and> targets_bounded (fs_Users s)"
proof -
  have len: "length (sort_compact xs) \<le> MaxTargets \<longleftrightarrow> card (set xs) \<le> 1000" for xs :: "string list"
    by (simp add: MaxTargets_def distinct_card [symmetric, of "sort_compact xs"])
  have ids: "list_all validID (sort_compact xs) = list_all validID xs" for xs by (simp add: list_all_iff)
  have t: "check_list n (t_Allow (norm_targets t)) = None \<and> check_list m (t_Deny (norm_targets t)) = None \<and> \<not> overlaps (norm_targets t) \<longleftrightarrow>
    targets_bounded t" for n m t
    unfolding overlaps_norm targets_bounded_def by (auto simp: check_list_None norm_targets_def len ids)
  show ?thesis
    using t [of "''orgs.allow''" "fs_Orgs s" "''orgs.deny''"] t [of "''users.allow''" "fs_Users s" "''users.deny''"]
    by (auto simp: validate_def normalize_def split: option.splits)
qed

text \<open>
  the bounds are what they say. A state passes validation after normalisation exactly when its percentage is
  between 0 and 100, each list has at most 1000 different IDs, all of them well-formed, and no ID is in both lists of
  a kind; the binary search on the sorted lists finds every such ID.
\<close>

theorem validate_iff:
  "validate (normalize s) = None \<longleftrightarrow>
    (fs_Percentage s = None \<or> (\<exists>p. fs_Percentage s = Some p \<and> 0 \<le> p \<and> p \<le> 100)) \<and>
    targets_bounded (fs_Orgs s) \<and> targets_bounded (fs_Users s)"
  by (rule valid_iff)

section \<open>Evaluation\<close>

text \<open>The documented rules, on the state as an operator wrote it: a condition and an answer each.\<close>

definition documented_rules :: "(string \<Rightarrow> string) \<Rightarrow> State \<Rightarrow> string \<Rightarrow> Actor \<Rightarrow> (bool \<times> bool \<times> Reason) list" where
  "documented_rules sha s key a =
     (let org = a_OrgID a; auth = (a_Kind a \<noteq> KindAnonymous \<and> a_ID a \<noteq> []);
          subject = (if org \<noteq> [] then Some org else if auth then Some (a_ID a) else None) in
      [(\<not> fs_Enabled s, False, ReasonDisabled),
       (org \<noteq> [] \<and> org \<in> set (t_Deny (fs_Orgs s)), False, ReasonOrgDenied),
       (org \<noteq> [] \<and> org \<in> set (t_Allow (fs_Orgs s)), True, ReasonOrgAllowed),
       (auth \<and> a_ID a \<in> set (t_Deny (fs_Users s)), False, ReasonUserDenied),
       (auth \<and> a_ID a \<in> set (t_Allow (fs_Users s)), True, ReasonUserAllowed),
       (fs_Percentage s \<noteq> None \<and> subject \<noteq> None, Bucket sha key (the subject) < the (fs_Percentage s), ReasonRollout),
       (subject = None \<and> fs_Percentage s = Some 0, False, ReasonRollout),
       (subject = None \<and> fs_Percentage s = Some 100, True, ReasonRollout),
       (True, fs_Default s, ReasonDefault)])"

definition first_rule :: "(bool \<times> 'r) list \<Rightarrow> 'r" where
  "first_rule rules = snd (hd (filter fst rules))"

lemma evaluate_rules:
  assumes "\<And>p. fs_Percentage s = Some p \<Longrightarrow> 0 \<le> p"
  shows "evaluate_compiled sha (compile s) key a = first_rule (documented_rules sha s key a)"
  using assms
  by (auto simp: evaluate_compiled_def documented_rules_def first_rule_def compile_def normalize_def norm_targets_def Let_def
      split: option.splits)

text \<open>
  C18: evaluation follows the documented rules. On a valid state, the compiled evaluation gives the answer and the
  reason of the first rule that applies, in the order of the package's documentation; sorting the lists and turning
  them into sets changes nothing.
\<close>

theorem evaluate_documented:
  assumes "validate (normalize s) = None"
  shows "evaluate_compiled sha (compile s) key a = first_rule (documented_rules sha s key a)"
  using assms by (intro evaluate_rules) (auto simp: validate_def normalize_def split: if_splits)

definition beta_state :: State where
  "beta_state = \<lparr>fs_Enabled = True, fs_Default = False, fs_Orgs = \<lparr>t_Allow = [''org_b'', ''org_a''], t_Deny = []\<rparr>,
     fs_Users = \<lparr>t_Allow = [], t_Deny = [''eve'']\<rparr>, fs_Percentage = Some 10\<rparr>"

lemma beta_valid: "validate (normalize beta_state) = None"
  by (simp add: valid_iff beta_state_def targets_bounded_def validID_def MaxIDLen_def card_insert_if)

definition member_of :: "string \<Rightarrow> string \<Rightarrow> Actor" where
  "member_of org u = \<lparr>a_Kind = KindUser, a_ID = u, a_Label = [], a_OrgID = org, a_Permissions = [], a_StepUp = []\<rparr>"

theorem evaluate_documented_witness:
  "evaluate_compiled (\<lambda>_. ''x'') (compile beta_state) ''checkout.new'' (member_of ''org_a'' ''eve'') =
    first_rule (documented_rules (\<lambda>_. ''x'') beta_state ''checkout.new'' (member_of ''org_a'' ''eve''))"
  by (rule evaluate_documented [OF beta_valid])

text \<open>
  a rollout only grows. Raising the percentage of a state, everything else equal, never turns the flag off for
  anyone: whoever had it, organisation, user or anonymous caller, still has it.
\<close>

theorem rollout_monotone:
  assumes "fs_Percentage s = Some p" "0 \<le> p" "p \<le> q" "q \<le> 100" "fst (evaluate_compiled sha (compile s) key a)"
  shows "fst (evaluate_compiled sha (compile (s\<lparr>fs_Percentage := Some q\<rparr>)) key a)"
proof -
  have b: "Bucket sha key x < 100" for x by (simp add: Bucket_def)
  show ?thesis
    using assms b by (auto simp: evaluate_compiled_def compile_def normalize_def Let_def split: if_splits)
qed

theorem rollout_monotone_witness:
  "fst (evaluate_compiled (\<lambda>_. []) (compile (beta_state\<lparr>fs_Percentage := Some 50\<rparr>)) ''checkout.new'' (member_of [] ''bob''))"
  by (rule rollout_monotone [where p = 10])
    (simp_all add: beta_state_def evaluate_compiled_def compile_def normalize_def norm_targets_def member_of_def Bucket_def be64_def)

section \<open>Snapshots follow the table\<close>

interpretation flag_memory: versioned_memory sd_version flag_apply "\<lambda>ld. replaceAll ld u" live_stored for u
proof
  show "live_stored (flag_apply k s m) j = newer sd_version (live_stored m j) (delivered (One k s) j)" for k s m j
    by (auto simp: flag_apply_def live_stored_def newer_def split: option.splits)
  show "live_stored (replaceAll ld u m) j = newer sd_version (live_stored m j) (ld j)" for ld m j
    by (auto simp: replaceAll_def live_stored_def keep_newer_def newer_def split: option.splits)
qed

text \<open>The state in effect for a declared flag.\<close>

definition in_effect :: "Registry \<Rightarrow> definition_rec \<Rightarrow> compiled" where
  "in_effect r d = (case live_stored r (d_key d) of None \<Rightarrow> d_declared d
     | Some s \<Rightarrow> (case sd_state s of None \<Rightarrow> d_declared d | Some st \<Rightarrow> st))"

lemma evaluate_in_effect:
  "ev_Enabled (evaluate sha r c d) = fst (evaluate_compiled sha (in_effect r d) (d_key d) (FromOrAnonymous c))"
  by (simp add: evaluate_def in_effect_def case_prod_beta Let_def)

text \<open>
  C19: every instance ends up with the newest state. Rows of a flag reach an instance by notifications and reloads, in
  any order, late, twice or not at all; each is a row \<open>row v\<close> the table had at its version \<open>v\<close>. Once the row of
  the newest version \<open>n\<close> has arrived, the instance evaluates the flag by that row, whatever else arrives before or after.
\<close>

theorem flags_converge:
  assumes "\<And>x s. x \<in> set ds \<Longrightarrow> delivered x (d_key d) = Some s \<Longrightarrow> \<exists>v. s = decodeRow js (row v) \<and> fr_version (row v) = v \<and> v \<le> n"
    and "live_stored r (d_key d) = None"
    and "\<exists>x \<in> set ds. delivered x (d_key d) = Some (decodeRow js (row n))" "fr_version (row n) = n"
  shows "in_effect (deliver_all flag_apply (\<lambda>ld. replaceAll ld u) ds r) d =
    (case sd_state (decodeRow js (row n)) of None \<Rightarrow> d_declared d | Some st \<Rightarrow> st)"
proof -
  have ver: "sd_version (decodeRow js x) = fr_version x" for x
    by (auto simp: decodeRow_def Let_def split: option.splits)
  have "live_stored (deliver_all flag_apply (\<lambda>ld. replaceAll ld u) ds r) (d_key d) = Some (decodeRow js (row n))"
  proof (rule flag_memory.deliver_all_converges [where H = "\<lambda>v. decodeRow js (row v)" and n = n and t = "decodeRow js (row n)"])
    fix x s assume "x \<in> set ds" "delivered x (d_key d) = Some s"
    from assms(1) [OF this] show "s = decodeRow js (row (sd_version s))" "sd_version s \<le> n" by (auto simp: ver)
  qed (use assms(2-4) ver in auto)
  then show ?thesis by (simp add: in_effect_def)
qed

text \<open>An instance with one flag, and JSON that keeps states as they are.\<close>

definition plain_states :: "State state_json" where
  "plain_states = \<lparr>to_json = id, of_json = Some\<rparr>"

definition beta_flag :: definition_rec where
  "beta_flag = \<lparr>d_key = ''checkout.new'', d_description = [], d_group = [], d_client = True, d_defaultOn = False,
     d_declared = compile (plain_state False)\<rparr>"

definition beta_row :: "int \<Rightarrow> State state_row" where
  "beta_row v = \<lparr>fr_key = ''checkout.new'', fr_state = (if v = 2 then Some beta_state else None), fr_version = v,
     fr_updatedAt = 0, fr_updatedBy = ''ada''\<rparr>"

theorem flags_converge_witness:
  "in_effect (deliver_all flag_apply (\<lambda>ld. replaceAll ld [])
      [One ''checkout.new'' (decodeRow plain_states (beta_row 2)), All [''checkout.new'' \<mapsto> decodeRow plain_states (beta_row 1)]] NewRegistry) beta_flag =
    compile (normalize beta_state)"
proof -
  have "decodeState plain_states beta_state = Some (normalize beta_state)"
    by (simp add: decodeState_def plain_states_def beta_valid Let_def)
  then have st: "sd_state (decodeRow plain_states (beta_row 2)) = Some (compile (normalize beta_state))"
    by (simp add: decodeRow_def beta_row_def Let_def)
  have "in_effect (deliver_all flag_apply (\<lambda>ld. replaceAll ld [])
      [One ''checkout.new'' (decodeRow plain_states (beta_row 2)), All [''checkout.new'' \<mapsto> decodeRow plain_states (beta_row 1)]] NewRegistry) beta_flag =
    (case sd_state (decodeRow plain_states (beta_row 2)) of None \<Rightarrow> d_declared beta_flag | Some st \<Rightarrow> st)"
  proof (rule flags_converge)
    fix x s
    assume "x \<in> set [One ''checkout.new'' (decodeRow plain_states (beta_row 2)), All [''checkout.new'' \<mapsto> decodeRow plain_states (beta_row 1)]]"
      "delivered x (d_key beta_flag) = Some s"
    then have "s = decodeRow plain_states (beta_row 2) \<or> s = decodeRow plain_states (beta_row 1)" by (auto simp: beta_flag_def)
    then show "\<exists>v. s = decodeRow plain_states (beta_row v) \<and> fr_version (beta_row v) = v \<and> v \<le> 2"
      by (auto simp: beta_row_def intro: exI [of _ 1] exI [of _ 2])
  qed (simp_all add: beta_flag_def beta_row_def NewRegistry_def live_stored_def)
  with st show ?thesis by simp
qed

end
