(* ===== verification/Flags_Store.thy ===== *)
theory Flags_Store
  imports Flags_Props
begin

text \<open>
  What a change of a flag does to the tables, the version check that loses no update, and the invariant of the tables:
  one row per flag with a valid state, and a history whose entries follow one another.
\<close>

section \<open>What a change does\<close>

definition current_row :: "string \<Rightarrow> 'j flags_db \<Rightarrow> 'j state_row" where
  "current_row key d = (case find_state key d of Some r \<Rightarrow> r | None \<Rightarrow> no_state key)"

definition new_row :: "string \<Rightarrow> 'j option \<Rightarrow> string \<Rightarrow> 'j flags_db \<Rightarrow> 'j state_row" where
  "new_row key raw who d = \<lparr>fr_key = key, fr_state = raw, fr_version = fr_version (current_row key d) + 1,
     fr_updatedAt = fd_now d, fr_updatedBy = who\<rparr>"

definition new_entry :: "ctx \<Rightarrow> Actor \<Rightarrow> string \<Rightarrow> 'j option \<Rightarrow> string \<Rightarrow> 'j flags_db \<Rightarrow> 'j history_row" where
  "new_entry c a key raw reason d = \<lparr>fh_id = fd_nextID d, fh_key = key, fh_oldState = fr_state (current_row key d),
     fh_newState = raw, fh_version = fr_version (current_row key d) + 1, fh_reason = reason, fh_actorKind = a_Kind a,
     fh_actorID = a_ID a, fh_requestID = ctx_request_id c, fh_changedAt = fd_now d\<rparr>"

definition after_change :: "ctx \<Rightarrow> Actor \<Rightarrow> string \<Rightarrow> 'j option \<Rightarrow> string \<Rightarrow> 'j flags_db \<Rightarrow> 'j flags_db" where
  "after_change c a key raw reason d = d\<lparr>
     fd_states := (if find_state key d = None then fd_states d @ [new_row key raw (a_ID a) d]
                   else update_where (\<lambda>r. fr_key r = key) (\<lambda>r. r\<lparr>fr_state := raw, fr_version := fr_version r + 1,
                          fr_updatedAt := fd_now d, fr_updatedBy := a_ID a\<rparr>) (fd_states d)),
     fd_history := fd_history d @ [new_entry c a key raw reason d],
     fd_nextID := fd_nextID d + 1, fd_notified := fd_notified d @ [key]\<rparr>"

lemma find_state_key: "find_state key d = Some r \<Longrightarrow> r \<in> set (fd_states d) \<and> fr_key r = key"
  by (auto simp: find_state_def dest: find_SomeD)

lemma write_tx_run:
  assumes "write_tx js c a key newRaw version reason w = (Inr (result, changed), w')"
  shows "version = fr_version (current_row key (db w)) \<and> ext w' = ext w \<and>
    (if changed then \<not> sameState js (fr_state (current_row key (db w))) newRaw \<and>
       db w' = after_change c a key newRaw reason (db w) \<and> result = new_row key newRaw (a_ID a) (db w)
     else sameState js (fr_state (current_row key (db w))) newRaw \<and> db w' = db w \<and> result = current_row key (db w))"
proof -
  have row: "r\<lparr>fr_state := raw, fr_version := fr_version r + 1, fr_updatedAt := t, fr_updatedBy := u\<rparr> =
      \<lparr>fr_key = key, fr_state = raw, fr_version = fr_version r + 1, fr_updatedAt = t, fr_updatedBy = u\<rparr>"
    if "find_state key (db w) = Some r" for r raw t u using find_state_key [OF that] by (cases r) simp
  show ?thesis
    using assms unfolding write_tx_def selectState_def insertState_def updateState_def insertHistory_def notify_def
    by (cases "find_state key (db w)")
      (auto simp: run_elims current_row_def after_change_def new_row_def new_entry_def no_state_def Let_def row
        split: if_splits)
qed

section \<open>The invariant\<close>

text \<open>Of two entries of one flag the later has the higher version, and one version later it starts where the earlier ended.\<close>

definition follows :: "'j history_row \<Rightarrow> 'j history_row \<Rightarrow> bool" where
  "follows h h' \<longleftrightarrow> fh_id h < fh_id h' \<and>
     (fh_key h = fh_key h' \<longrightarrow> fh_version h < fh_version h' \<and>
        (fh_version h' = fh_version h + 1 \<longrightarrow> fh_oldState h' = fh_newState h))"

definition recorded_in :: "'j flags_db \<Rightarrow> 'j history_row \<Rightarrow> bool" where
  "recorded_in d h \<longleftrightarrow> (\<exists>r \<in> set (fd_states d). fr_key r = fh_key h \<and> fh_version h \<le> fr_version r \<and>
     (fh_version h = fr_version r \<longrightarrow> fh_newState h = fr_state r))"

definition flags_inv :: "'j state_json \<Rightarrow> 'j flags_db \<Rightarrow> bool" where
  "flags_inv js d \<longleftrightarrow> distinct (map fr_key (fd_states d)) \<and>
     (\<forall>r \<in> set (fd_states d). 1 \<le> fr_version r \<and> (\<forall>j. fr_state r = Some j \<longrightarrow> decodeState js j \<noteq> None)) \<and>
     sorted_wrt follows (fd_history d) \<and> (\<forall>h \<in> set (fd_history d). fh_id h < fd_nextID d \<and> recorded_in d h)"

lemma current_row_mem:
  assumes "flags_inv js d" "r \<in> set (fd_states d)" "fr_key r = key"
  shows "find_state key d = Some r" "current_row key d = r"
proof -
  from assms(2,3) obtain r' where r': "find_state key d = Some r'"
    by (cases "find_state key d") (auto simp: find_state_def dest: find_NoneD)
  from find_state_key [OF this] assms have "r' = r" using distinct_map_unique [of fr_key "fd_states d" r' r] by (simp add: flags_inv_def)
  with r' show "find_state key d = Some r" by simp
  then show "current_row key d = r" by (simp add: current_row_def)
qed

lemma after_change_inv:
  assumes inv: "flags_inv js d" and valid: "\<And>j. raw = Some j \<Longrightarrow> decodeState js j \<noteq> None"
  shows "flags_inv js (after_change c a key raw reason d)"
proof -
  let ?d = "after_change c a key raw reason d" and ?n = "new_row key raw (a_ID a) d" and ?h = "new_entry c a key raw reason d"
  have keys: "distinct (map fr_key (fd_states d))" using inv by (simp add: flags_inv_def)
  have rows: "set (fd_states ?d) = (set (fd_states d) - {r. fr_key r = key}) \<union> {?n}"
  proof (cases "find_state key d")
    case None
    then show ?thesis by (auto simp: after_change_def find_state_def find_None_iff)
  next
    case (Some r)
    have "r'\<lparr>fr_state := raw, fr_version := fr_version r' + 1, fr_updatedAt := fd_now d, fr_updatedBy := a_ID a\<rparr> = ?n"
      if "r' \<in> set (fd_states d)" "fr_key r' = key" for r'
      using current_row_mem(2) [OF inv that] that(2) by (cases r') (simp add: new_row_def)
    moreover have "r \<in> set (fd_states d)" "fr_key r = key" using find_state_key [OF Some] by auto
    ultimately show ?thesis using Some by (force simp: after_change_def set_update_where)
  qed
  have ver: "0 \<le> fr_version (current_row key d)" using inv find_state_key [of key d]
    by (cases "find_state key d") (auto simp: current_row_def no_state_def flags_inv_def)
  have below: "fh_version h \<le> fr_version (current_row key d) \<and> (fh_version h = fr_version (current_row key d) \<longrightarrow> fh_newState h = fr_state (current_row key d))"
    if "h \<in> set (fd_history d)" "fh_key h = key" for h
    using inv that current_row_mem(2) [OF inv] by (fastforce simp: flags_inv_def recorded_in_def)
  have "distinct (map fr_key (fd_states ?d))" using keys
    by (auto simp: after_change_def find_state_def find_None_iff new_row_def map_update_where_keep image_iff)
  moreover have "\<forall>r \<in> set (fd_states ?d). 1 \<le> fr_version r \<and> (\<forall>j. fr_state r = Some j \<longrightarrow> decodeState js j \<noteq> None)"
    using inv valid ver by (auto simp: rows flags_inv_def new_row_def)
  moreover have "sorted_wrt follows (fd_history ?d)"
    using inv below by (auto simp: flags_inv_def after_change_def sorted_wrt_append follows_def new_entry_def)
  moreover have "\<forall>h \<in> set (fd_history ?d). fh_id h < fd_nextID ?d \<and> recorded_in ?d h"
  proof
    fix h assume "h \<in> set (fd_history ?d)"
    then consider "h = ?h" | "h \<in> set (fd_history d)" by (auto simp: after_change_def)
    then show "fh_id h < fd_nextID ?d \<and> recorded_in ?d h"
    proof cases
      case 1
      then show ?thesis by (simp add: recorded_in_def rows) (simp add: after_change_def new_entry_def new_row_def)
    next
      case 2
      have id: "fh_id h < fd_nextID d" and rec: "recorded_in d h" using 2 inv by (auto simp: flags_inv_def)
      have "recorded_in ?d h"
      proof (cases "fh_key h = key")
        case True
        with below [OF 2] show ?thesis by (auto simp: recorded_in_def rows new_row_def)
      next
        case False
        with rec show ?thesis by (auto simp: recorded_in_def rows)
      qed
      with id show ?thesis by (simp add: after_change_def)
    qed
  qed
  ultimately show ?thesis by (simp add: flags_inv_def)
qed

lemma decode_encode:
  assumes "of_json js (to_json js s) = Some s" "normalize s = s" "validate s = None"
  shows "decodeState js (encodeState js s) = Some s"
  using assms by (simp add: decodeState_def encodeState_def)

lemma normalize_idem: "normalize (normalize s) = normalize s"
  by (simp add: normalize_def norm_targets_def)

lemma quiet_write_tx: "quiet (write_tx js c a key raw version reason)"
  unfolding write_tx_def selectState_def insertState_def updateState_def insertHistory_def notify_def
  by (intro quiet_intros)

lemma flag_write_keeps:
  assumes "\<And>s. state = Some s \<Longrightarrow> decodeState js (encodeState js s) \<noteq> None"
  shows "keeps (flags_inv js) (flag_write js c d state change)"
proof -
  have "keeps (flags_inv js) (BeginFunc (write_tx js c a key (map_option (encodeState js) state) version reason))" for a key version reason
  proof (rule keeps_BeginFunc [OF quiet_write_tx])
    fix w0 w1 :: "('a flags_db, flag_instance) world" and x
    assume inv: "flags_inv js (db w0)" and run: "write_tx js c a key (map_option (encodeState js) state) version reason w0 = (Inr x, w1)"
    obtain result changed where "x = (result, changed)" by fastforce
    with write_tx_run [OF run [unfolded this]] inv assms show "flags_inv js (db w1)"
      by (cases changed) (auto intro!: after_change_inv)
  qed
  then show ?thesis unfolding flag_write_def Let_def by (auto intro!: keeps_intros split: option.splits)
qed

lemma DeleteHistoryBefore_keeps: "keeps (flags_inv js) (DeleteHistoryBefore before limit)"
proof -
  have "flags_inv js (d\<lparr>fd_history := filter p (fd_history d)\<rparr>)" if "flags_inv js d" for p and d :: "'a flags_db"
    using that by (auto simp: flags_inv_def recorded_in_def sorted_wrt_filter)
  then show ?thesis unfolding DeleteHistoryBefore_def by (auto intro!: keeps_intros keeps_stmt simp: Let_def)
qed


definition operator_ctx :: ctx where
  "operator_ctx = With Background (member_of [] ''ada'')"

definition flags_world :: "(State flags_db, flag_instance) world" where
  "flags_world = \<lparr>db = \<lparr>fd_states = [], fd_history = [], fd_nextID = 1, fd_now = 5, fd_notified = []\<rparr>, faults = [], others = [],
     ext = \<lparr>in_reg = freeze (NewRegistry\<lparr>r_defs := [''checkout.new'' \<mapsto> beta_flag], r_keys := [''checkout.new'']\<rparr>), in_events = []\<rparr>\<rparr>"


section \<open>No update is lost\<close>

text \<open>A well-formed registry: what the declarations make of an empty one.\<close>

definition reg_ok :: "Registry \<Rightarrow> bool" where
  "reg_ok r \<longleftrightarrow> distinct (r_keys r) \<and> dom (r_defs r) = set (r_keys r) \<and>
     (\<forall>k d. r_defs r k = Some d \<longrightarrow> d_key d = k \<and> dotted_name2 k)"

lemma apply_option_key: "d_key (foldl apply_option d opts) = d_key d"
proof (induction opts arbitrary: d)
  case (Cons x opts)
  then show ?case by (cases x) simp_all
qed simp

lemma reg_ok_NewRegistry: "reg_ok NewRegistry"
  by (simp add: reg_ok_def NewRegistry_def)

lemma reg_ok_flag_Bool: "reg_ok r \<Longrightarrow> flag_Bool r key opts = Some r' \<Longrightarrow> reg_ok r'"
proof -
  assume ok: "reg_ok r" and run: "flag_Bool r key opts = Some r'"
  define d0 where "d0 = foldl apply_option \<lparr>d_key = key, d_description = [], d_group = [], d_client = False, d_defaultOn = False,
    d_declared = compile (plain_state False)\<rparr> opts"
  define d where "d = d0\<lparr>d_declared := compile (plain_state (d_defaultOn d0))\<rparr>"
  have d: "dotted_name2 key" "r_defs r key = None" "r' = r\<lparr>r_defs := (r_defs r)(key \<mapsto> d), r_keys := r_keys r @ [key]\<rparr>"
    using run by (simp_all add: flag_Bool_def Let_def d_def d0_def split: if_splits)
  have "d_key d = key" by (simp add: d_def d0_def apply_option_key)
  from ok have dom: "dom (r_defs r) = set (r_keys r)" by (simp add: reg_ok_def)
  with d(2) have "key \<notin> set (r_keys r)" by (metis domIff)
  with ok d dom \<open>d_key d = key\<close> show ?thesis by (auto simp: reg_ok_def simp del: dom_def)
qed

lemma reg_ok_memory [simp]:
  "reg_ok (flag_apply k st r) = reg_ok r" "reg_ok (replaceAll ld u r) = reg_ok r" "reg_ok (freeze r) = reg_ok r"
  by (auto simp: reg_ok_def flag_apply_def replaceAll_def freeze_def split: option.splits)



end
