(* ===== verification/Ratelimit.thy ===== *)
theory Ratelimit
  imports Prelude "HOL-Library.AList"
begin

text \<open>
  Rate limiting: the in-memory limiter and the HTTP middleware (\<open>ratelimit/ratelimit.go\<close>) and the
  limiter shared through PostgreSQL (\<open>modules/ratelimitpg\<close>), which decides with GCRA, the generic
  cell rate algorithm.

  The \<open>Taker\<close> interface is the locale \<open>taker\<close>; the middleware is proved against it and both
  limiters interpret it. Two things are parameters: \<open>golang.org/x/time/rate\<close>, one token bucket
  (\<open>bucket_api\<close>), and float64 arithmetic (\<open>float_api\<close>).
\<close>

section \<open>Limits and decisions\<close>

text \<open>The operations of float64 the code uses: \<open>f > 0\<close>, \<open>float64(n) / d.Seconds()\<close> and
  \<open>time.Duration(float64(d) / f)\<close>.\<close>

record 'f float_api =
  fl_pos :: "'f \<Rightarrow> bool"
  fl_per :: "int \<Rightarrow> duration \<Rightarrow> 'f"
  fl_quot :: "duration \<Rightarrow> 'f \<Rightarrow> duration"

record 'f Limit =
  PerSecond :: 'f
  Burst :: int

definition Per :: "'f float_api \<Rightarrow> int \<Rightarrow> duration \<Rightarrow> 'f Limit" where
  "Per fl n window = \<lparr>PerSecond = fl_per fl n window, Burst = n\<rparr>"

definition Valid :: "'f float_api \<Rightarrow> 'f Limit \<Rightarrow> bool" where
  "Valid fl l = (fl_pos fl (PerSecond l) \<and> Burst l > 0)"

record Decision =
  Allowed :: bool
  RetryAfter :: duration

datatype ratelimit_error = ErrEmptyKey | ErrInvalidLimit

type_synonym 's take_op = "string \<Rightarrow> 's \<Rightarrow> (ratelimit_error + Decision) \<times> 's"

section \<open>The in-memory limiter\<close>

text \<open>
  A token bucket of \<open>golang.org/x/time/rate\<close>: a new bucket, \<open>ReserveN(now, 1)\<close> (whether the
  reservation is OK and its delay from now) and \<open>CancelAt\<close>.
\<close>

record ('f, 'b) bucket_api =
  bk_new :: "'f \<Rightarrow> int \<Rightarrow> 'b"
  bk_reserve :: "time \<Rightarrow> 'b \<Rightarrow> (bool \<times> duration) \<times> 'b"
  bk_cancel :: "time \<Rightarrow> 'b \<Rightarrow> 'b"

definition DefaultIdleTTL :: duration where "DefaultIdleTTL = 10 * minute"
definition DefaultMaxKeys :: int where "DefaultMaxKeys = 100000"
definition max_duration :: duration where "max_duration = 2 ^ 63 - 1"

definition int64 :: "int \<Rightarrow> int" where "int64 x = (x + 2 ^ 63) mod 2 ^ 64 - 2 ^ 63"

lemma int64_id: "0 \<le> x \<Longrightarrow> x \<le> max_duration \<Longrightarrow> int64 x = x"
  by (simp add: int64_def max_duration_def)

record 'b bucket =
  b_limiter :: 'b
  b_lastSeen :: time

text \<open>The map of buckets is an association list with distinct keys.\<close>

record ('f, 'b) Limiter =
  l_limit :: 'f
  l_burst :: int
  l_idleTTL :: duration
  l_maxKeys :: int
  l_buckets :: "(string \<times> 'b bucket) list"

definition New :: "'f \<Rightarrow> int \<Rightarrow> ('f, 'b) Limiter" where
  "New perSecond burst = \<lparr>l_limit = perSecond, l_burst = burst, l_idleTTL = DefaultIdleTTL,
     l_maxKeys = DefaultMaxKeys, l_buckets = []\<rparr>"

definition WithIdleTTL :: "duration \<Rightarrow> ('f, 'b) Limiter \<Rightarrow> ('f, 'b) Limiter" where
  "WithIdleTTL d l = l\<lparr>l_idleTTL := d\<rparr>"

definition WithMaxKeys :: "int \<Rightarrow> ('f, 'b) Limiter \<Rightarrow> ('f, 'b) Limiter" where
  "WithMaxKeys n l = l\<lparr>l_maxKeys := n\<rparr>"

definition evictIdle :: "time \<Rightarrow> ('f, 'b) Limiter \<Rightarrow> ('f, 'b) Limiter" where
  "evictIdle now l = l\<lparr>l_buckets := filter (\<lambda>(k, b). \<not> now - b_lastSeen b > l_idleTTL l) (l_buckets l)\<rparr>"

definition put_bucket :: "string \<Rightarrow> 'b bucket \<Rightarrow> ('f, 'b) Limiter \<Rightarrow> ('f, 'b) Limiter" where
  "put_bucket key b l = l\<lparr>l_buckets := AList.update key b (l_buckets l)\<rparr>"

text \<open>The part of \<open>Allow\<close> after the key's bucket is found or made.\<close>

definition allow_in :: "('f, 'b) bucket_api \<Rightarrow> time \<Rightarrow> string \<Rightarrow> 'b bucket \<Rightarrow> ('f, 'b) Limiter \<Rightarrow>
    (bool \<times> duration) \<times> ('f, 'b) Limiter" where
  "allow_in api now key b l =
     (let ((ok, delay), r) = bk_reserve api now (b_limiter b) in
      if \<not> ok then ((False, max_duration), put_bucket key \<lparr>b_limiter = r, b_lastSeen = now\<rparr> l)
      else if delay > 0
      then ((False, delay), put_bucket key \<lparr>b_limiter = bk_cancel api now r, b_lastSeen = now\<rparr> l)
      else ((True, 0), put_bucket key \<lparr>b_limiter = r, b_lastSeen = now\<rparr> l))"

definition Allow :: "('f, 'b) bucket_api \<Rightarrow> time \<Rightarrow> string \<Rightarrow> ('f, 'b) Limiter \<Rightarrow> (bool \<times> duration) \<times> ('f, 'b) Limiter" where
  "Allow api now key l =
     (case map_of (l_buckets l) key of
        Some b \<Rightarrow> allow_in api now key b l
      | None \<Rightarrow>
          let l = (if int (length (l_buckets l)) \<ge> l_maxKeys l then evictIdle now l else l) in
          if int (length (l_buckets l)) \<ge> l_maxKeys l then ((True, 0), l)
          else allow_in api now key \<lparr>b_limiter = bk_new api (l_limit l) (l_burst l), b_lastSeen = 0\<rparr> l)"

definition Take :: "('f, 'b) bucket_api \<Rightarrow> time \<Rightarrow> ('f, 'b) Limiter take_op" where
  "Take api now key l =
     (if key = [] then (Inl ErrEmptyKey, l)
      else let ((ok, retry), l') = Allow api now key l in (Inr \<lparr>Allowed = ok, RetryAfter = retry\<rparr>, l'))"

definition limiter_ok :: "('f, 'b) Limiter \<Rightarrow> bool" where
  "limiter_ok l \<longleftrightarrow> distinct (map fst (l_buckets l)) \<and> int (length (l_buckets l)) \<le> max 0 (l_maxKeys l)"

section \<open>The middleware\<close>

text \<open>What a request gets: the next handler, or a refusal with its \<open>Retry-After\<close> seconds.\<close>

datatype served = Next | Limited int

text \<open>\<open>time.Duration.Round(time.Second)\<close> on a non-negative duration: half away from zero.\<close>

definition round_second :: "duration \<Rightarrow> duration" where
  "round_second d =
     (let r = d mod second in if r + r < second then d - r
      else if d - r + second > max_duration then max_duration else d - r + second)"

definition Middleware :: "'s take_op \<Rightarrow> string \<Rightarrow> 's \<Rightarrow> served \<times> 's" where
  "Middleware tk k s =
     (if k = [] then (Next, s)
      else case tk k s of
        (Inr d, s') \<Rightarrow>
          if \<not> Allowed d then (Limited (max (round_second (RetryAfter d) div second) 1), s') else (Next, s')
      | (Inl _, s') \<Rightarrow> (Next, s'))"

section \<open>GCRA\<close>

definition hashKey :: "(string \<Rightarrow> string) \<Rightarrow> string \<Rightarrow> string \<Rightarrow> string" where
  "hashKey sha256 name key = sha256 (name @ [CHR 0x00] @ key)"

text \<open>The product of two durations wraps around at 64 bits.\<close>

definition gcra :: "'f float_api \<Rightarrow> 'f Limit \<Rightarrow> duration \<times> duration" where
  "gcra fl lim =
     (let interval = max (truncate_to (fl_quot fl second (PerSecond lim)) microsecond) microsecond
      in (interval, int64 (interval * Burst lim)))"

text \<open>\<open>ratelimit_buckets\<close>: the theoretical arrival time of each key.\<close>

type_synonym buckets = "string \<rightharpoonup> time"

text \<open>The statement's new arrival time (none when refused), the one before it, and the table.\<close>

definition takeSQL :: "string \<Rightarrow> duration \<Rightarrow> duration \<Rightarrow> time \<Rightarrow> buckets \<Rightarrow> time option \<times> time option \<times> buckets" where
  "takeSQL key t tolerance now bs =
     (case bs key of
        None \<Rightarrow> (Some (now + t), None, bs(key \<mapsto> now + t))
      | Some tat \<Rightarrow>
          let new = max tat (now + t - t) + t in
          if new - (now + t - t) \<le> tolerance then (Some new, Some tat, bs(key \<mapsto> new))
          else (None, Some tat, bs))"

definition retryAfter :: "time option \<Rightarrow> time \<Rightarrow> duration \<Rightarrow> duration \<Rightarrow> duration" where
  "retryAfter tat now interval tolerance =
     (case tat of
        None \<Rightarrow> interval
      | Some a \<Rightarrow> let arrival = (if now > a then now else a) in max (arrival + interval - now - tolerance) microsecond)"

text \<open>\<open>answers\<close> says whether the database answers in time; without an answer the statement may
  have run all the same.\<close>

datatype db_answer = Answers | Silent | Ran_silently

definition store_take :: "'f float_api \<Rightarrow> (string \<Rightarrow> string) \<Rightarrow> db_answer \<Rightarrow> time \<Rightarrow> string \<Rightarrow> string \<Rightarrow> 'f Limit \<Rightarrow> buckets \<Rightarrow>
    Decision option \<times> buckets" where
  "store_take fl sha answer now name key lim bs =
     (let (interval, tolerance) = gcra fl lim;
          (newTAT, oldTAT, bs') = takeSQL (hashKey sha name key) interval (Microseconds tolerance) now bs in
      case answer of
        Silent \<Rightarrow> (None, bs)
      | Ran_silently \<Rightarrow> (None, bs')
      | Answers \<Rightarrow>
          (Some (case newTAT of
                   Some _ \<Rightarrow> \<lparr>Allowed = True, RetryAfter = 0\<rparr>
                 | None \<Rightarrow> \<lparr>Allowed = False, RetryAfter = retryAfter oldTAT now interval tolerance\<rparr>), bs'))"

text \<open>Up to \<open>limit\<close> buckets of the expired ones, whichever the database picks.\<close>

definition DeleteExpired :: "time \<Rightarrow> string list \<Rightarrow> nat \<Rightarrow> buckets \<Rightarrow> nat \<times> buckets" where
  "DeleteExpired now picked limit bs =
     (let gone = take limit (filter (\<lambda>k. case bs k of Some tat \<Rightarrow> tat < now | None \<Rightarrow> False) (remdups picked))
      in (length gone, bs |` (- set gone)))"

definition Reset :: "(string \<Rightarrow> string) \<Rightarrow> string \<Rightarrow> string \<Rightarrow> buckets \<Rightarrow> (ratelimit_error + bool) \<times> buckets" where
  "Reset sha name key bs =
     (if name = [] \<or> key = [] then (Inl ErrEmptyKey, bs)
      else (Inr (bs (hashKey sha name key) \<noteq> None), bs(hashKey sha name key := None)))"

section \<open>The shared limiter\<close>

record ('f, 'b) shared =
  sh_name :: string
  sh_current :: "'f Limit option"
  sh_local :: "('f, 'b) Limiter"
  sh_fallback :: "('f, 'b) Limiter"
  sh_lastWarn :: time
  sh_warnings :: nat
  sh_table :: buckets

definition warnInterval :: duration where "warnInterval = minute"

definition memory :: "'f Limit \<Rightarrow> ('f, 'b) shared \<Rightarrow> ('f, 'b) shared" where
  "memory lim l =
     (if sh_current l = Some lim then l
      else l\<lparr>sh_current := Some lim, sh_local := New (PerSecond lim) (int64 (2 * Burst lim)),
             sh_fallback := New (PerSecond lim) (Burst lim)\<rparr>)"

definition fellBack :: "time \<Rightarrow> ('f, 'b) shared \<Rightarrow> ('f, 'b) shared" where
  "fellBack now l =
     (if now - sh_lastWarn l \<ge> warnInterval then l\<lparr>sh_lastWarn := now, sh_warnings := sh_warnings l + 1\<rparr> else l)"

text \<open>The environment of one \<open>Take\<close>: the limit in force, the clocks' readings and the database's answer.\<close>

record 'f take_env =
  te_limit :: "'f Limit"
  te_now :: time
  te_db_now :: time
  te_answer :: db_answer

definition shared_Take :: "'f float_api \<Rightarrow> (string \<Rightarrow> string) \<Rightarrow> ('f, 'b) bucket_api \<Rightarrow> 'f take_env \<Rightarrow> ('f, 'b) shared take_op" where
  "shared_Take fl sha api env key l =
     (if key = [] then (Inl ErrEmptyKey, l)
      else if \<not> Valid fl (te_limit env) then (Inl ErrInvalidLimit, l)
      else
        let l = memory (te_limit env) l;
            ((ok, retry), loc) = Allow api (te_now env) key (sh_local l);
            l = l\<lparr>sh_local := loc\<rparr> in
        if \<not> ok then (Inr \<lparr>Allowed = False, RetryAfter = retry\<rparr>, l)
        else
          let (d, bs) = store_take fl sha (te_answer env) (te_db_now env) (sh_name l) key (te_limit env) (sh_table l);
              l = l\<lparr>sh_table := bs\<rparr> in
          case d of
            Some d \<Rightarrow> (Inr d, l)
          | None \<Rightarrow>
              let l = fellBack (te_now env) l;
                  ((ok, retry), fb) = Allow api (te_now env) key (sh_fallback l) in
              (Inr \<lparr>Allowed = ok, RetryAfter = retry\<rparr>, l\<lparr>sh_fallback := fb\<rparr>))"

section \<open>The Taker interface\<close>

locale taker =
  fixes tk :: "'s take_op"
  assumes empty_key: "tk [] s = (Inl ErrEmptyKey, s)"
    and refusal_waits: "tk k s = (Inr d, s') \<Longrightarrow> \<not> Allowed d \<Longrightarrow> 0 < RetryAfter d"
begin

lemma Middleware_refuses:
  assumes "fst (Middleware tk k s) = Limited n"
  shows "\<exists>d s'. tk k s = (Inr d, s') \<and> \<not> Allowed d \<and> 1 \<le> n \<and>
    (RetryAfter d \<le> max_duration - second \<longrightarrow> RetryAfter d \<le> n * second + second div 2)"
proof -
  from assms obtain d s' where d: "tk k s = (Inr d, s')" "\<not> Allowed d" "n = max (round_second (RetryAfter d) div second) 1"
    by (auto simp: Middleware_def split: if_splits prod.splits sum.splits)
  have "RetryAfter d \<le> n * second + second div 2" if "RetryAfter d \<le> max_duration - second"
  proof -
    let ?r = "RetryAfter d"
    have "?r - ?r mod second = ?r div second * second" by (simp add: minus_mod_eq_div_mult)
    then have "round_second ?r div second \<ge> (if ?r mod second + ?r mod second < second then ?r div second else ?r div second + 1)"
      using that by (auto simp: round_second_def Let_def)
    moreover have "?r = ?r div second * second + ?r mod second" "?r mod second < second" by simp_all
    ultimately have "round_second ?r div second * second + second div 2 \<ge> ?r"
      by (cases "?r mod second + ?r mod second < second"; simp only: if_True if_False; linarith)
    then show ?thesis using d(3) by linarith
  qed
  with d show ?thesis by auto
qed

lemma Middleware_fails_open: "tk k s = (Inl e, s') \<Longrightarrow> fst (Middleware tk k s) = Next"
  by (simp add: Middleware_def)

end

subsection \<open>The in-memory limiter is a Taker\<close>

lemma allow_in_refused:
  "allow_in api now key b l = ((ok, retry), l') \<Longrightarrow> \<not> ok \<Longrightarrow> 0 < retry"
  by (auto simp: allow_in_def Let_def max_duration_def split: prod.splits if_splits)

lemma Allow_refused: "Allow api now key l = ((ok, retry), l') \<Longrightarrow> \<not> ok \<Longrightarrow> 0 < retry"
  by (auto simp: Allow_def Let_def split: option.splits if_splits dest: allow_in_refused)

interpretation in_memory: taker "Take api now" for api now
proof
  show "Take api now [] s = (Inl ErrEmptyKey, s)" for s by (simp add: Take_def)
  show "0 < RetryAfter d" if "Take api now k s = (Inr d, s')" "\<not> Allowed d" for k s d s'
    using that by (auto simp: Take_def Let_def split: if_splits prod.splits dest: Allow_refused)
qed

subsection \<open>The shared limiter is a Taker\<close>

lemma gcra_interval: "gcra fl lim = (t, tol) \<Longrightarrow> microsecond \<le> t \<and> tol = int64 (t * Burst lim)"
  by (auto simp: gcra_def Let_def)

lemma gcra_tolerance:
  assumes "gcra fl lim = (t, tol)" "0 < Burst lim" "t * Burst lim \<le> max_duration"
  shows "0 < t" "Microseconds tol = t * Burst lim" "t \<le> t * Burst lim"
proof -
  have t: "t = max (truncate_to (fl_quot fl second (PerSecond lim)) microsecond) microsecond" "tol = int64 (t * Burst lim)"
    using assms(1) by (auto simp: gcra_def Let_def)
  then show "0 < t" by simp
  then show "t \<le> t * Burst lim" using assms(2) by simp
  have "microsecond dvd t" by (simp add: t(1) max_def truncate_to_def)
  then have "microsecond dvd t * Burst lim" by simp
  with \<open>0 < t\<close> t(2) assms(2,3) show "Microseconds tol = t * Burst lim"
    by (simp add: int64_id Microseconds_def zero_less_mult_iff)
qed

lemma retryAfter_pos: "microsecond \<le> t \<Longrightarrow> 0 < retryAfter tat now t tol"
  by (auto simp: retryAfter_def Let_def split: option.splits)

lemma store_take_refused: "store_take fl sha ans now name key lim bs = (Some d, bs') \<Longrightarrow> \<not> Allowed d \<Longrightarrow> 0 < RetryAfter d"
  using gcra_interval [of fl lim]
  by (auto simp: store_take_def Let_def split: prod.splits db_answer.splits option.splits intro: retryAfter_pos)

interpretation in_postgres: taker "shared_Take fl sha api env" for fl sha api env
proof
  show "shared_Take fl sha api env [] s = (Inl ErrEmptyKey, s)" for s by (simp add: shared_Take_def)
  show "0 < RetryAfter d" if "shared_Take fl sha api env k s = (Inr d, s')" "\<not> Allowed d" for k s d s'
    using that by (auto simp: shared_Take_def Let_def split: if_splits prod.splits option.splits
        dest: Allow_refused store_take_refused)
qed

section \<open>GCRA keeps the rate\<close>

text \<open>A run of requests against the shared table, each with its moment and what the database does;
  which ones were allowed.\<close>

fun take_all :: "'f float_api \<Rightarrow> (string \<Rightarrow> string) \<Rightarrow> string \<Rightarrow> 'f Limit \<Rightarrow> (string \<times> time \<times> db_answer) list \<Rightarrow> buckets \<Rightarrow>
    (string \<times> bool) list \<times> buckets" where
  "take_all fl sha name lim [] bs = ([], bs)"
| "take_all fl sha name lim ((key, now, ans) # rs) bs =
     (let (d, bs1) = store_take fl sha ans now name key lim bs; (ds, bs2) = take_all fl sha name lim rs bs1
      in ((key, case d of None \<Rightarrow> False | Some d \<Rightarrow> Allowed d) # ds, bs2))"

definition allowed_count :: "string \<Rightarrow> (string \<times> bool) list \<Rightarrow> nat" where
  "allowed_count k ds = length (filter (\<lambda>d. d = (k, True)) ds)"

lemma takeSQL_grows: "takeSQL key t tol now bs = (new, old, bs') \<Longrightarrow> 0 \<le> t \<Longrightarrow> bs h = Some tat \<Longrightarrow> \<exists>tat'. bs' h = Some tat' \<and> tat \<le> tat'"
  by (auto simp: takeSQL_def Let_def split: option.splits if_splits)

lemma takeSQL_allowed:
  assumes "takeSQL key t tol now bs = (Some new, old, bs')" "t \<le> tol"
  shows "bs' key = Some new \<and> now + t \<le> new \<and> new \<le> now + tol \<and> (\<forall>tat. bs key = Some tat \<longrightarrow> tat + t \<le> new)"
  using assms by (auto simp: takeSQL_def Let_def split: option.splits if_splits)

lemma store_take_grows:
  assumes "store_take fl sha ans now name key lim bs = (d, bs')" "bs h = Some tat"
  shows "\<exists>tat'. bs' h = Some tat' \<and> tat \<le> tat'"
proof -
  obtain t tol where g: "gcra fl lim = (t, tol)" by fastforce
  with gcra_interval have "0 \<le> t" by fastforce
  with assms g takeSQL_grows show ?thesis
    by (auto simp: store_take_def Let_def split: prod.splits db_answer.splits)
qed

lemma store_take_allowed:
  assumes "store_take fl sha ans now name key lim bs = (Some d, bs')" "Allowed d" "gcra fl lim = (t, tol)" "t \<le> Microseconds tol"
  shows "\<exists>new. bs' (hashKey sha name key) = Some new \<and> now + t \<le> new \<and> new \<le> now + Microseconds tol \<and>
    (\<forall>tat. bs (hashKey sha name key) = Some tat \<longrightarrow> tat + t \<le> new)"
  using assms takeSQL_allowed
  by (auto simp: store_take_def Let_def split: prod.splits db_answer.splits option.splits) blast

text \<open>
  After \<open>n\<close> allowed requests in the window from \<open>a\<close> to \<open>b\<close> the arrival time of the key's bucket
  is at least \<open>n\<close> intervals past \<open>a\<close>, which is never more than the tolerance past \<open>b\<close>.
\<close>

lemma take_all_bound:
  fixes fl :: "'f float_api"
  assumes "gcra fl lim = (t, tol)" "t \<le> Microseconds tol" "\<And>x ans. (k, x, ans) \<in> set rs \<Longrightarrow> a \<le> x \<and> x \<le> b"
    "n = 0 \<or> a + int n * t \<le> b + Microseconds tol \<and> (\<exists>tat. bs (hashKey sha name k) = Some tat \<and> a + int n * t \<le> tat)"
  shows "n + allowed_count k (fst (take_all fl sha name lim rs bs)) = 0 \<or>
    a + int (n + allowed_count k (fst (take_all fl sha name lim rs bs))) * t \<le> b + Microseconds tol"
  using assms(3,4)
proof (induction rs arbitrary: n bs)
  case Nil
  then show ?case by (auto simp: allowed_count_def)
next
  case (Cons r rs)
  obtain key now ans where r: "r = (key, now, ans)" by (cases r) auto
  obtain d bs1 where q: "store_take fl sha ans now name key lim bs = (d, bs1)" by fastforce
  define hit where "hit = (if key = k \<and> (\<exists>x. d = Some x \<and> Allowed x) then 1 else 0 :: nat)"
  have cnt: "allowed_count k (fst (take_all fl sha name lim (r # rs) bs)) = hit + allowed_count k (fst (take_all fl sha name lim rs bs1))"
    by (auto simp: r q allowed_count_def hit_def split: prod.splits option.splits)
  have "n + hit = 0 \<or> a + int (n + hit) * t \<le> b + Microseconds tol \<and>
    (\<exists>tat. bs1 (hashKey sha name k) = Some tat \<and> a + int (n + hit) * t \<le> tat)"
  proof (cases "hit = 0")
    case True
    with Cons.prems(2) store_take_grows [OF q, of "hashKey sha name k"] show ?thesis by fastforce
  next
    case False
    then obtain x where x: "key = k" "d = Some x" "Allowed x" "hit = 1" by (auto simp: hit_def split: if_splits)
    then have win: "a \<le> now" "now \<le> b" using Cons.prems(1) [of now ans] r by auto
    from store_take_allowed [OF q [unfolded x(1,2)] x(3) assms(1,2)] obtain new where
      new: "bs1 (hashKey sha name k) = Some new" "now + t \<le> new" "new \<le> now + Microseconds tol"
      "\<And>tat. bs (hashKey sha name k) = Some tat \<Longrightarrow> tat + t \<le> new" by blast
    have "a + int (n + 1) * t \<le> new"
    proof (cases "n = 0")
      case False
      with Cons.prems(2) new(4) show ?thesis by (fastforce simp: algebra_simps)
    qed (use new(2) win in simp)
    with new win x(4) show ?thesis by auto
  qed
  have "\<And>x ans. (k, x, ans) \<in> set rs \<Longrightarrow> a \<le> x \<and> x \<le> b" using Cons.prems(1) by (meson list.set_intros(2))
  from Cons.IH [of "n + hit" bs1, OF this \<open>n + hit = 0 \<or> _\<close>] show ?case by (simp add: cnt add.assoc)
qed

text \<open>
  C11: the shared limit holds. However many instances send requests, in whatever order the database runs
  their statements, among those of any other keys and with answers lost on the way, the requests of one
  key that the database decides within a window from \<open>a\<close> to \<open>b\<close> and allows number at most the burst
  plus the window's length over the emission interval. (The tolerance fits 64 bits.)
\<close>

theorem gcra_rate_bound:
  assumes "gcra fl lim = (t, tol)" "0 < Burst lim" "t * Burst lim \<le> max_duration"
    "\<And>x ans. (k, x, ans) \<in> set rs \<Longrightarrow> a \<le> x \<and> x \<le> b" "a \<le> b"
  shows "int (allowed_count k (fst (take_all fl sha name lim rs bs))) \<le> Burst lim + (b - a) div t"
proof -
  let ?n = "allowed_count k (fst (take_all fl sha name lim rs bs))"
  note g = gcra_tolerance [OF assms(1-3)]
  have "?n = 0 \<or> a + int ?n * t \<le> b + t * Burst lim"
    using take_all_bound [where n = 0, OF assms(1) _ assms(4)] g by simp
  then show ?thesis
  proof
    assume "?n = 0"
    with assms g show ?thesis by (simp add: pos_imp_zdiv_nonneg_iff)
  next
    assume "a + int ?n * t \<le> b + t * Burst lim"
    then have "(int ?n - Burst lim) * t \<le> b - a" by (simp add: algebra_simps)
    then have "int ?n - Burst lim \<le> (b - a) div t"
      using zdiv_mono1 [of "(int ?n - Burst lim) * t" "b - a" t] g(1) by simp
    then show ?thesis by simp
  qed
qed

text \<open>Floats as naturals, all that an instance with whole rates needs.\<close>

definition whole :: "nat float_api" where
  "whole = \<lparr>fl_pos = (\<lambda>f. f > 0), fl_per = (\<lambda>n d. nat (n * second div d)), fl_quot = (\<lambda>d f. d div int f)\<rparr>"

theorem gcra_rate_bound_witness:
  "int (allowed_count ''ada'' (fst (take_all whole (\<lambda>x. x) ''api'' \<lparr>PerSecond = 1000, Burst = 2\<rparr>
     [(''ada'', 0, Answers), (''ada'', 0, Ran_silently), (''bob'', 5, Answers), (''ada'', 1000000, Answers)] Map.empty))) \<le>
   2 + (1000000 - 0) div 1000000"
proof -
  have "gcra whole \<lparr>PerSecond = 1000, Burst = 2\<rparr> = (1000000, 2000000)"
    by (simp add: gcra_def whole_def truncate_to_def int64_def)
  from gcra_rate_bound [OF this, where a = 0 and b = 1000000] show ?thesis
    by (rule order_trans) (auto simp: max_duration_def simp del: take_all.simps)
qed

text \<open>
  the retry time is exact. When the statement refuses a request at \<open>now\<close>, then, as long as no
  other request of the key comes in between, a request is refused at every earlier moment and allowed at
  \<open>now\<close> plus \<open>retryAfter\<close>. Times are whole microseconds, as the database keeps them.
\<close>

theorem retryAfter_exact:
  assumes "takeSQL key t tol now bs = (None, old, bs')" "0 < t" "t \<le> tol" "microsecond dvd t" "microsecond dvd tol"
    "microsecond dvd now" "bs key = Some tat" "microsecond dvd tat" "now \<le> now'"
  defines "r \<equiv> retryAfter old now t tol"
  shows "(fst (takeSQL key t tol now' bs') = None \<longleftrightarrow> now' < now + r)"
proof -
  from assms(1,7) have bs': "bs' = bs" "old = Some tat" and ref: "tol < max tat now + t - now"
    by (auto simp: takeSQL_def Let_def split: if_splits)
  have late: "now < tat" using ref assms(3) by (auto split: if_splits)
  have "microsecond dvd tat + t - now - tol" using assms(4-6,8) by simp
  moreover have "0 < tat + t - now - tol" using ref late by auto
  ultimately have "microsecond \<le> tat + t - now - tol" by (rule zdvd_imp_le)
  then have r: "r = tat + t - now - tol" using late by (simp add: r_def retryAfter_def bs'(2))
  show ?thesis using assms(2,3,7,9) by (auto simp: takeSQL_def Let_def bs'(1) r split: if_splits)
qed

theorem retryAfter_exact_witness:
  "(fst (takeSQL ''k'' 2000 4000 1000 [''k'' \<mapsto> 5000]) = None) \<and>
   (fst (takeSQL ''k'' 2000 4000 3000 [''k'' \<mapsto> 5000]) = None \<longleftrightarrow> (3000::int) < 1000 + retryAfter (Some 5000) 1000 2000 4000)"
proof -
  have "takeSQL ''k'' 2000 4000 1000 [''k'' \<mapsto> 5000] = (None, Some 5000, [''k'' \<mapsto> 5000])"
    by (simp add: takeSQL_def)
  then show ?thesis using retryAfter_exact [of "''k''" 2000 4000 1000 "[''k'' \<mapsto> 5000]" "Some 5000" "[''k'' \<mapsto> 5000]" 5000 3000]
    by simp
qed

text \<open>
  C12: the table forgets only what no longer matters. Deleting expired buckets changes no later
  decision: every request from then on, of any key, is decided as it would have been, and leaves the key
  with the same arrival time.
\<close>

theorem DeleteExpired_unobservable:
  assumes "now \<le> now'" "t \<le> tol"
  shows "(fst (takeSQL key t tol now' (snd (DeleteExpired now picked limit bs))) = fst (takeSQL key t tol now' bs)) \<and>
    snd (snd (takeSQL key t tol now' (snd (DeleteExpired now picked limit bs)))) key = snd (snd (takeSQL key t tol now' bs)) key"
proof -
  let ?bs = "snd (DeleteExpired now picked limit bs)"
  have "?bs key = bs key \<or> ?bs key = None \<and> (\<exists>tat. bs key = Some tat \<and> tat < now)"
    by (auto simp: DeleteExpired_def Let_def restrict_map_def split: option.splits dest!: in_set_takeD)
  then show ?thesis using assms by (cases "bs key") (auto simp: takeSQL_def Let_def max_def)
qed

theorem DeleteExpired_unobservable_witness:
  "fst (takeSQL ''k'' 10 20 100 (snd (DeleteExpired 50 [''k''] 5 [''k'' \<mapsto> 40]))) = fst (takeSQL ''k'' 10 20 100 [''k'' \<mapsto> 40])"
  using DeleteExpired_unobservable [of 50 100 10 20 "''k''" "[''k'']" 5 "[''k'' \<mapsto> 40]"] by simp

definition level :: "time \<Rightarrow> time option \<Rightarrow> duration" where
  "level now tat = (case tat of None \<Rightarrow> 0 | Some a \<Rightarrow> max 0 (a - now))"

definition leaky_take :: "duration \<Rightarrow> duration \<Rightarrow> duration \<Rightarrow> bool \<times> duration" where
  "leaky_take t tol v = (if v + t \<le> tol then (True, v + t) else (False, v))"

text \<open>
  C13: GCRA is a leaky bucket. Read the arrival time of a key as a level that drains with time (how far
  it is ahead of now, and nothing once it is past): the statement allows a request exactly when the level
  has room for one more interval, and then adds it; so it behaves as a counter of the work still owed.
\<close>

theorem gcra_refines_leaky_bucket:
  assumes "0 \<le> t" "t \<le> tol" "takeSQL key t tol now bs = (new, old, bs')"
  shows "leaky_take t tol (level now (bs key)) = (new \<noteq> None, level now (bs' key))"
  using assms
  by (cases "bs key"; cases new) (auto simp: takeSQL_def leaky_take_def level_def Let_def max_def split: if_splits dest: sym)

theorem gcra_refines_leaky_bucket_witness:
  "leaky_take 10 20 (level 100 ([''k'' \<mapsto> 105] ''k'')) =
     (fst (takeSQL ''k'' 10 20 100 [''k'' \<mapsto> 105]) \<noteq> None, level 100 (snd (snd (takeSQL ''k'' 10 20 100 [''k'' \<mapsto> 105])) ''k''))"
  by (rule gcra_refines_leaky_bucket [OF _ _ surjective_pairing [THEN trans, OF arg_cong [where f = "Pair _", OF surjective_pairing]]])
    simp_all

text \<open>The keys of two limiters never meet: the text that is hashed determines the limiter and the key.\<close>

lemma hashKey_separates:
  assumes "CHR 0x00 \<notin> set name" "CHR 0x00 \<notin> set name'" "name @ [CHR 0x00] @ key = name' @ [CHR 0x00] @ key'"
  shows "name = name' \<and> key = key'"
  using assms by (intro separator_unique) simp_all

section \<open>The in-memory limiter is bounded\<close>

lemma length_update_le: "length (AList.update k v xs) \<le> Suc (length xs)"
  by (induction xs) auto

lemma length_update_mem: "k \<in> fst ` set xs \<Longrightarrow> length (AList.update k v xs) = length xs"
  by (induction xs) auto

lemma put_bucket_ok:
  assumes "limiter_ok l" "map_of (l_buckets l) key = None \<Longrightarrow> int (length (l_buckets l)) < l_maxKeys l"
  shows "limiter_ok (put_bucket key b l)"
proof (cases "map_of (l_buckets l) key")
  case None
  with assms length_update_le [of key b "l_buckets l"] show ?thesis
    by (simp add: limiter_ok_def put_bucket_def distinct_update)
next
  case (Some x)
  then have "key \<in> fst ` set (l_buckets l)" by (force dest: map_of_SomeD)
  with assms(1) show ?thesis by (simp add: limiter_ok_def put_bucket_def distinct_update length_update_mem)
qed

lemma allow_in_put: "\<exists>b'. snd (allow_in api now key b l) = put_bucket key b' l"
  by (auto simp: allow_in_def Let_def split: prod.splits)

lemma evictIdle_ok: "limiter_ok l \<Longrightarrow> limiter_ok (evictIdle now l)"
  unfolding limiter_ok_def evictIdle_def
  by (simp add: distinct_map_filterI) (meson length_filter_le of_nat_mono order_trans)

lemma evictIdle_None: "map_of (l_buckets l) key = None \<Longrightarrow> map_of (l_buckets (evictIdle now l)) key = None"
  by (auto simp: evictIdle_def map_of_eq_None_iff)

text \<open>
  memory is bounded. Whatever keys come in, the in-memory limiter never tracks more keys than its
  maximum, each once; a request it can't track is allowed rather than refused.
\<close>

theorem Allow_bounded:
  assumes "limiter_ok l"
  shows "limiter_ok (snd (Allow api now key l)) \<and> l_maxKeys (snd (Allow api now key l)) = l_maxKeys l"
proof -
  have in_ok: "limiter_ok (snd (allow_in api now key b l')) \<and> l_maxKeys (snd (allow_in api now key b l')) = l_maxKeys l'"
    if "limiter_ok l'" "map_of (l_buckets l') key = None \<Longrightarrow> int (length (l_buckets l')) < l_maxKeys l'" for b l'
    using allow_in_put [of api now key b l'] put_bucket_ok [OF that] by (auto simp: put_bucket_def)
  show ?thesis
  proof (cases "map_of (l_buckets l) key")
    case None
    then show ?thesis using assms evictIdle_ok [OF assms, of now] in_ok
      by (auto simp: Allow_def Let_def evictIdle_def)
  next
    case (Some b)
    then show ?thesis using in_ok [OF assms] by (simp add: Allow_def)
  qed
qed

text \<open>A bucket that always has one token, for the instance.\<close>

definition open_bucket :: "(nat, nat) bucket_api" where
  "open_bucket = \<lparr>bk_new = (\<lambda>_ _. 0), bk_reserve = (\<lambda>_ n. ((True, 0), n + 1)), bk_cancel = (\<lambda>_ n. n)\<rparr>"

theorem Allow_bounded_witness:
  "length (l_buckets (snd (Allow open_bucket 5 ''ada'' (WithMaxKeys 1 (New 0 1))))) \<le> 1"
proof -
  have "limiter_ok (WithMaxKeys 1 (New 0 1) :: (nat, nat) Limiter)" by (simp add: limiter_ok_def WithMaxKeys_def New_def)
  from Allow_bounded [OF this, of open_bucket 5 "''ada''"] show ?thesis
    by (auto simp: limiter_ok_def WithMaxKeys_def)
qed

section \<open>The shared limiter\<close>

text \<open>
  an outage never locks clients out and never opens the gates. With a key and a valid limit,
  \<open>Take\<close> always decides: a client far over its limit is refused before the database is asked and
  leaves the table alone; otherwise the database's answer decides, and without one the in-memory limiter
  with the same limit does.
\<close>

theorem shared_Take_decides:
  fixes l :: "('f, 'b) shared" and api :: "('f, 'b) bucket_api" and fl :: "'f float_api" and env :: "'f take_env"
    and sha :: "string \<Rightarrow> string"
  assumes "key \<noteq> []" "Valid fl (te_limit env)"
  defines "loc \<equiv> Allow api (te_now env) key (sh_local (memory (te_limit env) l))"
    and "fb \<equiv> Allow api (te_now env) key (sh_fallback (memory (te_limit env) l))"
    and "st \<equiv> store_take fl sha (te_answer env) (te_db_now env) (sh_name l) key (te_limit env) (sh_table l)"
  shows "fst (shared_Take fl sha api env key l) =
      Inr (if \<not> fst (fst loc) then \<lparr>Allowed = False, RetryAfter = snd (fst loc)\<rparr>
           else case fst st of Some d \<Rightarrow> d | None \<Rightarrow> \<lparr>Allowed = fst (fst fb), RetryAfter = snd (fst fb)\<rparr>) \<and>
    (\<not> fst (fst loc) \<longrightarrow> sh_table (snd (shared_Take fl sha api env key l)) = sh_table l)"
proof -
  define m where "m = memory (te_limit env) l"
  have keep: "sh_name m = sh_name l" "sh_table m = sh_table l" by (simp_all add: m_def memory_def)
  have fbk: "sh_fallback (fellBack now x) = sh_fallback x" for now and x :: "('f, 'b) shared" by (simp add: fellBack_def)
  show ?thesis
    using assms(1,2) unfolding shared_Take_def loc_def fb_def st_def m_def [symmetric] Let_def
    by (auto simp: keep fbk case_prod_beta split: option.splits)
qed

text \<open>One instance whose database is silent.\<close>

definition idle_shared :: "(nat, nat) shared" where
  "idle_shared = \<lparr>sh_name = ''api'', sh_current = None, sh_local = New 0 0, sh_fallback = New 0 0, sh_lastWarn = 0,
     sh_warnings = 0, sh_table = Map.empty\<rparr>"

definition silent_env :: "nat take_env" where
  "silent_env = \<lparr>te_limit = \<lparr>PerSecond = 5, Burst = 5\<rparr>, te_now = 100, te_db_now = 100, te_answer = Silent\<rparr>"

theorem shared_Take_decides_witness:
  "fst (shared_Take whole (\<lambda>x. x) open_bucket silent_env ''ada'' idle_shared) = Inr \<lparr>Allowed = True, RetryAfter = 0\<rparr>"
  by (subst conjunct1 [OF shared_Take_decides])
    (simp_all add: whole_def silent_env_def Valid_def idle_shared_def memory_def New_def Allow_def DefaultMaxKeys_def allow_in_def
      open_bucket_def store_take_def)

end
