(* ===== verification/Idempotency.thy ===== *)
theory Idempotency
  imports Access Txn
begin

text \<open>
  Idempotency keys (\<open>modules/idempotency\<close>): the statements on \<open>idempotency_keys\<close>, \<open>Claim\<close>,
  \<open>Complete\<close> and \<open>Release\<close>, the response recorder and the middleware.

  The table comes with the database clock. A statement outside a transaction runs after whatever the
  other sessions did meanwhile (\<open>sess\<close>). The handler of the application is a parameter: from its
  own state it makes a list of calls on the response writer and returns or panics. The random lock token
  of a request and the JSON encoding of the stored headers are parameters too; SHA-256 is one as elsewhere.
\<close>

section \<open>The table\<close>

record 'j key_row =
  k_id :: string
  k_fingerprint :: string
  k_lock_token :: "string option"
  k_locked_until :: "time option"
  k_created_at :: time
  k_status :: "int option"
  k_header :: "'j option"
  k_body :: string

record 'j keys_db =
  k_rows :: "'j key_row list"
  k_now :: time

definition find_key :: "string \<Rightarrow> 'j keys_db \<Rightarrow> 'j key_row option" where
  "find_key i d = List.find (\<lambda>k. k_id k = i) (k_rows d)"

definition claimed_row :: "string \<Rightarrow> string \<Rightarrow> string \<Rightarrow> duration \<Rightarrow> time \<Rightarrow> 'j key_row" where
  "claimed_row i fp token lockTTL now =
     \<lparr>k_id = i, k_fingerprint = fp, k_lock_token = Some token, k_locked_until = Some (now + Microseconds lockTTL),
      k_created_at = now, k_status = None, k_header = None, k_body = []\<rparr>"

definition claimable :: "string \<Rightarrow> duration \<Rightarrow> time \<Rightarrow> 'j key_row \<Rightarrow> bool" where
  "claimable fp retention now k \<longleftrightarrow>
     k_created_at k \<le> now - Microseconds retention \<or>
     (k_status k = None \<and> (case k_locked_until k of None \<Rightarrow> False | Some u \<Rightarrow> u \<le> now) \<and> k_fingerprint k = fp)"

definition claimKey :: "string \<Rightarrow> string \<Rightarrow> string \<Rightarrow> duration \<Rightarrow> duration \<Rightarrow> 'j keys_db \<Rightarrow> bool \<times> 'j keys_db" where
  "claimKey i fp token lockTTL retention d =
     (let new = claimed_row i fp token lockTTL (k_now d) in
      case find_key i d of
        None \<Rightarrow> (True, d\<lparr>k_rows := k_rows d @ [new]\<rparr>)
      | Some k \<Rightarrow>
          if claimable fp retention (k_now d) k
          then (True, d\<lparr>k_rows := update_where (\<lambda>k. k_id k = i) (\<lambda>_. new) (k_rows d)\<rparr>)
          else (False, d))"

definition completeKey :: "string \<Rightarrow> string \<Rightarrow> int \<Rightarrow> 'j \<Rightarrow> string \<Rightarrow> 'j keys_db \<Rightarrow> nat \<times> 'j keys_db" where
  "completeKey i token status header body d =
     (let p = (\<lambda>k. k_id k = i \<and> k_lock_token k = Some token) in
      (count_where p (k_rows d),
       d\<lparr>k_rows := update_where p (\<lambda>k. k\<lparr>k_status := Some status, k_header := Some header, k_body := body,
         k_lock_token := None, k_locked_until := None\<rparr>) (k_rows d)\<rparr>))"

definition releaseKey :: "string \<Rightarrow> string \<Rightarrow> 'j keys_db \<Rightarrow> 'j keys_db" where
  "releaseKey i token d = d\<lparr>k_rows := filter (\<lambda>k. \<not> (k_id k = i \<and> k_lock_token k = Some token)) (k_rows d)\<rparr>"

text \<open>The oldest of the expired keys first; \<open>sort_key\<close> keeps the order of rows claimed at once.\<close>

definition deleteExpired :: "duration \<Rightarrow> nat \<Rightarrow> 'j keys_db \<Rightarrow> nat \<times> 'j keys_db" where
  "deleteExpired retention limit d =
     (let gone = take limit (sort_key k_created_at
            (filter (\<lambda>k. k_created_at k \<le> k_now d - Microseconds retention) (k_rows d))) in
      (length gone, d\<lparr>k_rows := filter (\<lambda>k. k_id k \<notin> k_id ` set gone) (k_rows d)\<rparr>))"

definition keys_ok :: "'j keys_db \<Rightarrow> bool" where
  "keys_ok d \<longleftrightarrow> distinct (map k_id (k_rows d))"

section \<open>The store\<close>

definition claimAttempts :: nat where "claimAttempts = 3"
definition MaxKeyLength :: nat where "MaxKeyLength = 255"
definition DefaultRetention :: duration where "DefaultRetention = 24 * hour"
definition DefaultLockTTL :: duration where "DefaultLockTTL = 5 * minute"
definition DefaultMaxResponseBytes :: int where "DefaultMaxResponseBytes = 1048576"

datatype idem_error = ErrInProgress | ErrKeyReused | ErrLockLost | ErrRequired | ErrHeader | ErrDeleteLimit

type_synonym Header = "string \<rightharpoonup> string list"

record 'j header_api =
  encode_header :: "Header \<Rightarrow> 'j option"
  decode_header :: "'j \<Rightarrow> Header option"

record Response =
  rs_Status :: int
  rs_Header :: Header
  rs_Body :: string

record Lock =
  lk_id :: string
  lk_token :: string

datatype claim = Locked Lock | Stored Response

text \<open>The store: its retention, read anew on every use, its lock TTL and the header encoding.\<close>

record 'j Store =
  st_retention :: duration
  st_lockTTL :: duration
  st_headers :: "'j header_api"

definition sess :: "('db \<Rightarrow> ('e goerr + 'a) \<times> 'db) \<Rightarrow> ('db, 'x, 'e, 'a) comp" where
  "sess f w = stmt f (interfere w)"

definition keyID :: "(string \<Rightarrow> string) \<Rightarrow> string \<Rightarrow> string \<Rightarrow> string" where
  "keyID sha256 sc key = sha256 (sc @ [CHR 0x00] @ key)"

definition Fingerprint :: "(string \<Rightarrow> string) \<Rightarrow> string \<Rightarrow> string \<Rightarrow> string \<Rightarrow> string" where
  "Fingerprint sha256 method target body = sha256 (method @ [CHR 0x00] @ target @ [CHR 0x00] @ sha256 body)"

type_synonym ('j, 'x, 'a) idem = "('j keys_db, 'x, idem_error, 'a) comp"

definition stored_response :: "'j Store \<Rightarrow> 'j key_row \<Rightarrow> int \<Rightarrow> ('j, 'x, claim) idem" where
  "stored_response st row status =
     (case k_header row of
        None \<Rightarrow> retC (Stored \<lparr>rs_Status = status, rs_Header = Map.empty, rs_Body = k_body row\<rparr>)
      | Some j \<Rightarrow>
          (case decode_header (st_headers st) j of
             None \<Rightarrow> failC (Err ErrHeader)
           | Some h \<Rightarrow> retC (Stored \<lparr>rs_Status = status, rs_Header = h, rs_Body = k_body row\<rparr>)))"

fun claim_loop :: "nat \<Rightarrow> 'j Store \<Rightarrow> Lock \<Rightarrow> string \<Rightarrow> ('j, 'x, claim) idem" where
  "claim_loop 0 st lock fp = failC (Err ErrInProgress)"
| "claim_loop (Suc n) st lock fp =
     bindC (sess (\<lambda>d. let (claimed, d') = claimKey (lk_id lock) fp (lk_token lock) (st_lockTTL st) (st_retention st) d in (Inr claimed, d')))
       (\<lambda>claimed. if claimed then retC (Locked lock)
          else bindC (sess (\<lambda>d. (Inr (find_key (lk_id lock) d), d)))
            (\<lambda>row. case row of
                None \<Rightarrow> claim_loop n st lock fp
              | Some row \<Rightarrow>
                  if k_fingerprint row \<noteq> fp then failC (Err ErrKeyReused)
                  else case k_status row of
                    None \<Rightarrow> failC (Err ErrInProgress)
                  | Some status \<Rightarrow> stored_response st row status))"

definition Claim :: "(string \<Rightarrow> string) \<Rightarrow> 'j Store \<Rightarrow> string \<Rightarrow> string \<Rightarrow> string \<Rightarrow> string \<Rightarrow> ('j, 'x, claim) idem" where
  "Claim sha st sc key fp token =
     (if sc = [] \<or> key = [] \<or> fp = [] then failC (Err ErrRequired)
      else claim_loop claimAttempts st \<lparr>lk_id = keyID sha sc key, lk_token = token\<rparr> fp)"

definition Complete :: "'j Store \<Rightarrow> Lock \<Rightarrow> Response \<Rightarrow> ('j, 'x, unit) idem" where
  "Complete st lock resp =
     (case encode_header (st_headers st) (rs_Header resp) of
        None \<Rightarrow> failC (Err ErrHeader)
      | Some j \<Rightarrow>
          bindC (sess (\<lambda>d. let (n, d') = completeKey (lk_id lock) (lk_token lock) (rs_Status resp) j (rs_Body resp) d in (Inr n, d')))
            (\<lambda>n. if n = 0 then failC (Err ErrLockLost) else retC ()))"

definition Release :: "Lock \<Rightarrow> ('j, 'x, unit) idem" where
  "Release lock = sess (\<lambda>d. (Inr (), releaseKey (lk_id lock) (lk_token lock) d))"

definition idem_DeleteExpired :: "'j Store \<Rightarrow> int \<Rightarrow> ('j, 'x, nat) idem" where
  "idem_DeleteExpired st limit =
     (if limit < 1 then failC (Err ErrDeleteLimit)
      else sess (\<lambda>d. let (n, d') = deleteExpired (st_retention st) (nat limit) d in (Inr n, d')))"

definition Oldest :: "('j, 'x, time option) idem" where
  "Oldest = sess (\<lambda>d. (Inr (if k_rows d = [] then None else Some (Min (set (map k_created_at (k_rows d))))), d))"

section \<open>The recorder\<close>

definition Values :: "Header \<Rightarrow> string \<Rightarrow> string list" where
  "Values h name = (case h (CanonicalHeaderKey name) of None \<Rightarrow> [] | Some vs \<Rightarrow> vs)"

definition replayedHeaders :: "string list" where
  "replayedHeaders = [''Content-Type'', ''Location'', ''ETag'']"

definition releasedStatuses :: "int list" where
  "releasedStatuses = [401, 403, 408, 429]"

text \<open>\<open>strings.EqualFold\<close> with an ASCII text: the Unicode folds onto ASCII are those of the long s and the
  Kelvin sign.\<close>

definition fold_rune :: "nat \<Rightarrow> nat" where
  "fold_rune r = (if 65 \<le> r \<and> r \<le> 90 then r + 32 else if r = 383 then 115 else if r = 8490 then 107 else r)"

definition EqualFold_ascii :: "string \<Rightarrow> string \<Rightarrow> bool" where
  "EqualFold_ascii s t = (map fold_rune (runes s) = map fold_rune (runes t))"

definition noStore :: "Header \<Rightarrow> bool" where
  "noStore h = (\<exists>v \<in> set (Values h ''Cache-Control''). \<exists>directive \<in> set (split_on CHR '','' v).
     EqualFold_ascii (TrimSpace directive) ''no-store'')"

record recorder =
  rc_max :: int
  rc_live :: Header
  rc_status :: int
  rc_header :: Header
  rc_body :: string
  rc_unstorable :: bool
  rc_overflow :: bool

definition kept_headers :: "Header \<Rightarrow> Header" where
  "kept_headers h = (\<lambda>n. if n \<in> CanonicalHeaderKey ` set replayedHeaders \<and> Values h n \<noteq> [] then h n else None)"

definition snapshot :: "int \<Rightarrow> recorder \<Rightarrow> recorder" where
  "snapshot status r = r\<lparr>rc_status := status,
     rc_unstorable := Values (rc_live r) ''Set-Cookie'' \<noteq> [] \<or> noStore (rc_live r),
     rc_header := kept_headers (rc_live r)\<rparr>"

definition rec_WriteHeader :: "int \<Rightarrow> recorder \<Rightarrow> recorder" where
  "rec_WriteHeader status r = (if rc_status r = 0 \<and> status \<ge> 200 then snapshot status r else r)"

definition rec_Write :: "string \<Rightarrow> recorder \<Rightarrow> recorder" where
  "rec_Write b r =
     (let r = (if rc_status r = 0 then rec_WriteHeader 200 r else r) in
      if rc_overflow r then r
      else if int (length (rc_body r) + length b) > rc_max r then r\<lparr>rc_overflow := True, rc_body := []\<rparr>
      else r\<lparr>rc_body := rc_body r @ b\<rparr>)"

text \<open>What a handler does with its response writer, and \<open>DontStore\<close>.\<close>

datatype wcall = SetHeader string "string list" | WriteHeader int | Write string | DontStore

fun rec_call :: "recorder \<Rightarrow> wcall \<Rightarrow> recorder" where
  "rec_call r (SetHeader name vs) = r\<lparr>rc_live := (rc_live r)(CanonicalHeaderKey name \<mapsto> vs)\<rparr>"
| "rec_call r (WriteHeader status) = rec_WriteHeader status r"
| "rec_call r (Write b) = rec_Write b r"
| "rec_call r DontStore = r"

definition new_recorder :: "int \<Rightarrow> Header \<Rightarrow> recorder" where
  "new_recorder mx h = \<lparr>rc_max = mx, rc_live = h, rc_status = 0, rc_header = Map.empty, rc_body = [],
     rc_unstorable = False, rc_overflow = False\<rparr>"

text \<open>\<open>storable\<close> first settles a response that was never written as a 200.\<close>

definition settle :: "recorder \<Rightarrow> recorder" where
  "settle r = (if rc_status r = 0 then snapshot 200 r else r)"

definition storable :: "recorder \<Rightarrow> bool" where
  "storable r =
     (let r = settle r in rc_status r < 500 \<and> rc_status r \<notin> set releasedStatuses \<and> \<not> rc_unstorable r \<and> \<not> rc_overflow r)"

definition response :: "recorder \<Rightarrow> Response" where
  "response r = \<lparr>rs_Status = rc_status r, rs_Header = rc_header r, rs_Body = rc_body r\<rparr>"

section \<open>The middleware\<close>

text \<open>A request: \<open>rq_body\<close> is the body and whether reading it failed at its end.\<close>

record idem_request =
  rq_method :: string
  rq_keys :: "string list"
  rq_uri :: string
  rq_body :: "string \<times> bool"
  rq_ctx :: ctx

datatype outcome = Returned | Panicked

type_synonym 'x handler = "idem_request \<Rightarrow> 'x \<Rightarrow> (wcall list \<times> outcome) \<times> 'x"

datatype served = Problem int string | Replayed Response | Ran "wcall list" outcome

record options =
  op_skip :: "idem_request \<Rightarrow> bool"
  op_scope :: "idem_request \<Rightarrow> string option"
  op_maxResponseBytes :: int

definition ActorScope :: "idem_request \<Rightarrow> string option" where
  "ActorScope r =
     (case From (rq_ctx r) of
        None \<Rightarrow> None
      | Some a \<Rightarrow> if a_ID a = [] \<or> (a_Kind a \<noteq> KindUser \<and> a_Kind a \<noteq> KindService) then None
                   else Some (a_Kind a @ '':'' @ a_ID a))"

definition default_options :: options where
  "default_options = \<lparr>op_skip = (\<lambda>_. False), op_scope = ActorScope, op_maxResponseBytes = DefaultMaxResponseBytes\<rparr>"

definition validKey :: "string \<Rightarrow> bool" where
  "validKey key = (key \<noteq> [] \<and> length key \<le> MaxKeyLength \<and> list_all (\<lambda>c. 33 \<le> byte c \<and> byte c \<le> 126) key)"

definition run_handler :: "'x handler \<Rightarrow> idem_request \<Rightarrow> ('j, 'x, wcall list \<times> outcome) idem" where
  "run_handler nxt r w = (let (res, x) = nxt r (ext w) in (Inr res, w\<lparr>ext := x\<rparr>))"

text \<open>The deferred part of \<open>serve\<close>; its errors are only logged.\<close>

definition finish :: "'j Store \<Rightarrow> Lock \<Rightarrow> recorder \<Rightarrow> wcall list \<Rightarrow> outcome \<Rightarrow> ('j, 'x, unit) idem" where
  "finish st lock r calls out =
     bindC (tryC (if out \<noteq> Returned \<or> \<not> storable r \<or> DontStore \<in> set calls then Release lock
                  else Complete st lock (response (settle r)))) (\<lambda>_. retC ())"

definition serve :: "(string \<Rightarrow> string) \<Rightarrow> 'j Store \<Rightarrow> options \<Rightarrow> 'x handler \<Rightarrow> idem_request \<Rightarrow> Header \<Rightarrow> string \<Rightarrow> string \<Rightarrow> string \<Rightarrow> string \<Rightarrow>
    ('j, 'x, served) idem" where
  "serve sha st opts nxt r h sc key fp token =
     bindC (tryC (Claim sha st sc key fp token)) (\<lambda>c. case c of
         Inl e \<Rightarrow>
           if errors_is e ErrKeyReused then retC (Problem 422 ''idempotency_key_reused'')
           else if errors_is e ErrInProgress then retC (Problem 409 ''idempotency_in_progress'')
           else retC (Problem 503 ''unavailable'')
       | Inr (Stored resp) \<Rightarrow> retC (Replayed resp)
       | Inr (Locked lock) \<Rightarrow>
           bindC (run_handler nxt r) (\<lambda>(calls, out).
             bindC (finish st lock (foldl rec_call (new_recorder (op_maxResponseBytes opts) h) calls) calls out) (\<lambda>_.
               retC (Ran calls out))))"

text \<open>\<open>h\<close> holds the headers the middleware before this one has set.\<close>

definition idem_Middleware :: "(string \<Rightarrow> string) \<Rightarrow> 'j Store \<Rightarrow> options \<Rightarrow> 'x handler \<Rightarrow> idem_request \<Rightarrow> Header \<Rightarrow> string \<Rightarrow>
    ('j, 'x, served) idem" where
  "idem_Middleware sha st opts nxt r h token =
     (let pass = bindC (run_handler nxt r) (\<lambda>(calls, out). retC (Ran calls out)) in
      if rq_keys r = [] \<or> (rq_method r \<noteq> ''POST'' \<and> rq_method r \<noteq> ''PATCH'') \<or> op_skip opts r then pass
      else case op_scope opts r of
        None \<Rightarrow> pass
      | Some sc \<Rightarrow>
          if length (rq_keys r) \<noteq> 1 \<or> \<not> validKey (hd (rq_keys r)) then retC (Problem 400 ''invalid_idempotency_key'')
          else if snd (rq_body r) then pass
          else serve sha st opts nxt r h sc (hd (rq_keys r)) (Fingerprint sha (rq_method r) (rq_uri r) (fst (rq_body r))) token)"

section \<open>What the statements leave of a key\<close>

lemma find_map_keep:
  "(\<And>r. q (g r) = q r) \<Longrightarrow> List.find q (map g rs) = map_option g (List.find q rs)"
  by (induction rs) auto

lemma find_filter_key:
  "distinct (map key rs) \<Longrightarrow> List.find (\<lambda>r. key r = i) (filter p rs) =
    (case List.find (\<lambda>r. key r = i) rs of None \<Rightarrow> None | Some r \<Rightarrow> if p r then Some r else None)"
proof (induction rs)
  case (Cons a rs)
  then have "List.find (\<lambda>r. key r = key a) rs = None" by (auto simp: find_None_iff image_iff)
  with Cons show ?case by auto
qed simp

lemma find_snoc: "List.find q (rs @ [r]) = (case List.find q rs of None \<Rightarrow> if q r then Some r else None | Some x \<Rightarrow> Some x)"
  by (induction rs) auto

lemma find_key_iff:
  assumes "keys_ok d" shows "find_key i d = Some k \<longleftrightarrow> k \<in> set (k_rows d) \<and> k_id k = i"
proof
  assume "find_key i d = Some k"
  then show "k \<in> set (k_rows d) \<and> k_id k = i" by (auto simp: find_key_def dest: find_SomeD)
next
  assume k: "k \<in> set (k_rows d) \<and> k_id k = i"
  then obtain k' where k': "find_key i d = Some k'"
    by (cases "find_key i d") (auto simp: find_key_def dest: find_NoneD)
  then have "k' \<in> set (k_rows d)" "k_id k' = i" by (auto simp: find_key_def dest: find_SomeD)
  with k assms have "k' = k" using distinct_map_unique [of k_id "k_rows d" k' k] by (simp add: keys_ok_def)
  with k' show "find_key i d = Some k" by simp
qed

lemma find_key_id: "find_key i d = Some k \<Longrightarrow> k_id k = i"
  by (auto simp: find_key_def dest: find_SomeD)

lemma find_claim:
  assumes "claimKey j fp tok ttl r d = (ok, d')"
  shows "find_key i d' = (if ok \<and> i = j then Some (claimed_row j fp tok ttl (k_now d)) else find_key i d)"
    and "k_now d' = k_now d" and "keys_ok d \<Longrightarrow> keys_ok d'"
proof -
  have upd: "List.find (\<lambda>k. k_id k = i) (update_where (\<lambda>k. k_id k = j) (\<lambda>_. claimed_row j fp tok ttl (k_now d)) (k_rows d)) =
    map_option (\<lambda>k. if k_id k = j then claimed_row j fp tok ttl (k_now d) else k) (find_key i d)"
    unfolding update_where_def find_key_def by (rule find_map_keep) (auto simp: claimed_row_def)
  show "find_key i d' = (if ok \<and> i = j then Some (claimed_row j fp tok ttl (k_now d)) else find_key i d)"
  proof (cases "find_key j d")
    case None
    then show ?thesis using assms
      by (auto simp: claimKey_def Let_def find_key_def claimed_row_def find_snoc split: option.splits)
  next
    case (Some k)
    show ?thesis
    proof (cases "claimable fp r (k_now d) k")
      case True
      with assms Some have "ok" "find_key i d' = map_option (\<lambda>k. if k_id k = j then claimed_row j fp tok ttl (k_now d) else k) (find_key i d)"
        using upd by (auto simp: claimKey_def Let_def find_key_def)
      with Some show ?thesis using find_key_id [of i d] by (cases "find_key i d") auto
    qed (use assms Some in \<open>auto simp: claimKey_def Let_def\<close>)
  qed
  show "k_now d' = k_now d" using assms by (auto simp: claimKey_def Let_def split: option.splits if_splits)
  show "keys_ok d \<Longrightarrow> keys_ok d'" using assms
    by (auto simp: claimKey_def Let_def keys_ok_def claimed_row_def update_where_def find_key_def find_None_iff comp_def
        if_distrib cong: if_cong split: option.splits if_splits)
qed

text \<open>What completing makes of a row.\<close>

definition completed :: "string \<Rightarrow> string \<Rightarrow> int \<Rightarrow> 'j \<Rightarrow> string \<Rightarrow> 'j key_row \<Rightarrow> 'j key_row" where
  "completed j tok status header body k =
     (if k_id k = j \<and> k_lock_token k = Some tok
      then k\<lparr>k_status := Some status, k_header := Some header, k_body := body, k_lock_token := None, k_locked_until := None\<rparr>
      else k)"

lemma find_complete:
  assumes "completeKey j tok status header body d = (n, d')"
  shows "find_key i d' = map_option (completed j tok status header body) (find_key i d)"
    and "k_now d' = k_now d" and "keys_ok d \<Longrightarrow> keys_ok d'"
proof -
  have d': "d' = d\<lparr>k_rows := map (completed j tok status header body) (k_rows d)\<rparr>"
    using assms by (auto simp: completeKey_def Let_def update_where_def completed_def [abs_def])
  have id: "k_id (completed j tok status header body k) = k_id k" for k by (simp add: completed_def)
  show "find_key i d' = map_option (completed j tok status header body) (find_key i d)"
    unfolding d' find_key_def by (simp add: find_map_keep id)
  show "k_now d' = k_now d" "keys_ok d \<Longrightarrow> keys_ok d'" by (simp_all add: d' keys_ok_def comp_def id)
qed

lemma completeKey_hits:
  assumes "completeKey j tok status header body d = (n, d')" "keys_ok d"
  shows "n \<noteq> 0 \<longleftrightarrow> (\<exists>k. find_key j d = Some k \<and> k_lock_token k = Some tok)"
proof -
  have "n \<noteq> 0 \<longleftrightarrow> (\<exists>k \<in> set (k_rows d). k_id k = j \<and> k_lock_token k = Some tok)"
    using assms(1) count_where_pos by (auto simp: completeKey_def Let_def simp flip: neq0_conv)
  also have "\<dots> \<longleftrightarrow> (\<exists>k. find_key j d = Some k \<and> k_lock_token k = Some tok)"
    by (auto simp: find_key_iff [OF assms(2)])
  finally show ?thesis .
qed

lemma find_release:
  assumes "keys_ok d"
  shows "find_key i (releaseKey j tok d) =
      (case find_key i d of None \<Rightarrow> None | Some k \<Rightarrow> if i = j \<and> k_lock_token k = Some tok then None else Some k)"
    and "k_now (releaseKey j tok d) = k_now d" and "keys_ok (releaseKey j tok d)"
proof -
  have "find_key i (releaseKey j tok d) =
      (case find_key i d of None \<Rightarrow> None | Some k \<Rightarrow> if \<not> (k_id k = j \<and> k_lock_token k = Some tok) then Some k else None)"
    using assms unfolding releaseKey_def find_key_def keys_ok_def by (simp add: find_filter_key cong: option.case_cong)
  then show "find_key i (releaseKey j tok d) =
      (case find_key i d of None \<Rightarrow> None | Some k \<Rightarrow> if i = j \<and> k_lock_token k = Some tok then None else Some k)"
    using find_key_id [of i d] by (cases "find_key i d") auto
  show "k_now (releaseKey j tok d) = k_now d" "keys_ok (releaseKey j tok d)"
    using assms by (simp_all add: releaseKey_def keys_ok_def distinct_map_filterI)
qed

lemma find_delete:
  assumes "keys_ok d" "deleteExpired r limit d = (n, d')"
  shows "find_key i d' = None \<or> find_key i d' = find_key i d"
    and "find_key i d = Some k \<Longrightarrow> k_now d < k_created_at k + Microseconds r \<Longrightarrow> find_key i d' = Some k"
    and "k_now d' = k_now d" and "keys_ok d'"
proof -
  define gone where "gone = take limit (sort_key k_created_at (filter (\<lambda>k. k_created_at k \<le> k_now d - Microseconds r) (k_rows d)))"
  have d': "d' = d\<lparr>k_rows := filter (\<lambda>k. k_id k \<notin> k_id ` set gone) (k_rows d)\<rparr>"
    using assms(2) by (auto simp: deleteExpired_def gone_def Let_def)
  have old: "k \<in> set (k_rows d) \<and> k_created_at k \<le> k_now d - Microseconds r" if "k \<in> set gone" for k
    using that by (auto simp: gone_def dest!: in_set_takeD)
  have find: "find_key i d' = (case find_key i d of None \<Rightarrow> None | Some k \<Rightarrow> if k_id k \<notin> k_id ` set gone then Some k else None)"
    using find_filter_key [of k_id "k_rows d" i] assms(1) by (simp add: d' find_key_def keys_ok_def)
  then show "find_key i d' = None \<or> find_key i d' = find_key i d" by (auto split: option.splits)
  show "find_key i d' = Some k" if k: "find_key i d = Some k" "k_now d < k_created_at k + Microseconds r"
  proof -
    have "k' = k" if "k' \<in> set gone" "k_id k' = k_id k" for k'
    proof -
      have "k' \<in> set (k_rows d) \<and> k_id k' = i" using old [OF that(1)] that(2) find_key_id [OF k(1)] by simp
      then have "find_key i d = Some k'" by (simp only: find_key_iff [OF assms(1)])
      with k(1) show ?thesis by simp
    qed
    moreover have "k \<notin> set gone" using old [of k] k(2) by auto
    ultimately have "k_id k \<notin> k_id ` set gone" by (metis imageE)
    with find k(1) show ?thesis by simp
  qed
  show "k_now d' = k_now d" "keys_ok d'" using assms(1) by (simp_all add: d' keys_ok_def distinct_map_filterI)
qed

lemmas find_stmts = find_claim find_complete find_release find_delete

section \<open>Interleavings\<close>

text \<open>
  What the sessions of all instances do to the table, one statement after another in the order the database
  runs them, and time passing in between. Every statement carries the lock TTL and the retention its instance
  reads. The result says whether a claim or a completion succeeded.
\<close>

datatype 'j kstmt =
    S_claim string string string duration duration
  | S_complete string string int 'j string
  | S_release string string
  | S_delete duration nat
  | S_tick duration

fun kexec1 :: "'j kstmt \<Rightarrow> 'j keys_db \<Rightarrow> bool \<times> 'j keys_db" where
  "kexec1 (S_claim i fp tok ttl r) d = claimKey i fp tok ttl r d"
| "kexec1 (S_complete i tok status header body) d = (case completeKey i tok status header body d of (n, d') \<Rightarrow> (n \<noteq> 0, d'))"
| "kexec1 (S_release i tok) d = (True, releaseKey i tok d)"
| "kexec1 (S_delete r limit) d = (case deleteExpired r limit d of (n, d') \<Rightarrow> (True, d'))"
| "kexec1 (S_tick t) d = (True, d\<lparr>k_now := k_now d + max 0 t\<rparr>)"

fun kexec :: "'j kstmt list \<Rightarrow> 'j keys_db \<Rightarrow> bool list \<times> 'j keys_db" where
  "kexec [] d = ([], d)"
| "kexec (s # ss) d = (let (ok, d1) = kexec1 s d; (oks, d2) = kexec ss d1 in (ok # oks, d2))"

text \<open>The least retention, in whole microseconds, a statement works with.\<close>

fun retains :: "duration \<Rightarrow> 'j kstmt \<Rightarrow> bool" where
  "retains R (S_claim i fp tok ttl r) = (R \<le> Microseconds r)"
| "retains R (S_delete r limit) = (R \<le> Microseconds r)"
| "retains R _ = True"

lemma kexec1_keeps:
  assumes "keys_ok d"
  shows "keys_ok (snd (kexec1 s d)) \<and> k_now d \<le> k_now (snd (kexec1 s d))"
proof (cases s)
  case (S_claim i fp tok ttl r)
  then show ?thesis using assms by (cases "claimKey i fp tok ttl r d") (simp add: find_claim)
next
  case (S_complete i tok st h b)
  then show ?thesis using assms by (cases "completeKey i tok st h b d") (simp add: find_complete)
next
  case (S_release i tok)
  then show ?thesis using assms by (simp add: find_release)
next
  case (S_delete r n)
  then show ?thesis using assms by (cases "deleteExpired r n d") (simp add: find_delete)
qed (use assms in \<open>simp add: keys_ok_def\<close>)

lemma kexec_inv:
  assumes "\<And>s d. s \<in> set ss \<Longrightarrow> P d \<Longrightarrow> P (snd (kexec1 s d))" "P d" "kexec ss d = (oks, d')"
  shows "P d'"
  using assms by (induction ss arbitrary: d oks) (fastforce split: prod.splits)+

lemma kexec_split:
  assumes "kexec ss d = (oks, d')" "(s, ok) \<in> set (zip ss oks)"
  shows "\<exists>ss1 ss2 oks1 oks2 d1 d2. ss = ss1 @ s # ss2 \<and> kexec ss1 d = (oks1, d1) \<and> kexec1 s d1 = (ok, d2) \<and> kexec ss2 d2 = (oks2, d')"
  using assms
proof (induction ss arbitrary: d oks)
  case (Cons x ss)
  obtain o1 d1 oks2 where x: "kexec1 x d = (o1, d1)" "kexec ss d1 = (oks2, d')" "oks = o1 # oks2"
    using Cons.prems(1) by (auto split: prod.splits)
  show ?case
  proof (cases "(s, ok) = (x, o1)")
    case True
    then have "x # ss = [] @ s # ss \<and> kexec [] d = ([], d) \<and> kexec1 s d = (ok, d1) \<and> kexec ss d1 = (oks2, d')"
      using x by simp
    then show ?thesis by blast
  next
    case False
    with Cons.prems(2) x(3) have "(s, ok) \<in> set (zip ss oks2)" by auto
    from Cons.IH [OF x(2) this] obtain ss1 ss2 oks1 oks3 d2 d3 where
      "ss = ss1 @ s # ss2" "kexec ss1 d1 = (oks1, d2)" "kexec1 s d2 = (ok, d3)" "kexec ss2 d3 = (oks3, d')" by blast
    with x have "x # ss = (x # ss1) @ s # ss2 \<and> kexec (x # ss1) d = (o1 # oks1, d2) \<and> kexec1 s d2 = (ok, d3) \<and> kexec ss2 d3 = (oks3, d')"
      by simp
    then show ?thesis by blast
  qed
qed simp

text \<open>A key held since \<open>t0\<close> under a token until \<open>u\<close>, or completed.\<close>

definition held :: "string \<Rightarrow> string \<Rightarrow> time \<Rightarrow> time \<Rightarrow> 'j keys_db \<Rightarrow> bool" where
  "held i tok t0 u d \<longleftrightarrow> (\<exists>k. find_key i d = Some k \<and> k_created_at k = t0 \<and>
     (k_lock_token k = Some tok \<and> k_locked_until k = Some u \<and> k_status k = None \<or> k_lock_token k = None \<and> k_status k \<noteq> None))"

lemma held_step:
  assumes "held i tok t0 u d" "keys_ok d" "k_now d < t0 + R" "k_now d < u" "retains R s" "s \<noteq> S_release i tok"
  shows "held i tok t0 u (snd (kexec1 s d))"
proof -
  from assms(1) obtain k where k: "find_key i d = Some k" "k_created_at k = t0"
    "k_lock_token k = Some tok \<and> k_locked_until k = Some u \<and> k_status k = None \<or> k_lock_token k = None \<and> k_status k \<noteq> None"
    by (auto simp: held_def)
  show ?thesis
  proof (cases s)
    case (S_claim j fp tok' ttl r)
    have "\<not> claimable fp r (k_now d) k" using k(2,3) assms(3-5) S_claim by (auto simp: claimable_def)
    then have "\<not> (fst (claimKey j fp tok' ttl r d) \<and> i = j)" using k(1) by (auto simp: claimKey_def)
    with assms(1) show ?thesis using find_claim(1) [of j fp tok' ttl r d _ _ i] S_claim
      by (cases "claimKey j fp tok' ttl r d") (auto simp: held_def)
  next
    case (S_complete j tok' st h b)
    with k find_complete(1) [of j tok' st h b d _ _ i] show ?thesis
      by (cases "completeKey j tok' st h b d") (auto simp: held_def completed_def)
  next
    case (S_release j tok')
    with k assms(6) find_release(1) [OF assms(2), of i j tok'] show ?thesis by (auto simp: held_def)
  next
    case (S_delete r n)
    with k assms(3,5) find_delete(2) [OF assms(2) _ k(1)] show ?thesis
      by (cases "deleteExpired r n d") (auto simp: held_def)
  next
    case (S_tick t)
    with assms(1) show ?thesis by (simp add: held_def find_key_def)
  qed
qed

text \<open>A statement that works under the row's own token.\<close>

fun touches :: "'j key_row \<Rightarrow> 'j kstmt \<Rightarrow> bool" where
  "touches k (S_release j tok) = (k_id k = j \<and> k_lock_token k = Some tok)"
| "touches k (S_complete j tok status header body) = (k_id k = j \<and> k_lock_token k = Some tok)"
| "touches k _ = False"

text \<open>A key whose response is stored, or whose lock has not run out.\<close>

definition firm :: "time \<Rightarrow> 'j key_row \<Rightarrow> bool" where
  "firm now k \<longleftrightarrow> k_status k \<noteq> None \<or> (\<exists>u. k_locked_until k = Some u \<and> now < u)"

lemma firm_not_claimable: "firm now k \<Longrightarrow> now < k_created_at k + R \<Longrightarrow> R \<le> Microseconds r \<Longrightarrow> \<not> claimable fp r now k"
  by (auto simp: claimable_def firm_def)

lemma row_step:
  assumes "find_key i d = Some k" "keys_ok d" "firm (k_now d) k" "k_now d < k_created_at k + R" "retains R s" "\<not> touches k s"
  shows "find_key i (snd (kexec1 s d)) = Some k"
proof (cases s)
  case (S_claim j fp tok' ttl r)
  have "\<not> claimable fp r (k_now d) k" using firm_not_claimable [OF assms(3,4)] assms(5) S_claim by simp
  then have "\<not> (fst (claimKey j fp tok' ttl r d) \<and> i = j)" using assms(1) by (auto simp: claimKey_def)
  with assms(1) show ?thesis using find_claim(1) [of j fp tok' ttl r d _ _ i] S_claim
    by (cases "claimKey j fp tok' ttl r d") auto
next
  case (S_complete j tok' st h b)
  with assms find_complete(1) [of j tok' st h b d _ _ i] show ?thesis
    by (cases "completeKey j tok' st h b d") (auto simp: completed_def)
next
  case (S_release j tok')
  with assms find_release(1) [OF assms(2), of i j tok'] find_key_id [OF assms(1)] show ?thesis by auto
next
  case (S_delete r n)
  with assms find_delete(2) [OF assms(2) _ assms(1)] show ?thesis
    by (cases "deleteExpired r n d") auto
next
  case (S_tick t)
  with assms show ?thesis by (simp add: find_key_def)
qed

text \<open>Such a key stays as it is, whatever the other sessions do, until its retention is over.\<close>

lemma row_stays:
  assumes "find_key i d = Some k" "keys_ok d" "kexec ss d = (oks, d')" "firm (k_now d') k" "k_now d' < k_created_at k + R"
    "\<And>s. s \<in> set ss \<Longrightarrow> retains R s \<and> \<not> touches k s"
  shows "find_key i d' = Some k \<and> keys_ok d'"
proof -
  let ?P = "\<lambda>d. keys_ok d \<and> (firm (k_now d) k \<longrightarrow> k_now d < k_created_at k + R \<longrightarrow> find_key i d = Some k)"
  have "?P (snd (kexec1 s d))" if "s \<in> set ss" "?P d" for s d
  proof -
    have "firm (k_now d) k" if "firm (k_now (snd (kexec1 s d))) k"
      using that kexec1_keeps [of d s] \<open>?P d\<close> by (auto simp: firm_def)
    then show ?thesis using kexec1_keeps [of d s] row_step [of i d k R s] assms(6) that by fastforce
  qed
  from kexec_inv [of ss ?P, OF this _ assms(3)] assms(1,2,4,5) show ?thesis by auto
qed

lemma held_stays:
  assumes "held i tok t0 u d" "keys_ok d" "kexec ss d = (oks, d')"
    "\<And>s. s \<in> set ss \<Longrightarrow> retains R s" "S_release i tok \<notin> set ss" "k_now d' < t0 + R" "k_now d' < u"
  shows "held i tok t0 u d'"
proof -
  let ?P = "\<lambda>d. keys_ok d \<and> (k_now d < t0 + R \<longrightarrow> k_now d < u \<longrightarrow> held i tok t0 u d)"
  have "?P (snd (kexec1 s d))" if "s \<in> set ss" "?P d" for s d
  proof -
    have "s \<noteq> S_release i tok" using that(1) assms(5) by blast
    then show ?thesis using kexec1_keeps [of d s] held_step [of i tok t0 u d R s] assms(4) that by auto
  qed
  from kexec_inv [of ss ?P, OF this _ assms(3)] assms(1,2,6,7) show ?thesis by auto
qed

text \<open>A fresh token names one claim: the row it is on was claimed when the token was.\<close>

lemma token_stays:
  assumes "find_key i d = Some k" "k_created_at k = t0" "keys_ok d" "kexec ss d = (oks, d')"
    "\<And>j fp ttl r. S_claim j fp tok ttl r \<notin> set ss" "find_key i d' = Some k'" "k_lock_token k' = Some tok"
  shows "k_created_at k' = t0"
proof -
  let ?P = "\<lambda>d. keys_ok d \<and> (\<forall>k. find_key i d = Some k \<longrightarrow> k_lock_token k = Some tok \<longrightarrow> k_created_at k = t0)"
  have "?P (snd (kexec1 s d))" if s: "s \<in> set ss" and P: "?P d" for s d
  proof
    show ok: "keys_ok (snd (kexec1 s d))" using kexec1_keeps P by blast
    show "\<forall>k. find_key i (snd (kexec1 s d)) = Some k \<longrightarrow> k_lock_token k = Some tok \<longrightarrow> k_created_at k = t0"
    proof (cases s)
      case (S_claim j fp tok' ttl r)
      with s assms(5) have "tok' \<noteq> tok" by blast
      with P S_claim find_claim(1) [of j fp tok' ttl r d _ _ i] show ?thesis
        by (cases "claimKey j fp tok' ttl r d") (auto simp: claimed_row_def)
    next
      case (S_complete j tok' st h b)
      with P find_complete(1) [of j tok' st h b d _ _ i] show ?thesis
        by (cases "completeKey j tok' st h b d") (auto simp: completed_def)
    next
      case (S_release j tok')
      with P find_release(1) [of d i j tok'] show ?thesis by (auto split: option.splits if_splits)
    next
      case (S_delete r n)
      with P find_delete(1) [of d r n _ _ i] show ?thesis by (cases "deleteExpired r n d") fastforce
    next
      case (S_tick t)
      with P show ?thesis by (simp add: find_key_def)
    qed
  qed
  from kexec_inv [of ss ?P, OF this _ assms(4)] assms(1-3,6,7) show ?thesis by auto
qed

lemma claimKey_refused:
  assumes "find_key i d = Some k" "firm (k_now d) k" "k_now d < k_created_at k + R" "R \<le> Microseconds r"
  shows "claimKey i fp tok ttl r d = (False, d)"
  using assms(1) firm_not_claimable [OF assms(2-4)] by (simp add: claimKey_def)

lemma completed_firm:
  assumes "kexec1 (S_complete i tok st h b) d = (True, d')" "keys_ok d"
  shows "\<exists>k k'. find_key i d = Some k \<and> k_lock_token k = Some tok \<and> find_key i d' = Some k' \<and>
    k_created_at k' = k_created_at k \<and> k_lock_token k' = None \<and> k_status k' = Some st"
proof -
  obtain n where n: "completeKey i tok st h b d = (n, d')" "n \<noteq> 0" using assms(1) by (auto split: prod.splits)
  from completeKey_hits [OF n(1) assms(2)] n(2) obtain k where k: "find_key i d = Some k" "k_lock_token k = Some tok" by auto
  with find_complete(1) [OF n(1), of i] find_key_id [OF k(1)] show ?thesis by (auto simp: completed_def)
qed

text \<open>
  C15: a key runs its request once. Take a claim that succeeded with a fresh token, and any later claim of the same
  key that succeeds, with any statements of any sessions in between: then the first request released the key, or the
  least retention any session works with has passed since the first claim, or the lock TTL has passed and the first
  request never stored its response. In particular a request whose response is stored is never run again
  within the retention.
\<close>

theorem claims_once:
  assumes "keys_ok d" "claimKey i fp tok ttl r d = (True, d1)" "kexec ss d1 = (oks, d2)"
    "claimKey i fp' tok' ttl' r' d2 = (True, d3)" "\<And>s. s \<in> set ss \<Longrightarrow> retains R s" "R \<le> Microseconds r'"
    "\<And>j fp ttl r. S_claim j fp tok ttl r \<notin> set ss"
  shows "S_release i tok \<in> set ss \<or> k_now d + R \<le> k_now d2 \<or>
    k_now d + Microseconds ttl \<le> k_now d2 \<and> (\<forall>st h b. (S_complete i tok st h b, True) \<notin> set (zip ss oks))"
proof (rule ccontr)
  assume "\<not> ?thesis"
  then have rel: "S_release i tok \<notin> set ss" and now: "k_now d2 < k_now d + R"
    and either: "k_now d2 < k_now d + Microseconds ttl \<or> (\<exists>st h b. (S_complete i tok st h b, True) \<in> set (zip ss oks))" by auto
  define row where "row = (claimed_row i fp tok ttl (k_now d) :: 'a key_row)"
  have d1: "find_key i d1 = Some row" "keys_ok d1" using find_claim [OF assms(2)] assms(1) by (simp_all add: row_def)
  have row: "k_created_at row = k_now d" by (simp add: row_def claimed_row_def)
  have "\<exists>k. find_key i d2 = Some k \<and> firm (k_now d2) k \<and> k_created_at k = k_now d"
  proof (cases "k_now d2 < k_now d + Microseconds ttl")
    case True
    have "held i tok (k_now d) (k_now d + Microseconds ttl) d1" using d1 by (simp add: held_def row_def claimed_row_def)
    from held_stays [OF this d1(2) assms(3,5) rel now True] True show ?thesis by (auto simp: held_def firm_def)
  next
    case False
    with either obtain st h b where "(S_complete i tok st h b, True) \<in> set (zip ss oks)" by auto
    from kexec_split [OF assms(3) this] obtain ss1 ss2 oks1 oks2 da da' where sp: "ss = ss1 @ S_complete i tok st h b # ss2"
      "kexec ss1 d1 = (oks1, da)" "kexec1 (S_complete i tok st h b) da = (True, da')" "kexec ss2 da' = (oks2, d2)" by blast
    have ok: "keys_ok da" "keys_ok da'"
      using kexec_inv [of ss1 keys_ok, OF _ d1(2) sp(2)] kexec1_keeps [of da "S_complete i tok st h b"] kexec1_keeps sp(3) by auto
    from completed_firm [OF sp(3) ok(1)] obtain k k' where k: "find_key i da = Some k" "k_lock_token k = Some tok"
      "find_key i da' = Some k'" "k_created_at k' = k_created_at k" "k_lock_token k' = None" "k_status k' = Some st" by blast
    have "k_created_at k = k_now d"
      by (rule token_stays [OF d1(1) row d1(2) sp(2) _ k(1,2)]) (use assms(7) sp(1) in auto)
    moreover have untouched: "\<not> touches k' s" for s using k(5) by (cases s) auto
    ultimately have "find_key i d2 = Some k'"
      using row_stays [OF k(3) ok(2) sp(4), of R] k(4,6) now assms(5) sp(1) by (auto simp: firm_def)
    then show ?thesis using k(4,6) \<open>k_created_at k = k_now d\<close> by (auto simp: firm_def)
  qed
  with claimKey_refused [of i d2 _ R r'] now assms(4,6) show False by fastforce
qed

text \<open>An empty table at a moment, and the statements of one instance on it.\<close>

abbreviation (input) no_keys :: "unit keys_db" where "no_keys \<equiv> \<lparr>k_rows = [], k_now = 0\<rparr>"

theorem claims_once_witness:
  "k_now (no_keys) + 7000 \<le> k_now (snd (kexec [S_complete ''i'' ''t'' 201 () [], S_tick 8000] (snd (claimKey ''i'' ''f'' ''t'' 5000 7000 no_keys))))"
proof -
  define d1 where "d1 = snd (claimKey ''i'' ''f'' ''t'' 5000 7000 no_keys)"
  define d2 where "d2 = snd (kexec [S_complete ''i'' ''t'' 201 () [], S_tick 8000] d1)"
  have d1: "d1 = \<lparr>k_rows = [claimed_row ''i'' ''f'' ''t'' 5000 0], k_now = 0\<rparr>" by (simp add: d1_def claimKey_def find_key_def)
  have run: "kexec [S_complete ''i'' ''t'' 201 () [], S_tick 8000] d1 = ([True, True], d2)"
    by (simp add: d2_def d1 completeKey_def count_where_def claimed_row_def)
  have d2: "claimKey ''i'' ''f'' ''u'' 5000 7000 d2 = (True, snd (claimKey ''i'' ''f'' ''u'' 5000 7000 d2))"
    by (simp add: d2_def d1 completeKey_def count_where_def claimed_row_def claimKey_def find_key_def update_where_def
        claimable_def Microseconds_def)
  have c1: "claimKey ''i'' ''f'' ''t'' 5000 7000 no_keys = (True, d1)" by (simp add: d1 claimKey_def find_key_def)
  have ret: "retains 7000 s" if "s \<in> set [S_complete ''i'' ''t'' 201 () [], S_tick 8000]" for s using that by auto
  have "k_now no_keys + 7000 \<le> k_now d2"
    using claims_once [OF _ c1 run d2 ret]
    by (auto simp: keys_ok_def Microseconds_def)
  then show ?thesis by (simp only: d2_def d1_def)
qed

section \<open>Running and replaying\<close>

lemma sess_other:
  "faults w = [] \<Longrightarrow> others w = f # fs \<Longrightarrow> sess g w = (fst (g (f (db w))), w\<lparr>db := snd (g (f (db w))), others := fs\<rparr>)"
  by (simp add: sess_def interfere_def stmt_works)

lemma sess_alone: "faults w = [] \<Longrightarrow> others w = [] \<Longrightarrow> sess g w = (fst (g (db w)), w\<lparr>db := snd (g (db w))\<rparr>)"
  by (simp add: sess_def interfere_none stmt_works)

lemma Claim_free:
  assumes "faults w = []" "others w = f # fs" "sc \<noteq> []" "key \<noteq> []" "fp \<noteq> []"
    "claimKey (keyID sha sc key) fp tok (st_lockTTL st) (st_retention st) (f (db w)) = (True, d1)"
  shows "Claim sha st sc key fp tok w = (Inr (Locked \<lparr>lk_id = keyID sha sc key, lk_token = tok\<rparr>), w\<lparr>db := d1, others := fs\<rparr>)"
  using assms by (simp add: Claim_def claimAttempts_def numeral_3_eq_3 bindC_def retC_def sess_other)

lemma Claim_stored:
  assumes "faults w = []" "others w = []" "sc \<noteq> []" "key \<noteq> []" "fp \<noteq> []" "find_key (keyID sha sc key) (db w) = Some k"
    "k_fingerprint k = fp" "k_status k = Some status" "k_header k = Some j" "decode_header (st_headers st) j = Some h"
    "k_now (db w) < k_created_at k + R" "R \<le> Microseconds (st_retention st)"
  shows "Claim sha st sc key fp tok w = (Inr (Stored \<lparr>rs_Status = status, rs_Header = h, rs_Body = k_body k\<rparr>), w)"
proof -
  have "firm (k_now (db w)) k" using assms(8) by (simp add: firm_def)
  note refused = claimKey_refused [OF assms(6) this assms(11,12)]
  show ?thesis using assms(1-10)
    by (simp add: Claim_def claimAttempts_def numeral_3_eq_3 bindC_def retC_def sess_alone refused stored_response_def)
qed

text \<open>What \<open>serve\<close> does when it claims the key: other sessions run \<open>g\<close> while the handler does.\<close>

lemma serve_claimed:
  assumes "Claim sha st sc key fp tok w = (Inr (Locked lock), w\<lparr>db := d1, others := [g]\<rparr>)" "faults w = []"
    "nxt r (ext w) = ((calls, Returned), x)" "storable rec" "DontStore \<notin> set calls"
    "rec = foldl rec_call (new_recorder (op_maxResponseBytes opts) h) calls"
    "encode_header (st_headers st) (rs_Header (response (settle rec))) = Some j"
  shows "serve sha st opts nxt r h sc key fp tok w = (Inr (Ran calls Returned),
    w\<lparr>db := snd (completeKey (lk_id lock) (lk_token lock) (rc_status (settle rec)) j (rc_body (settle rec)) (g d1)), others := [], ext := x\<rparr>)"
  using assms
  by (simp add: serve_def bindC_def tryC_def run_handler_def finish_def Complete_def sess_other retC_def failC_def response_def
      split: prod.splits if_splits)

text \<open>
  C16: a retry gets the first answer, and nothing runs again. The first request with a key runs its handler, whose
  response is one to keep; other sessions run any statements meanwhile and afterwards, but not under this request's
  own token. The request finishes within the lock TTL. Then every request of the same caller with the same key and
  the same fingerprint that comes within the least retention any session works with is answered with the recorded
  status, headers and body; its own handler is not called and the table and the application stay as they are.
\<close>

theorem serve_replays:
  fixes w w1 w2 :: "('j keys_db, 'x) world"
  assumes "keys_ok (db w)" "find_key (keyID sha sc key) (db w) = None" "sc \<noteq> []" "key \<noteq> []" "fp \<noteq> []"
    "faults w = []" "others w = [id, \<lambda>d. snd (kexec during d)]"
    "nxt r (ext w) = ((calls, Returned), x)" "storable rec" "DontStore \<notin> set calls"
    "rec = foldl rec_call (new_recorder (op_maxResponseBytes opts) h) calls"
    "encode_header (st_headers st) (rs_Header (response (settle rec))) = Some j"
    "decode_header (st_headers st) j = Some (rs_Header (response (settle rec)))"
    "\<And>s. s \<in> set (during @ after) \<Longrightarrow> retains R s" "R \<le> Microseconds (st_retention st)"
    "\<And>s. s \<in> set during \<Longrightarrow> \<not> touches (claimed_row (keyID sha sc key) fp tok (st_lockTTL st) (k_now (db w))) s"
    "serve sha st opts nxt r h sc key fp tok w = (res, w1)"
    "k_now (db w1) < k_now (db w) + Microseconds (st_lockTTL st)"
    "kexec after (db w1) = (oks, db w2)" "faults w2 = []" "others w2 = []" "k_now (db w2) < k_now (db w) + R"
  shows "res = Inr (Ran calls Returned) \<and>
    serve sha st opts' nxt' r' h' sc key fp tok' w2 = (Inr (Replayed (response (settle rec))), w2)"
proof -
  let ?i = "keyID sha sc key" and ?resp = "response (settle rec)"
  define row :: "'j key_row" where "row = claimed_row ?i fp tok (st_lockTTL st) (k_now (db w))"
  have row: "k_id row = ?i" "k_created_at row = k_now (db w)" "k_lock_token row = Some tok"
    "k_locked_until row = Some (k_now (db w) + Microseconds (st_lockTTL st))" "k_fingerprint row = fp"
    by (simp_all add: row_def claimed_row_def)
  obtain d1 where d1: "claimKey ?i fp tok (st_lockTTL st) (st_retention st) (db w) = (True, d1)"
    using assms(2) by (simp add: claimKey_def Let_def)
  have f1: "find_key ?i d1 = Some row" "keys_ok d1" using find_claim [OF d1] assms(1) by (simp_all add: row_def)
  obtain oks' dm where m: "kexec during d1 = (oks', dm)" by fastforce
  have "Claim sha st sc key fp tok w = (Inr (Locked \<lparr>lk_id = ?i, lk_token = tok\<rparr>), w\<lparr>db := d1, others := [\<lambda>d. snd (kexec during d)]\<rparr>)"
    by (rule Claim_free [OF assms(6,7,3,4,5)]) (simp add: d1)
  note run = serve_claimed [where opts = opts and h = h and nxt = nxt, OF this assms(6,8-12)]
  obtain n de where c: "completeKey ?i tok (rc_status (settle rec)) j (rc_body (settle rec)) dm = (n, de)" by fastforce
  have w1: "res = Inr (Ran calls Returned)" "db w1 = de" using run assms(17) m c by auto
  have "k_now de = k_now dm" using find_complete(2) [OF c] .
  have mono: "k_now d \<le> k_now d'" if "kexec ss d = (os, d')" "keys_ok d" for ss os and d d' :: "'j keys_db"
    using kexec_inv [of ss "\<lambda>x. keys_ok x \<and> k_now d \<le> k_now x", OF _ _ that(1)] kexec1_keeps that(2) by (meson order_refl order_trans)
  have okm: "keys_ok dm" using kexec_inv [of during keys_ok, OF _ f1(2) m] kexec1_keeps by blast
  have oke: "keys_ok de" using find_complete(3) [OF c okm] .
  have late: "k_now dm < k_now (db w) + R" using mono [OF assms(19)] oke assms(22) w1(2) \<open>k_now de = k_now dm\<close> by simp
  have fm: "find_key ?i dm = Some row"
    using row_stays [OF f1(1,2) m, of R] late assms(14,16,18) w1(2) \<open>k_now de = k_now dm\<close> row by (auto simp: firm_def simp flip: row_def)
  define row' where "row' = completed ?i tok (rc_status (settle rec)) j (rc_body (settle rec)) row"
  have fe: "find_key ?i de = Some row'" using find_complete(1) [OF c, of ?i] fm by (simp add: row'_def)
  have row': "k_created_at row' = k_now (db w)" "k_lock_token row' = None" "k_status row' = Some (rc_status (settle rec))"
    "k_header row' = Some j" "k_body row' = rc_body (settle rec)" "k_fingerprint row' = fp"
    using row by (simp_all add: row'_def completed_def)
  have untouched: "\<not> touches row' s" for s using row'(2) by (cases s) auto
  have "find_key ?i (db w2) = Some row'"
    using row_stays [OF fe oke assms(19) [unfolded w1(2)], of R] assms(14,22) row' untouched by (auto simp: firm_def)
  from Claim_stored [OF assms(20,21,3-5) this row'(6,3,4) assms(13) _ assms(15)] assms(22) row'(1,5)
  have "Claim sha st sc key fp tok' w2 = (Inr (Stored ?resp), w2)" by (simp add: response_def)
  with w1 show ?thesis by (simp add: serve_def bindC_def tryC_def retC_def)
qed

text \<open>An application with one handler, and headers stored as they are.\<close>

definition demo_store :: "Header Store" where
  "demo_store = \<lparr>st_retention = DefaultRetention, st_lockTTL = DefaultLockTTL,
     st_headers = \<lparr>encode_header = Some, decode_header = Some\<rparr>\<rparr>"

definition demo_handler :: "nat handler" where
  "demo_handler = (\<lambda>r n. (([WriteHeader 201, Write ''ok''], Returned), n + 1))"

definition demo_request :: idem_request where
  "demo_request = \<lparr>rq_method = ''POST'', rq_keys = [''k1''], rq_uri = ''/orgs'', rq_body = ([], False), rq_ctx = Background\<rparr>"

definition demo_world :: "(Header keys_db, nat) world" where
  "demo_world = \<lparr>db = \<lparr>k_rows = [], k_now = 0\<rparr>, faults = [], others = [id, \<lambda>d. snd (kexec [S_tick 5] d)], ext = 0\<rparr>"

abbreviation (input) demo_row :: "Header key_row" where
  "demo_row \<equiv> \<lparr>k_id = keyID id ''user:ada'' ''k1'', k_fingerprint = ''f'', k_lock_token = None, k_locked_until = None,
     k_created_at = 0, k_status = Some 201, k_header = Some Map.empty, k_body = ''ok''\<rparr>"

lemma demo_rec:
  "foldl rec_call (new_recorder DefaultMaxResponseBytes Map.empty) [WriteHeader 201, Write ''ok''] =
    \<lparr>rc_max = DefaultMaxResponseBytes, rc_live = Map.empty, rc_status = 201, rc_header = Map.empty, rc_body = ''ok'',
     rc_unstorable = False, rc_overflow = False\<rparr>"
  by (simp add: rec_WriteHeader_def rec_Write_def snapshot_def new_recorder_def Values_def noStore_def kept_headers_def
      DefaultMaxResponseBytes_def)

theorem serve_replays_witness:
  "fst (serve id demo_store default_options demo_handler demo_request Map.empty ''user:ada'' ''k1'' ''f'' ''t'' demo_world) =
     Inr (Ran [WriteHeader 201, Write ''ok''] Returned) \<and>
   serve id demo_store default_options demo_handler demo_request Map.empty ''user:ada'' ''k1'' ''f'' ''u''
     \<lparr>db = \<lparr>k_rows = [demo_row], k_now = 105\<rparr>, faults = [], others = [], ext = 1\<rparr> =
     (Inr (Replayed \<lparr>rs_Status = 201, rs_Header = Map.empty, rs_Body = ''ok''\<rparr>),
      \<lparr>db = \<lparr>k_rows = [demo_row], k_now = 105\<rparr>, faults = [], others = [], ext = 1\<rparr>)"
proof -
  define rec where "rec = foldl rec_call (new_recorder (op_maxResponseBytes default_options) Map.empty) [WriteHeader 201, Write ''ok'']"
  have rec: "rec = \<lparr>rc_max = DefaultMaxResponseBytes, rc_live = Map.empty, rc_status = 201, rc_header = Map.empty, rc_body = ''ok'',
     rc_unstorable = False, rc_overflow = False\<rparr>" by (simp only: rec_def default_options_def options.simps demo_rec)
  obtain res w1 where run: "serve id demo_store default_options demo_handler demo_request Map.empty ''user:ada'' ''k1'' ''f'' ''t'' demo_world = (res, w1)"
    by fastforce
  have "serve id demo_store default_options demo_handler demo_request Map.empty ''user:ada'' ''k1'' ''f'' ''t'' demo_world =
    (Inr (Ran [WriteHeader 201, Write ''ok''] Returned), \<lparr>db = \<lparr>k_rows = [demo_row], k_now = 5\<rparr>, faults = [], others = [], ext = 1\<rparr>)"
    by (subst serve_claimed [where rec = rec and lock = "\<lparr>lk_id = keyID id ''user:ada'' ''k1'', lk_token = ''t''\<rparr>" and
          ?d1.0 = "\<lparr>k_rows = [claimed_row (keyID id ''user:ada'' ''k1'') ''f'' ''t'' DefaultLockTTL 0], k_now = 0\<rparr>" and
          g = "\<lambda>d. snd (kexec [S_tick 5] d)" and j = Map.empty and x = 1 and calls = "[WriteHeader 201, Write ''ok'']"])
      (simp_all add: Claim_free demo_world_def demo_store_def claimKey_def find_key_def demo_handler_def rec storable_def settle_def
        releasedStatuses_def response_def completeKey_def update_where_def claimed_row_def default_options_def rec_Write_def rec_WriteHeader_def snapshot_def new_recorder_def
        Values_def noStore_def kept_headers_def DefaultMaxResponseBytes_def)
  with run have w1: "db w1 = \<lparr>k_rows = [demo_row], k_now = 5\<rparr>" by auto
  have "res = Inr (Ran [WriteHeader 201, Write ''ok''] Returned) \<and>
   serve id demo_store default_options demo_handler demo_request Map.empty ''user:ada'' ''k1'' ''f'' ''u''
     \<lparr>db = \<lparr>k_rows = [demo_row], k_now = 105\<rparr>, faults = [], others = [], ext = 1\<rparr> =
     (Inr (Replayed (response (settle rec))), \<lparr>db = \<lparr>k_rows = [demo_row], k_now = 105\<rparr>, faults = [], others = [], ext = 1\<rparr>)"
    by (rule serve_replays [where j = Map.empty and after = "[S_tick 100]" and during = "[S_tick 5]" and R = DefaultRetention,
          OF _ _ _ _ _ _ _ _ _ _ rec_def _ _ _ _ _ run])
      (auto simp: rec w1 demo_world_def keys_ok_def find_key_def demo_handler_def storable_def settle_def releasedStatuses_def
        demo_store_def response_def DefaultRetention_def DefaultLockTTL_def Microseconds_def)
  then show ?thesis using run by (simp add: rec settle_def response_def)
qed

section \<open>The recorder keeps what was sent\<close>

text \<open>
  What the client gets, read off the handler's calls: the status and the headers at the moment they are sent (the
  first final \<open>WriteHeader\<close>, or the first \<open>Write\<close>, or the return of the handler), and all bytes written.
\<close>

fun committed :: "Header \<Rightarrow> wcall list \<Rightarrow> (int \<times> Header) option" where
  "committed h [] = None"
| "committed h (SetHeader n vs # cs) = committed (h(CanonicalHeaderKey n \<mapsto> vs)) cs"
| "committed h (WriteHeader s # cs) = (if s \<ge> 200 then Some (s, h) else committed h cs)"
| "committed h (Write b # cs) = Some (200, h)"
| "committed h (DontStore # cs) = committed h cs"

fun headers_after :: "Header \<Rightarrow> wcall list \<Rightarrow> Header" where
  "headers_after h [] = h"
| "headers_after h (SetHeader n vs # cs) = headers_after (h(CanonicalHeaderKey n \<mapsto> vs)) cs"
| "headers_after h (_ # cs) = headers_after h cs"

definition sent :: "Header \<Rightarrow> wcall list \<Rightarrow> int \<times> Header" where
  "sent h cs = (case committed h cs of Some x \<Rightarrow> x | None \<Rightarrow> (200, headers_after h cs))"

fun written :: "wcall list \<Rightarrow> string" where
  "written [] = []"
| "written (Write b # cs) = b @ written cs"
| "written (_ # cs) = written cs"

text \<open>The status, the headers and whether they forbid storing are fixed once and for all.\<close>

definition noted :: "recorder \<Rightarrow> int \<times> Header \<times> bool" where
  "noted r = (rc_status r, rc_header r, rc_unstorable r)"

definition note_of :: "int \<times> Header \<Rightarrow> int \<times> Header \<times> bool" where
  "note_of x = (fst x, kept_headers (snd x), Values (snd x) ''Set-Cookie'' \<noteq> [] \<or> noStore (snd x))"

lemma rec_call_fixed: "rc_status r \<noteq> 0 \<Longrightarrow> noted (foldl rec_call r cs) = noted r"
proof (induction cs arbitrary: r)
  case (Cons c cs)
  have "noted (rec_call r c) = noted r" using Cons.prems by (cases c) (auto simp: noted_def rec_WriteHeader_def rec_Write_def Let_def)
  with Cons show ?case by (simp add: noted_def)
qed simp

lemma rec_call_noted:
  "rc_status r = 0 \<Longrightarrow> (case committed (rc_live r) cs of Some x \<Rightarrow> noted (foldl rec_call r cs) = note_of x
     | None \<Rightarrow> rc_status (foldl rec_call r cs) = 0 \<and> rc_live (foldl rec_call r cs) = headers_after (rc_live r) cs)"
proof (induction cs arbitrary: r)
  case (Cons c cs)
  show ?case
  proof (cases c)
    case (SetHeader n vs)
    with Cons.IH [of "rec_call r c"] Cons.prems show ?thesis by (auto simp del: fun_upd_apply split: option.splits)
  next
    case (WriteHeader s)
    show ?thesis
    proof (cases "200 \<le> s")
      case True
      with WriteHeader Cons.prems rec_call_fixed [of "snapshot s r" cs] show ?thesis
        by (simp add: rec_WriteHeader_def) (simp add: snapshot_def noted_def note_of_def)
    next
      case False
      with WriteHeader Cons.prems Cons.IH [of r] show ?thesis
        by (cases "committed (rc_live r) cs") (simp_all add: rec_WriteHeader_def)
    qed
  next
    case (Write b)
    have "noted (rec_Write b r) = note_of (200, rc_live r)"
      using Cons.prems by (simp add: rec_Write_def rec_WriteHeader_def snapshot_def noted_def note_of_def Let_def)
    with Write rec_call_fixed [of "rec_Write b r" cs] show ?thesis by (auto simp: noted_def note_of_def)
  next
    case DontStore
    with Cons.prems Cons.IH [of r] show ?thesis by (cases "committed (rc_live r) cs") simp_all
  qed
qed simp

lemma rec_call_max: "rc_max (foldl rec_call r cs) = rc_max r"
proof (induction cs arbitrary: r)
  case (Cons c cs)
  have "rc_max (rec_call r c) = rc_max r"
    by (cases c) (auto simp: rec_WriteHeader_def rec_Write_def snapshot_def Let_def)
  with Cons show ?case by simp
qed simp

lemma rec_call_overflow: "rc_overflow r \<Longrightarrow> rc_overflow (foldl rec_call r cs)"
proof (induction cs arbitrary: r)
  case (Cons c cs)
  then have "rc_overflow (rec_call r c)"
    by (cases c) (auto simp: rec_WriteHeader_def rec_Write_def snapshot_def Let_def)
  with Cons show ?case by simp
qed simp

lemma rec_call_body:
  assumes "\<not> rc_overflow (foldl rec_call r cs)"
  shows "rc_body (foldl rec_call r cs) = rc_body r @ written cs \<and> (int (length (rc_body r)) \<le> max 0 (rc_max r) \<longrightarrow> int (length (rc_body (foldl rec_call r cs))) \<le> max 0 (rc_max r))"
  using assms
proof (induction cs arbitrary: r)
  case (Cons c cs)
  have ok: "\<not> rc_overflow (rec_call r c)" using Cons.prems rec_call_overflow by fastforce
  have step: "rc_body (rec_call r c) = rc_body r @ written [c]" "rc_max (rec_call r c) = rc_max r"
    "int (length (rc_body r)) \<le> max 0 (rc_max r) \<longrightarrow> int (length (rc_body (rec_call r c))) \<le> max 0 (rc_max r)"
    using ok by (cases c; auto simp: rec_WriteHeader_def rec_Write_def snapshot_def Let_def split: if_splits)+
  have app: "written (c # cs) = written [c] @ written cs" by (cases c) simp_all
  have IH: "rc_body (foldl rec_call (rec_call r c) cs) = rc_body (rec_call r c) @ written cs"
    "int (length (rc_body (rec_call r c))) \<le> max 0 (rc_max r) \<longrightarrow> int (length (rc_body (foldl rec_call (rec_call r c) cs))) \<le> max 0 (rc_max r)"
    using Cons.IH [of "rec_call r c"] Cons.prems step(2) by auto
  then show ?case using step(1,3) by (simp add: app del: written.simps)
qed simp

lemma recorded:
  assumes "storable (foldl rec_call (new_recorder mx h) calls)"
  shows "response (settle (foldl rec_call (new_recorder mx h) calls)) =
      \<lparr>rs_Status = fst (sent h calls), rs_Header = kept_headers (snd (sent h calls)), rs_Body = written calls\<rparr> \<and>
    int (length (written calls)) \<le> max 0 mx \<and> fst (sent h calls) < 500 \<and> fst (sent h calls) \<notin> {401, 403, 408, 429} \<and>
    Values (snd (sent h calls)) ''Set-Cookie'' = [] \<and> \<not> noStore (snd (sent h calls))"
proof -
  let ?r = "foldl rec_call (new_recorder mx h) calls"
  have live: "rc_live (new_recorder mx h) = h" "rc_status (new_recorder mx h) = 0" "rc_body (new_recorder mx h) = []" "rc_max (new_recorder mx h) = mx"
    by (simp_all add: new_recorder_def)
  have "noted (settle ?r) = note_of (sent h calls)"
  proof (cases "committed h calls")
    case None
    with rec_call_noted [of "new_recorder mx h" calls] live have "rc_status ?r = 0" "rc_live ?r = headers_after h calls" by auto
    with None show ?thesis by (simp add: settle_def noted_def note_of_def snapshot_def sent_def)
  next
    case (Some x)
    have "fst x \<noteq> 0" using Some by (induction h calls rule: committed.induct) (auto split: if_splits)
    moreover have "noted ?r = note_of x" using rec_call_noted [of "new_recorder mx h" calls] live Some by simp
    ultimately show ?thesis using Some by (simp add: settle_def noted_def note_of_def sent_def)
  qed
  moreover have "rc_overflow (settle ?r) = rc_overflow ?r" "rc_body (settle ?r) = rc_body ?r" by (simp_all add: settle_def snapshot_def)
  moreover note rec_call_body [of "new_recorder mx h" calls]
  ultimately show ?thesis using assms live
    by (auto simp: storable_def Let_def noted_def note_of_def response_def releasedStatuses_def)
qed

text \<open>
  what is stored is what was sent, and only what may be sent again. When the recorder calls a response
  storable, the response it stores has the status the client got, the replayable headers as they were when that
  status was sent, and exactly the bytes the handler wrote, no more than the maximum; the status is no server error
  and none of 401, 403, 408 and 429, and the headers set no cookie and don't say no-store.
\<close>

theorem recorder_exact:
  assumes "storable (foldl rec_call (new_recorder mx h) calls)"
  shows "response (settle (foldl rec_call (new_recorder mx h) calls)) =
      \<lparr>rs_Status = fst (sent h calls), rs_Header = kept_headers (snd (sent h calls)), rs_Body = written calls\<rparr> \<and>
    int (length (written calls)) \<le> max 0 mx \<and> fst (sent h calls) < 500 \<and> fst (sent h calls) \<notin> {401, 403, 408, 429} \<and>
    Values (snd (sent h calls)) ''Set-Cookie'' = [] \<and> \<not> noStore (snd (sent h calls))"
  using assms by (rule recorded)

theorem recorder_exact_witness:
  "response (settle (foldl rec_call (new_recorder DefaultMaxResponseBytes Map.empty) [WriteHeader 201, Write ''ok''])) =
    \<lparr>rs_Status = 201, rs_Header = kept_headers Map.empty, rs_Body = ''ok''\<rparr>"
proof -
  have "storable (foldl rec_call (new_recorder DefaultMaxResponseBytes Map.empty) [WriteHeader 201, Write ''ok''])"
    by (simp only: demo_rec) (simp add: storable_def settle_def releasedStatuses_def)
  from recorder_exact [OF this] show ?thesis by (simp add: sent_def)
qed

section \<open>Callers don't share keys\<close>

lemma last_separator:
  assumes "z \<notin> set b" "z \<notin> set b'" "a @ [z] @ b = a' @ [z] @ b'"
  shows "a = a' \<and> b = b'"
proof -
  have "rev (a @ [z] @ b) = rev (a' @ [z] @ b')" using assms(3) by (rule arg_cong)
  then have "rev b @ z # rev a = rev b' @ z # rev a'" by simp
  then have "rev b = rev b' \<and> rev a = rev a'"
    by (rule separator_unique [rotated 2]) (use assms(1,2) in simp_all)
  then show ?thesis by simp
qed

lemma validKey_no_nul: "validKey key \<Longrightarrow> CHR 0x00 \<notin> set key"
  by (auto simp: validKey_def list_all_iff)

text \<open>
  keys belong to their callers. Two requests that pass the middleware's checks and meet in one row have the same
  scope and the same key, or they are a collision of SHA-256; and two different actors never have the same scope.
\<close>

theorem keys_separate_callers:
  assumes "validKey key" "validKey key'" "keyID sha sc key = keyID sha sc' key'"
    "ActorScope r = Some sc" "ActorScope r' = Some sc'"
  shows "(key = key' \<and> (\<exists>a a'. From (rq_ctx r) = Some a \<and> From (rq_ctx r') = Some a' \<and> a_Kind a = a_Kind a' \<and> a_ID a = a_ID a')) \<or>
    (\<exists>x y. x \<noteq> y \<and> sha x = sha y)"
proof (cases "sc @ [CHR 0x00] @ key = sc' @ [CHR 0x00] @ key'")
  case True
  from last_separator [OF validKey_no_nul validKey_no_nul this] assms(1,2) have eq: "sc = sc'" "key = key'" by auto
  from assms(4,5) eq(1) have "\<exists>a a'. From (rq_ctx r) = Some a \<and> From (rq_ctx r') = Some a' \<and> a_Kind a = a_Kind a' \<and> a_ID a = a_ID a'"
    by (auto simp: ActorScope_def split: option.splits if_splits)
  with eq(2) show ?thesis by blast
next
  case False
  with assms(3) show ?thesis by (auto simp: keyID_def)
qed

definition ada_request :: idem_request where
  "ada_request = demo_request\<lparr>rq_ctx := With Background \<lparr>a_Kind = KindUser, a_ID = ''ada'', a_Label = [], a_OrgID = [],
     a_Permissions = [], a_StepUp = []\<rparr>\<rparr>"

theorem keys_separate_callers_witness:
  "ActorScope ada_request = Some ''user:ada'' \<and>
   (\<exists>a a'. From (rq_ctx ada_request) = Some a \<and> From (rq_ctx ada_request) = Some a' \<and> a_Kind a = a_Kind a' \<and> a_ID a = a_ID a')"
proof -
  have sc: "ActorScope ada_request = Some ''user:ada''" by (simp add: ActorScope_def ada_request_def demo_request_def From_def With_def)
  have "validKey ''k1''" by (simp add: validKey_def MaxKeyLength_def)
  from keys_separate_callers [OF this this refl sc sc, of id] sc show ?thesis by auto
qed

section \<open>Only final answers are kept\<close>

text \<open>A stored response is one that may be replayed, and its row is unlocked.\<close>

definition final_row :: "int \<Rightarrow> 'j key_row \<Rightarrow> bool" where
  "final_row mx k = (case k_status k of None \<Rightarrow> True
     | Some s \<Rightarrow> s < 500 \<and> s \<notin> {401, 403, 408, 429} \<and> int (length (k_body k)) \<le> max 0 mx \<and> k_lock_token k = None)"

definition final_keys :: "int \<Rightarrow> 'j keys_db \<Rightarrow> bool" where
  "final_keys mx d \<longleftrightarrow> list_all (final_row mx) (k_rows d)"

lemma keeps_sess: "(\<And>d. I d \<Longrightarrow> I (snd (f d))) \<Longrightarrow> keeps I (sess f)"
proof -
  assume step: "\<And>d. I d \<Longrightarrow> I (snd (f d))"
  have "others_keep I (interfere w)" if "others_keep I w" for w :: "('a, 'd) world"
    using that by (auto simp: others_keep_def interfere_def split: list.splits)
  with keeps_stmt [of I f, OF step] show ?thesis
    unfolding keeps_def sess_def by (metis interfere_keeps)
qed

lemma claimKey_final: "final_keys mx d \<Longrightarrow> final_keys mx (snd (claimKey i fp tok ttl r d))"
  by (auto simp: claimKey_def Let_def final_keys_def list_all_iff set_update_where final_row_def claimed_row_def split: option.splits)

lemma completeKey_final:
  assumes "final_keys mx d" "s < 500" "s \<notin> {401, 403, 408, 429}" "int (length b) \<le> max 0 mx"
  shows "final_keys mx (snd (completeKey i tok s j b d))"
  using assms by (auto simp: completeKey_def Let_def final_keys_def list_all_iff set_update_where final_row_def)

lemma claim_stmt_final:
  "keeps (final_keys mx) (sess (\<lambda>d. case claimKey i fp tok ttl r d of (ok, d') \<Rightarrow> (Inr ok, d')))"
  by (rule keeps_sess) (simp add: case_prod_beta claimKey_final)

lemma stored_response_final: "keeps (final_keys mx) (stored_response st row s)"
  by (auto simp: stored_response_def intro!: keeps_intros split: option.splits)

lemma claim_loop_final: "keeps (final_keys mx) (claim_loop n st lock fp)"
proof (induction n)
  case (Suc n)
  have "keeps (final_keys mx) (sess (\<lambda>d. (Inr (find_key i d), d)))" for i by (rule keeps_sess) simp
  with Suc show ?case by (auto intro!: keeps_intros claim_stmt_final stored_response_final split: option.splits)
qed (simp add: keeps_intros)

lemma finish_final:
  assumes "r = foldl rec_call (new_recorder mx h) calls" shows "keeps (final_keys mx) (finish st lock r calls out)"
proof -
  have rel: "keeps (final_keys mx) (Release lock)" unfolding Release_def
    by (rule keeps_sess) (simp add: final_keys_def releaseKey_def list_all_iff)
  have "keeps (final_keys mx) (Complete st lock (response (settle r)))" if "storable r"
  proof -
    have "keeps (final_keys mx) (sess (\<lambda>d. let (n, d') = completeKey i tok (rs_Status (response (settle r))) j (rs_Body (response (settle r))) d in (Inr n, d')))"
      for i tok j by (rule keeps_sess) (use recorded [OF that [unfolded assms]] in \<open>simp add: assms case_prod_beta completeKey_final\<close>)
    then show ?thesis unfolding Complete_def by (auto intro!: keeps_intros split: option.splits)
  qed
  with rel show ?thesis unfolding finish_def by (auto intro!: keeps_intros)
qed

lemma run_handler_final: "keeps I (run_handler nxt r)"
  by (auto simp: keeps_def run_handler_def others_keep_def split: prod.splits)

lemma serve_final: "keeps (final_keys (op_maxResponseBytes opts)) (serve sha st opts nxt r h sc key fp token)"
proof -
  have "keeps (final_keys (op_maxResponseBytes opts)) (Claim sha st sc key fp token)"
    by (auto simp: Claim_def intro!: keeps_intros claim_loop_final)
  then show ?thesis unfolding serve_def
    by (auto intro!: keeps_intros run_handler_final finish_final split: sum.splits claim.splits prod.splits)
qed

text \<open>
  C17: only final answers are ever kept. Whatever requests come, whatever their handlers do, whatever faults happen
  and whatever the other sessions do within this invariant, the middleware leaves a table in which every stored
  response has a status below 500 that is none of 401, 403, 408 and 429, a body within the maximum, and no lock.
\<close>

theorem Middleware_keeps_final:
  assumes "final_keys (op_maxResponseBytes opts) (db w)"
    "others_keep (final_keys (op_maxResponseBytes opts)) w"
  shows "final_keys (op_maxResponseBytes opts) (db (snd (idem_Middleware sha st opts nxt r h token w)))"
proof -
  have "keeps (final_keys (op_maxResponseBytes opts)) (idem_Middleware sha st opts nxt r h token)"
    by (auto simp: idem_Middleware_def Let_def intro!: keeps_intros run_handler_final serve_final split: option.splits prod.splits)
  with assms show ?thesis by (simp add: keeps_def)
qed

theorem Middleware_keeps_final_witness:
  "final_keys DefaultMaxResponseBytes
     (db (snd (idem_Middleware id demo_store default_options demo_handler ada_request Map.empty ''t'' (demo_world\<lparr>others := []\<rparr>))))"
  using Middleware_keeps_final [of default_options "demo_world\<lparr>others := []\<rparr>" id demo_store demo_handler ada_request Map.empty "''t''"]
  by (simp add: demo_world_def final_keys_def others_keep_def default_options_def)

end
