(* ===== verification/Incidents.thy ===== *)
theory Incidents
  imports Complex_Main Page Audit_Events Txn
begin

text \<open>
  Incidents of \<open>modules/observability\<close>: opened by operators or by error-rate detection, changed by timeline updates
  until they are resolved (\<open>incidents.go\<close>, \<open>detect.go\<close>, \<open>delete_minutes.go\<close>). The tables carry the constraints of the
  module's migrations: a statement that would break one is a driver error.

  Parameters are the float division and the texts of floats and durations (\<open>go_format\<close>): a finite \<open>float64\<close> is the
  rational number it is. A time written to a \<open>timestamptz\<close> column keeps its microseconds.
\<close>

section \<open>Data\<close>

abbreviation SeveritySev1 :: string where "SeveritySev1 \<equiv> ''sev1''"
abbreviation SeveritySev2 :: string where "SeveritySev2 \<equiv> ''sev2''"
abbreviation SeveritySev3 :: string where "SeveritySev3 \<equiv> ''sev3''"
abbreviation SeveritySev4 :: string where "SeveritySev4 \<equiv> ''sev4''"

abbreviation StatusInvestigating :: string where "StatusInvestigating \<equiv> ''investigating''"
abbreviation StatusIdentified :: string where "StatusIdentified \<equiv> ''identified''"
abbreviation StatusMonitoring :: string where "StatusMonitoring \<equiv> ''monitoring''"
abbreviation StatusResolved :: string where "StatusResolved \<equiv> ''resolved''"

abbreviation SourceManual :: string where "SourceManual \<equiv> ''manual''"
abbreviation SourceAutomatic :: string where "SourceAutomatic \<equiv> ''automatic''"

datatype UpdateKind = UpdateOpened | UpdateNote | UpdateResolved | UpdateRecovered | UpdateBreaching

definition update_kind_text :: "UpdateKind \<Rightarrow> string" where
  "update_kind_text k = (case k of UpdateOpened \<Rightarrow> ''opened'' | UpdateNote \<Rightarrow> ''update'' | UpdateResolved \<Rightarrow> ''resolved''
     | UpdateRecovered \<Rightarrow> ''recovered'' | UpdateBreaching \<Rightarrow> ''breaching'')"

definition severities :: "string list" where
  "severities = [SeveritySev1, SeveritySev2, SeveritySev3, SeveritySev4]"

definition statuses :: "string list" where
  "statuses = [StatusInvestigating, StatusIdentified, StatusMonitoring, StatusResolved]"

definition sources :: "string list" where
  "sources = [SourceManual, SourceAutomatic]"

definition MaxTitleLength :: nat where "MaxTitleLength = 200"
definition MaxSummaryLength :: nat where "MaxSummaryLength = 5000"
definition MaxMessageLength :: nat where "MaxMessageLength = 5000"
definition MaxIncidentUpdates :: nat where "MaxIncidentUpdates = 500"
definition MaxStartedAge :: duration where "MaxStartedAge = 90 * 24 * hour"
definition clockSkew :: duration where "clockSkew = minute"

record Incident =
  ic_ID :: int
  ic_Title :: string
  ic_Summary :: string
  ic_Severity :: string
  ic_Status :: string
  ic_Source :: string
  ic_StartedAt :: time
  ic_ResolvedAt :: "time option"
  ic_RecoveredAt :: "time option"
  ic_CreatedByKind :: Kind
  ic_CreatedByID :: string
  ic_CreatedAt :: time
  ic_UpdatedAt :: time

record IncidentUpdate =
  iu_ID :: int
  iu_IncidentID :: int
  iu_Kind :: UpdateKind
  iu_Message :: string
  iu_Status :: string
  iu_Severity :: string
  iu_ActorKind :: Kind
  iu_ActorID :: string
  iu_CreatedAt :: time

record NewIncident =
  ni_Title :: string
  ni_Summary :: string
  ni_Severity :: string
  ni_Status :: string
  ni_StartedAt :: time
  ni_Message :: string

record IncidentChange =
  cg_Message :: string
  cg_Status :: string
  cg_Severity :: string

record minute_row =
  mn_minute :: time
  mn_instance :: string
  mn_method :: string
  mn_route :: string
  mn_requests :: int
  mn_client_errors :: int
  mn_server_errors :: int
  mn_duration_sum_us :: int
  mn_duration_max_us :: int
  mn_buckets :: "int list"

record obs_db =
  ob_incidents :: "Incident list"
  ob_updates :: "IncidentUpdate list"
  ob_minutes :: "minute_row list"
  ob_nextIncident :: int
  ob_nextUpdate :: int

datatype invalid_incident = BadTitle | BadSummary | BadSeverity | BadStatus | BadStartedAt | BadMessage
  | UnknownStatus string | UnknownSeverity string | UnknownSource string

datatype obs_error = ErrIncidentNotFound | ErrInvalidIncident invalid_incident | ErrIncidentResolved | ErrTooManyUpdates
  | ErrInvalidCursor | ErrDetectionWindow | ErrDetectionThreshold | ErrDetectionActor | ErrMinutesLimit

type_synonym ('x, 'a) obs = "(obs_db, 'x, obs_error, 'a) comp"

section \<open>Validation\<close>

definition validateMessage :: "string \<Rightarrow> invalid_incident option" where
  "validateMessage m = (if m = [] \<or> rune_count m > MaxMessageLength then Some BadMessage else None)"

definition validateNew :: "NewIncident \<Rightarrow> time \<Rightarrow> invalid_incident option" where
  "validateNew n now =
     (if ni_Title n = [] \<or> rune_count (ni_Title n) > MaxTitleLength \<or> list_ex (\<lambda>c. byte c = 13 \<or> byte c = 10) (ni_Title n) then Some BadTitle
      else if rune_count (ni_Summary n) > MaxSummaryLength then Some BadSummary
      else if ni_Severity n \<notin> set severities then Some BadSeverity
      else if ni_Status n = StatusResolved \<or> ni_Status n \<notin> set statuses then Some BadStatus
      else if ni_StartedAt n > now + clockSkew \<or> ni_StartedAt n < now - MaxStartedAge then Some BadStartedAt
      else validateMessage (ni_Message n))"

definition validateChange :: "IncidentChange \<Rightarrow> invalid_incident option" where
  "validateChange c =
     (if cg_Status c \<noteq> [] \<and> (cg_Status c = StatusResolved \<or> cg_Status c \<notin> set statuses) then Some BadStatus
      else if cg_Severity c \<noteq> [] \<and> cg_Severity c \<notin> set severities then Some BadSeverity
      else validateMessage (cg_Message c))"

section \<open>Statements\<close>

definition pg_time :: "time \<Rightarrow> time" where
  "pg_time t = truncate_to t microsecond"

definition open_automatic :: "Incident \<Rightarrow> bool" where
  "open_automatic i \<longleftrightarrow> ic_Source i = SourceAutomatic \<and> ic_Status i \<noteq> StatusResolved"

text \<open>The \<open>CHECK\<close> constraints of a row, and the unique index on open automatic incidents.\<close>

definition row_checks :: "Incident \<Rightarrow> bool" where
  "row_checks i \<longleftrightarrow> ic_Severity i \<in> set severities \<and> ic_Status i \<in> set statuses \<and> ic_Source i \<in> set sources \<and>
     (ic_Status i = StatusResolved) = (ic_ResolvedAt i \<noteq> None)"

definition insertIncident :: "NewIncident \<Rightarrow> string \<Rightarrow> Actor \<Rightarrow> time \<Rightarrow> ('x, Incident option) obs" where
  "insertIncident n source by' now = stmt (\<lambda>d.
     let i = \<lparr>ic_ID = ob_nextIncident d, ic_Title = ni_Title n, ic_Summary = ni_Summary n, ic_Severity = ni_Severity n,
              ic_Status = ni_Status n, ic_Source = source, ic_StartedAt = pg_time (ni_StartedAt n), ic_ResolvedAt = None,
              ic_RecoveredAt = None, ic_CreatedByKind = a_Kind by', ic_CreatedByID = a_ID by', ic_CreatedAt = pg_time now,
              ic_UpdatedAt = pg_time now\<rparr>;
         d' = d\<lparr>ob_nextIncident := ob_nextIncident d + 1\<rparr> in
     if \<not> row_checks i then (Inl Driver, d')
     else if open_automatic i \<and> list_ex open_automatic (ob_incidents d) then (Inr None, d')
     else (Inr (Some i), d'\<lparr>ob_incidents := ob_incidents d @ [i]\<rparr>))"

definition insertUpdate :: "Incident \<Rightarrow> UpdateKind \<Rightarrow> string \<Rightarrow> Actor \<Rightarrow> time \<Rightarrow> ('x, IncidentUpdate) obs" where
  "insertUpdate inc kind message by' now = stmt (\<lambda>d.
     let u = \<lparr>iu_ID = ob_nextUpdate d, iu_IncidentID = ic_ID inc, iu_Kind = kind, iu_Message = message, iu_Status = ic_Status inc,
              iu_Severity = ic_Severity inc, iu_ActorKind = a_Kind by', iu_ActorID = a_ID by', iu_CreatedAt = pg_time now\<rparr>;
         d' = d\<lparr>ob_nextUpdate := ob_nextUpdate d + 1\<rparr> in
     if \<not> list_ex (\<lambda>i. ic_ID i = ic_ID inc) (ob_incidents d) then (Inl Driver, d')
     else (Inr u, d'\<lparr>ob_updates := ob_updates d @ [u]\<rparr>))"

definition timeline :: "int \<Rightarrow> obs_db \<Rightarrow> IncidentUpdate list" where
  "timeline iid d = filter (\<lambda>u. iu_IncidentID u = iid) (ob_updates d)"

definition find_incident :: "int \<Rightarrow> obs_db \<Rightarrow> Incident option" where
  "find_incident iid d = List.find (\<lambda>i. ic_ID i = iid) (ob_incidents d)"

definition selectIncidentForUpdate :: "int \<Rightarrow> ('x, (Incident \<times> nat) option) obs" where
  "selectIncidentForUpdate iid = query (\<lambda>d. Inr (map_option (\<lambda>i. (i, length (timeline iid d))) (find_incident iid d)))"

definition storeIncident :: "Incident \<Rightarrow> time \<Rightarrow> ('x, Incident) obs" where
  "storeIncident inc now = stmt (\<lambda>d.
     case find_incident (ic_ID inc) d of
       None \<Rightarrow> (Inl Driver, d)
     | Some old \<Rightarrow>
         let i = old\<lparr>ic_Status := ic_Status inc, ic_Severity := ic_Severity inc, ic_ResolvedAt := map_option pg_time (ic_ResolvedAt inc),
                     ic_RecoveredAt := map_option pg_time (ic_RecoveredAt inc), ic_UpdatedAt := pg_time now\<rparr> in
         if \<not> row_checks i \<or> (open_automatic i \<and> list_ex (\<lambda>j. ic_ID j \<noteq> ic_ID i \<and> open_automatic j) (ob_incidents d)) then (Inl Driver, d)
         else (Inr i, d\<lparr>ob_incidents := update_where (\<lambda>j. ic_ID j = ic_ID inc) (\<lambda>_. i) (ob_incidents d)\<rparr>))"

section \<open>Operators\<close>

definition openIncident :: "NewIncident \<Rightarrow> string \<Rightarrow> Actor \<Rightarrow> time \<Rightarrow> ('x, (Incident \<times> IncidentUpdate) option) obs" where
  "openIncident n source by' now =
     bindC (insertIncident n source by' now) (\<lambda>r. case r of
       None \<Rightarrow> retC None
     | Some inc \<Rightarrow> bindC (insertUpdate inc UpdateOpened (ni_Message n) by' now) (\<lambda>upd. retC (Some (inc, upd))))"

text \<open>A manual incident never conflicts; the error of no row is passed on as it is.\<close>

definition new_defaults :: "time \<Rightarrow> NewIncident \<Rightarrow> NewIncident" where
  "new_defaults now n =
     (let n = n\<lparr>ni_Title := TrimSpace (ni_Title n), ni_Summary := TrimSpace (ni_Summary n), ni_Message := TrimSpace (ni_Message n)\<rparr>;
          n = (if ni_Status n = [] then n\<lparr>ni_Status := StatusInvestigating\<rparr> else n);
          n = (if ni_StartedAt n = 0 then n\<lparr>ni_StartedAt := now\<rparr> else n) in
      if ni_Message n = [] then n\<lparr>ni_Message := ''Incident opened.''\<rparr> else n)"

definition OpenIncident :: "time \<Rightarrow> ctx \<Rightarrow> NewIncident \<Rightarrow> ('x, Incident \<times> IncidentUpdate) obs" where
  "OpenIncident now c n =
     (let n = new_defaults now n in
      case validateNew n now of
        Some e \<Rightarrow> failC (Err (ErrInvalidIncident e))
      | None \<Rightarrow> InTx (bindC (openIncident n SourceManual (FromOrAnonymous c) now) (\<lambda>r. case r of None \<Rightarrow> failC Driver | Some x \<Rightarrow> retC x)))"

definition lockOpenIncident :: "int \<Rightarrow> nat \<Rightarrow> ('x, Incident) obs" where
  "lockOpenIncident iid maxUpdates =
     bindC (selectIncidentForUpdate iid) (\<lambda>r. case r of
       None \<Rightarrow> failC (Err ErrIncidentNotFound)
     | Some (inc, updates) \<Rightarrow>
         if ic_Status inc = StatusResolved then failC (Err ErrIncidentResolved)
         else if updates \<ge> maxUpdates then failC (Err ErrTooManyUpdates)
         else retC inc)"

definition change_tx :: "time \<Rightarrow> ctx \<Rightarrow> int \<Rightarrow> UpdateKind \<Rightarrow> string \<Rightarrow> (Incident \<Rightarrow> Incident) \<Rightarrow> ('x, Incident \<times> IncidentUpdate) obs" where
  "change_tx now c iid kind message app =
     bindC (lockOpenIncident iid MaxIncidentUpdates) (\<lambda>inc.
     bindC (storeIncident (app inc) now) (\<lambda>inc.
     bindC (insertUpdate inc kind message (FromOrAnonymous c) now) (\<lambda>upd. retC (inc, upd))))"

definition change :: "time \<Rightarrow> ctx \<Rightarrow> int \<Rightarrow> UpdateKind \<Rightarrow> string \<Rightarrow> (Incident \<Rightarrow> Incident) \<Rightarrow> ('x, Incident \<times> IncidentUpdate) obs" where
  "change now c iid kind message app = InTx (change_tx now c iid kind message app)"

definition apply_change :: "IncidentChange \<Rightarrow> Incident \<Rightarrow> Incident" where
  "apply_change g inc =
     (let inc = (if cg_Status g \<noteq> [] then inc\<lparr>ic_Status := cg_Status g\<rparr> else inc) in
      if cg_Severity g \<noteq> [] then inc\<lparr>ic_Severity := cg_Severity g\<rparr> else inc)"

definition apply_resolve :: "time \<Rightarrow> Incident \<Rightarrow> Incident" where
  "apply_resolve now inc = inc\<lparr>ic_Status := StatusResolved, ic_ResolvedAt := Some now, ic_RecoveredAt := None\<rparr>"

definition UpdateIncident :: "time \<Rightarrow> ctx \<Rightarrow> int \<Rightarrow> IncidentChange \<Rightarrow> ('x, Incident \<times> IncidentUpdate) obs" where
  "UpdateIncident now c iid g =
     (let g = g\<lparr>cg_Message := TrimSpace (cg_Message g)\<rparr> in
      case validateChange g of
        Some e \<Rightarrow> failC (Err (ErrInvalidIncident e))
      | None \<Rightarrow> change now c iid UpdateNote (cg_Message g) (apply_change g))"

definition ResolveIncident :: "time \<Rightarrow> ctx \<Rightarrow> int \<Rightarrow> string \<Rightarrow> ('x, Incident \<times> IncidentUpdate) obs" where
  "ResolveIncident now c iid message =
     (let message = TrimSpace message in
      case validateMessage message of
        Some e \<Rightarrow> failC (Err (ErrInvalidIncident e))
      | None \<Rightarrow> change now c iid UpdateResolved message (apply_resolve now))"

section \<open>Reading\<close>

definition get_Incident :: "int \<Rightarrow> ('x, Incident) obs" where
  "get_Incident iid = bindC (query (\<lambda>d. Inr (find_incident iid d))) (\<lambda>r. case r of None \<Rightarrow> failC (Err ErrIncidentNotFound) | Some i \<Rightarrow> retC i)"

definition IncidentUpdates :: "int \<Rightarrow> ('x, IncidentUpdate list) obs" where
  "IncidentUpdates iid = query (\<lambda>d. Inr (take MaxIncidentUpdates (sort_key iu_ID (timeline iid d))))"

record IncidentFilter =
  if_Open :: bool
  if_Status :: string
  if_Severity :: string
  if_Source :: string
  if_StartedFrom :: time
  if_StartedTo :: time
  if_Limit :: int
  if_Cursor :: string

definition validateFilter :: "IncidentFilter \<Rightarrow> invalid_incident option" where
  "validateFilter f =
     (if if_Status f \<noteq> [] \<and> if_Status f \<notin> set statuses then Some (UnknownStatus (if_Status f))
      else if if_Severity f \<noteq> [] \<and> if_Severity f \<notin> set severities then Some (UnknownSeverity (if_Severity f))
      else if if_Source f \<noteq> [] \<and> if_Source f \<notin> set sources then Some (UnknownSource (if_Source f))
      else None)"

definition matches :: "IncidentFilter \<Rightarrow> Incident \<Rightarrow> bool" where
  "matches f i \<longleftrightarrow> (if_Open f \<longrightarrow> ic_Status i \<noteq> StatusResolved) \<and> (if_Status f = [] \<or> ic_Status i = if_Status f) \<and>
     (if_Severity f = [] \<or> ic_Severity i = if_Severity f) \<and> (if_Source f = [] \<or> ic_Source i = if_Source f) \<and>
     (if_StartedFrom f = 0 \<or> ic_StartedAt i \<ge> pg_time (if_StartedFrom f)) \<and> (if_StartedTo f = 0 \<or> ic_StartedAt i < pg_time (if_StartedTo f))"

record IncidentPage =
  ip_Incidents :: "Incident list"
  ip_NextCursor :: string

text \<open>\<open>strconv.ParseInt\<close> in base 10 and 64 bits reads a text as \<open>strconv.Atoi\<close> does.\<close>

definition read_cursor :: "string \<Rightarrow> ('x, int option) obs" where
  "read_cursor cursor =
     (if cursor = [] then retC None
      else case Atoi cursor of
        None \<Rightarrow> failC (Err ErrInvalidCursor)
      | Some iid \<Rightarrow> if iid < 1 then failC (Err ErrInvalidCursor) else retC (Some iid))"

definition select_page :: "IncidentFilter \<Rightarrow> int option \<Rightarrow> obs_db \<Rightarrow> Incident list" where
  "select_page f before d = rev (sort_key ic_ID
     (filter (\<lambda>i. matches f i \<and> (case before of None \<Rightarrow> True | Some iid \<Rightarrow> ic_ID i < iid)) (ob_incidents d)))"

definition page_limit :: "int \<Rightarrow> nat" where
  "page_limit n = (if n \<le> 0 then 50 else if n > 100 then 100 else nat n)"

definition Incidents :: "IncidentFilter \<Rightarrow> ('x, IncidentPage) obs" where
  "Incidents f =
     (case validateFilter f of
        Some e \<Rightarrow> failC (Err (ErrInvalidIncident e))
      | None \<Rightarrow>
          let limit = page_limit (if_Limit f) in
          bindC (read_cursor (if_Cursor f)) (\<lambda>before.
          bindC (query (\<lambda>d. Inr (take (limit + 1) (select_page f before d)))) (\<lambda>rows.
          retC (if length rows > limit
                then \<lparr>ip_Incidents = take limit rows, ip_NextCursor = FormatInt (ic_ID (rows ! (limit - 1)))\<rparr>
                else \<lparr>ip_Incidents = rows, ip_NextCursor = []\<rparr>))))"

section \<open>Detection\<close>

record Detection =
  dt_Window :: duration
  dt_Threshold :: rat
  dt_MinRequests :: int
  dt_Severity :: string
  dt_Actor :: Actor

datatype DetectionAction = DetectionNone | DetectionOpened | DetectionRecovered | DetectionBreaching

definition action_text :: "DetectionAction \<Rightarrow> string" where
  "action_text a = (case a of DetectionNone \<Rightarrow> [] | DetectionOpened \<Rightarrow> ''opened'' | DetectionRecovered \<Rightarrow> ''recovered''
     | DetectionBreaching \<Rightarrow> ''breaching'')"

record DetectionResult =
  dr_From :: time
  dr_To :: time
  dr_Requests :: int
  dr_ServerErrors :: int
  dr_Breaching :: bool
  dr_Healthy :: bool
  dr_Action :: DetectionAction
  dr_Incident :: "Incident option"
  dr_Update :: "IncidentUpdate option"

record go_format =
  gf_divide :: "int \<Rightarrow> int \<Rightarrow> rat"
  gf_percent :: "rat \<Rightarrow> string"
  gf_duration :: "duration \<Rightarrow> string"

definition ErrorRate :: "go_format \<Rightarrow> DetectionResult \<Rightarrow> rat" where
  "ErrorRate gf r = (if dr_Requests r \<le> 0 then 0 else gf_divide gf (dr_ServerErrors r) (dr_Requests r))"

definition detectionMessage :: "go_format \<Rightarrow> UpdateKind \<Rightarrow> Detection \<Rightarrow> DetectionResult \<Rightarrow> string" where
  "detectionMessage gf kind d r =
     (let rate = gf_percent gf (ErrorRate gf r) @ '' of '' @ FormatInt (dr_Requests r) @ '' requests over the last '' @ gf_duration gf (dt_Window d);
          threshold = gf_percent gf (dt_Threshold d) in
      case kind of
        UpdateRecovered \<Rightarrow> ''Error rate recovered: '' @ rate @ '', at or below the '' @ threshold @ '' threshold. Resolve the incident when it is over.''
      | UpdateBreaching \<Rightarrow> ''Error rate high again: '' @ rate @ '', above the '' @ threshold @ '' threshold.''
      | _ \<Rightarrow> ''Error rate '' @ rate @ '', above the '' @ threshold @ '' threshold.'')"

definition selectTotals :: "time \<Rightarrow> time \<Rightarrow> ('x, int \<times> int) obs" where
  "selectTotals from to' = query (\<lambda>d. let ms = filter (\<lambda>m. mn_minute m \<ge> from \<and> mn_minute m < to') (ob_minutes d) in
     Inr (sum_list (map mn_requests ms), sum_list (map mn_server_errors ms)))"

definition selectOpenAutomatic :: "('x, (Incident \<times> nat) option) obs" where
  "selectOpenAutomatic = query (\<lambda>d. Inr (map_option (\<lambda>i. (i, length (timeline (ic_ID i) d))) (List.find open_automatic (ob_incidents d))))"

definition automatic_incident :: "go_format \<Rightarrow> Detection \<Rightarrow> DetectionResult \<Rightarrow> NewIncident" where
  "automatic_incident gf d res =
     \<lparr>ni_Title = ''Error rate above '' @ gf_percent gf (dt_Threshold d),
      ni_Summary = ''Opened automatically: '' @ gf_percent gf (ErrorRate gf res) @ '' of '' @ FormatInt (dr_Requests res) @
        '' requests were server errors over the last '' @ gf_duration gf (dt_Window d) @ '', above the '' @
        gf_percent gf (dt_Threshold d) @ '' threshold.'',
      ni_Severity = dt_Severity d, ni_Status = StatusInvestigating, ni_StartedAt = dr_From res,
      ni_Message = detectionMessage gf UpdateOpened d res\<rparr>"

definition openAutomatic :: "go_format \<Rightarrow> Detection \<Rightarrow> DetectionResult \<Rightarrow> time \<Rightarrow> ('x, DetectionResult) obs" where
  "openAutomatic gf d res now =
     bindC (openIncident (automatic_incident gf d res) SourceAutomatic (dt_Actor d) now) (\<lambda>r. case r of
       None \<Rightarrow> retC res
     | Some (inc, upd) \<Rightarrow> retC (res\<lparr>dr_Action := DetectionOpened, dr_Incident := Some inc, dr_Update := Some upd\<rparr>))"

text \<open>The error rate changed: the incident is stored, and its timeline gets an entry unless it is full.\<close>

definition note_rate :: "go_format \<Rightarrow> Detection \<Rightarrow> DetectionResult \<Rightarrow> time \<Rightarrow> Incident \<Rightarrow> nat \<Rightarrow> UpdateKind \<Rightarrow> ('x, DetectionResult) obs" where
  "note_rate gf d res now inc updates kind =
     bindC (storeIncident inc now) (\<lambda>stored.
     let res = res\<lparr>dr_Incident := Some stored\<rparr> in
     if updates \<ge> MaxIncidentUpdates then retC res
     else bindC (insertUpdate stored kind (detectionMessage gf kind d res) (dt_Actor d) now) (\<lambda>upd.
       retC (res\<lparr>dr_Update := Some upd\<rparr>)))"

text \<open>What detection does about the rate it saw, with the open automatic incident locked.\<close>

definition detect_act :: "go_format \<Rightarrow> Detection \<Rightarrow> DetectionResult \<Rightarrow> time \<Rightarrow> ('x, DetectionResult) obs" where
  "detect_act gf d res now =
     bindC selectOpenAutomatic (\<lambda>r. case r of
       None \<Rightarrow> if dr_Breaching res then openAutomatic gf d res now else retC res
     | Some (inc, updates) \<Rightarrow>
         let res = res\<lparr>dr_Incident := Some inc\<rparr> in
         if dr_Breaching res \<and> ic_RecoveredAt inc \<noteq> None
         then note_rate gf d (res\<lparr>dr_Action := DetectionBreaching\<rparr>) now (inc\<lparr>ic_RecoveredAt := None\<rparr>) updates UpdateBreaching
         else if dr_Healthy res \<and> ic_RecoveredAt inc = None
         then note_rate gf d (res\<lparr>dr_Action := DetectionRecovered\<rparr>) now (inc\<lparr>ic_RecoveredAt := Some now\<rparr>) updates UpdateRecovered
         else retC res)"

definition see_rate :: "go_format \<Rightarrow> Detection \<Rightarrow> DetectionResult \<Rightarrow> int \<times> int \<Rightarrow> DetectionResult" where
  "see_rate gf d res totals =
     (let res = res\<lparr>dr_Requests := fst totals, dr_ServerErrors := snd totals\<rparr>;
          enough = dr_Requests res \<ge> dt_MinRequests d;
          breaching = (enough \<and> ErrorRate gf res > dt_Threshold d) in
      res\<lparr>dr_Breaching := breaching, dr_Healthy := (enough \<and> \<not> breaching)\<rparr>)"

definition detect_tx :: "go_format \<Rightarrow> Detection \<Rightarrow> DetectionResult \<Rightarrow> time \<Rightarrow> ('x, DetectionResult) obs" where
  "detect_tx gf d res now =
     bindC (query (\<lambda>_. Inr ())) (\<lambda>_.
     bindC (selectTotals (dr_From res) (dr_To res)) (\<lambda>totals.
     detect_act gf d (see_rate gf d res totals) now))"

definition DetectIncident :: "go_format \<Rightarrow> time \<Rightarrow> Detection \<Rightarrow> ('x, DetectionResult) obs" where
  "DetectIncident gf now d =
     (let d = (if dt_Severity d = [] then d\<lparr>dt_Severity := SeveritySev2\<rparr> else d) in
      if dt_Window d < minute \<or> dt_Window d > hour then failC (Err ErrDetectionWindow)
      else if dt_Threshold d < 0 \<or> dt_Threshold d > 1 \<or> dt_MinRequests d < 1 then failC (Err ErrDetectionThreshold)
      else if a_Kind (dt_Actor d) = [] then failC (Err ErrDetectionActor)
      else
        let to' = truncate_to now minute + minute;
            res = \<lparr>dr_From = to' - truncate_to (dt_Window d) minute, dr_To = to', dr_Requests = 0, dr_ServerErrors = 0, dr_Breaching = False,
                   dr_Healthy = False, dr_Action = DetectionNone, dr_Incident = None, dr_Update = None\<rparr> in
        InTx (detect_tx gf d res now))"

definition minute_key :: "minute_row \<Rightarrow> time \<times> string \<times> string \<times> string" where
  "minute_key m = (mn_minute m, mn_instance m, mn_method m, mn_route m)"

definition DeleteBefore :: "time \<Rightarrow> int \<Rightarrow> ('x, nat) obs" where
  "DeleteBefore before limit =
     (if limit < 1 then failC (Err ErrMinutesLimit)
      else stmt (\<lambda>d. let gone = take (nat limit) (sort_key mn_minute (filter (\<lambda>m. mn_minute m < pg_time before) (ob_minutes d))) in
        (Inr (length gone), d\<lparr>ob_minutes := filter (\<lambda>m. minute_key m \<notin> minute_key ` set gone) (ob_minutes d)\<rparr>)))"

definition OldestMinute :: "('x, time option) obs" where
  "OldestMinute = query (\<lambda>d. Inr (if ob_minutes d = [] then None else Some (Min (set (map mn_minute (ob_minutes d))))))"

end
