(* ===== verification/Retention.thy ===== *)
theory Retention
  imports Flags_Store Settings_Store Ratelimit Idempotency Incidents
begin

text \<open>
  The built-in cleanup jobs (\<open>gorbital/internal/builtinjobs\<close>): loops that delete expired rows one batch at a time until a
  batch comes back short, and the retention job over all targets. The loops have no bound of their own, so they are
  partial functions: not returning is \<open>None\<close>.

  The locale \<open>batch_delete\<close> is what such a loop relies on; it is interpreted on the deletions of the stores whose rows
  the jobs delete: flag history, setting history, request minutes, idempotency keys and rate limit buckets.
\<close>

section \<open>The loops\<close>

definition RateLimitBatch :: int where "RateLimitBatch = 10000"
definition IdempotencyBatch :: int where "IdempotencyBatch = 1000"
definition ObservabilityBatch :: int where "ObservabilityBatch = 5000"
definition RetentionBatch :: int where "RetentionBatch = 5000"

text \<open>A deletion of up to so many rows: how many it deleted and its error.\<close>

type_synonym ('s, 'e) deletion = "int \<Rightarrow> 's \<Rightarrow> (int \<times> 'e option) \<times> 's"

partial_function (option) delete_loop :: "('s, 'e) deletion \<Rightarrow> int \<Rightarrow> int \<Rightarrow> 's \<Rightarrow> ((int \<times> 'e option) \<times> 's) option" where
  "delete_loop del batch deleted s =
     (case del batch s of
        ((n, err), s') \<Rightarrow>
          if err \<noteq> None \<or> n < batch then Some ((deleted + n, err), s')
          else delete_loop del batch (deleted + n) s')"

definition deleteBatches :: "int \<Rightarrow> ('s, 'e) deletion \<Rightarrow> 's \<Rightarrow> ((int \<times> 'e option) \<times> 's) option" where
  "deleteBatches batch del s = delete_loop del batch 0 s"

text \<open>The cleanup jobs return the error of the last batch; what they log is left out.\<close>

definition rateLimitCleanup_Work :: "('s, 'e) deletion \<Rightarrow> 's \<Rightarrow> ('e option \<times> 's) option" where
  "rateLimitCleanup_Work del s = map_option (\<lambda>((total, err), s). (err, s)) (deleteBatches RateLimitBatch del s)"

definition idempotencyCleanup_Work :: "('s, 'e) deletion \<Rightarrow> 's \<Rightarrow> ('e option \<times> 's) option" where
  "idempotencyCleanup_Work del s = map_option (\<lambda>((total, err), s). (err, s)) (deleteBatches IdempotencyBatch del s)"

definition observabilityCleanup_Work :: "(time \<Rightarrow> ('s, 'e) deletion) \<Rightarrow> time \<Rightarrow> duration \<Rightarrow> 's \<Rightarrow> ('e option \<times> 's) option" where
  "observabilityCleanup_Work del now retention s =
     (let before = now - retention in
      map_option (\<lambda>((total, err), s). (err, s)) (deleteBatches ObservabilityBatch (del before) s))"

text \<open>The detection job: the event of a detection that changed an incident.\<close>

definition detection_event :: "DetectionResult \<Rightarrow> Incident \<Rightarrow> Event" where
  "detection_event res inc = zero_Event\<lparr>e_ActorKind := KindSystem, e_ActorID := ''incidents_detect'', e_ActorLabel := ''incidents_detect'',
     e_ResourceType := ''incident'', e_ResourceID := FormatInt (ic_ID inc), e_Outcome := OutcomeSuccess,
     e_Metadata := [(''source'', MStr (ic_Source inc)), (''status'', MStr (ic_Status inc)), (''severity'', MStr (ic_Severity inc)),
       (''detection'', MStr (action_text (dr_Action res))), (''requests'', MInt (dr_Requests res)), (''server_errors'', MInt (dr_ServerErrors res))] @
       (case dr_Update res of None \<Rightarrow> [] | Some u \<Rightarrow> [(''update_id'', MInt (iu_ID u)), (''update_kind'', MStr (update_kind_text (iu_Kind u)))]),
     e_Action := (if dr_Action res = DetectionOpened then ''ops.incident.opened'' else ''ops.incident.updated'')\<rparr>"

definition incidentsDetect_Work :: "(ctx \<Rightarrow> 's \<Rightarrow> ('e + DetectionResult) \<times> 's) \<Rightarrow> (ctx \<Rightarrow> Event \<Rightarrow> 's \<Rightarrow> 'e option \<times> 's) \<Rightarrow> ctx \<Rightarrow> 's \<Rightarrow> 'e option \<times> 's" where
  "incidentsDetect_Work detect rec c s =
     (case detect c s of
        (Inl err, s) \<Rightarrow> (Some err, s)
      | (Inr res, s) \<Rightarrow>
          (case dr_Incident res of
             None \<Rightarrow> (None, s)
           | Some inc \<Rightarrow> if dr_Action res = DetectionNone then (None, s) else (None, snd (rec c (detection_event res inc) s))))"

text \<open>\<open>purge\<close> also stops when the context has ended, which it reads from the state it has reached.\<close>

partial_function (option) target_loop :: "('s \<Rightarrow> 'e option) \<Rightarrow> ('s, 'e) deletion \<Rightarrow> int \<Rightarrow> 's \<Rightarrow> ((int \<times> 'e option) \<times> 's) option" where
  "target_loop ctxErr del deleted s =
     (case del RetentionBatch s of
        ((n, err), s') \<Rightarrow>
          if err \<noteq> None \<or> n < RetentionBatch then Some ((deleted + n, err), s')
          else if ctxErr s' \<noteq> None then Some ((deleted + n, ctxErr s'), s')
          else target_loop ctxErr del (deleted + n) s')"

record ('s, 'e) Target =
  tg_Name :: string
  tg_Retention :: "ctx \<Rightarrow> 's \<Rightarrow> duration"
  tg_Delete :: "ctx \<Rightarrow> time \<Rightarrow> ('s, 'e) deletion"

definition purge :: "('s \<Rightarrow> 'e option) \<Rightarrow> ctx \<Rightarrow> ('s, 'e) Target \<Rightarrow> time \<Rightarrow> 's \<Rightarrow> ((int \<times> 'e option) \<times> 's) option" where
  "purge ctxErr c target before s = target_loop ctxErr (tg_Delete target c before) 0 s"

definition purged_event :: "string \<Rightarrow> int \<Rightarrow> time \<Rightarrow> Event" where
  "purged_event name deleted before = zero_Event\<lparr>e_Action := ''retention.purged'', e_Outcome := OutcomeSuccess, e_ResourceType := ''data'',
     e_ResourceID := name, e_Metadata := [(''rows'', MInt deleted), (''before'', MTime before)]\<rparr>"

text \<open>
  The retention job: the clock and the audit recorder are parameters; its result is the errors it joins and the state, or
  \<open>None\<close> when a target's deletion never ends.
\<close>

fun work_targets :: "('s \<Rightarrow> time) \<Rightarrow> ('s \<Rightarrow> 'e option) \<Rightarrow> (ctx \<Rightarrow> Event \<Rightarrow> 's \<Rightarrow> 'e option \<times> 's) \<Rightarrow> ctx \<Rightarrow> ('s, 'e) Target list \<Rightarrow>
    'e list \<Rightarrow> 's \<Rightarrow> ('e list \<times> 's) option" where
  "work_targets now ctxErr rec c [] errs s = Some (errs, s)"
| "work_targets now ctxErr rec c (target # targets) errs s =
     (let before = now s - tg_Retention target c s in
      case purge ctxErr c target before s of
        None \<Rightarrow> None
      | Some ((deleted, err), s) \<Rightarrow>
          (case (if deleted > 0 then rec c (purged_event (tg_Name target) deleted before) s else (None, s)) of
             (recErr, s) \<Rightarrow>
               work_targets now ctxErr rec c targets
                 (errs @ (case recErr of None \<Rightarrow> [] | Some e \<Rightarrow> [e]) @ (case err of None \<Rightarrow> [] | Some e \<Rightarrow> [e])) s))"

definition retention_Work :: "('s \<Rightarrow> time) \<Rightarrow> ('s \<Rightarrow> 'e option) \<Rightarrow> (ctx \<Rightarrow> Event \<Rightarrow> 's \<Rightarrow> 'e option \<times> 's) \<Rightarrow> ctx \<Rightarrow>
    ('s, 'e) Target list \<Rightarrow> 's \<Rightarrow> ('e list \<times> 's) option" where
  "retention_Work now ctxErr rec c targets s = work_targets now ctxErr rec (With c (System ''retention'')) targets [] s"

section \<open>What a loop relies on\<close>

text \<open>
  A deletion that comes back full has removed something, unless other sessions worked meanwhile, of whose changes
  only so many are to come; one that comes back short has left nothing that is expired.
\<close>

locale batch_delete =
  fixes del :: "('s, 'e) deletion"
    and inv :: "'s \<Rightarrow> bool"
    and busy :: "'s \<Rightarrow> nat"
    and left :: "'s \<Rightarrow> nat"
  assumes full: "inv s \<Longrightarrow> 0 < b \<Longrightarrow> del b s = ((n, None), s') \<Longrightarrow> b \<le> n \<Longrightarrow>
      inv s' \<and> (busy s' < busy s \<or> busy s' = busy s \<and> left s' < left s)"
    and short: "inv s \<Longrightarrow> 0 < b \<Longrightarrow> del b s = ((n, None), s') \<Longrightarrow> n < b \<Longrightarrow> left s' = 0"
begin

lemma loop_induct:
  assumes step: "\<And>s. inv s \<Longrightarrow> (\<And>n s'. del b s = ((n, None), s') \<Longrightarrow> b \<le> n \<Longrightarrow> inv s' \<Longrightarrow> P s') \<Longrightarrow> P s"
    and "0 < b" "inv s"
  shows "P s"
  using assms(3)
proof (induction s rule: wf_induct_rule [OF wf_measures [of "[busy, left]"]])
  case (1 s)
  show ?case
  proof (rule step [OF 1(2)])
    fix n s' assume "del b s = ((n, None), s')" "b \<le> n" "inv s'"
    with full [OF 1(2) assms(2)] 1(1) show "P s'" by simp
  qed
qed

lemma delete_loop_ends:
  assumes "0 < b" "inv s"
  shows "\<exists>n err s'. delete_loop del b deleted s = Some ((n, err), s') \<and> (err = None \<longrightarrow> left s' = 0)"
proof -
  have "\<forall>deleted. \<exists>n err s'. delete_loop del b deleted s = Some ((n, err), s') \<and> (err = None \<longrightarrow> left s' = 0)"
  proof (rule loop_induct [OF _ assms], intro allI)
    fix s deleted
    assume inv: "inv s" and IH: "\<And>n s'. del b s = ((n, None), s') \<Longrightarrow> b \<le> n \<Longrightarrow> inv s' \<Longrightarrow>
      \<forall>deleted. \<exists>n err t. delete_loop del b deleted s' = Some ((n, err), t) \<and> (err = None \<longrightarrow> left t = 0)"
    obtain n err s' where d: "del b s = ((n, err), s')" by (metis prod.collapse)
    show "\<exists>n err s'. delete_loop del b deleted s = Some ((n, err), s') \<and> (err = None \<longrightarrow> left s' = 0)"
      using short [OF inv assms(1)] full [OF inv assms(1)] IH d by (auto simp: delete_loop.simps [of del b deleted s])
  qed
  then show ?thesis by blast
qed

lemma target_loop_ends:
  assumes "inv s"
  shows "\<exists>n err s'. target_loop ctxErr del deleted s = Some ((n, err), s') \<and> (err = None \<longrightarrow> left s' = 0)"
proof -
  have pos: "0 < RetentionBatch" by (simp add: RetentionBatch_def)
  have "\<forall>deleted. \<exists>n err s'. target_loop ctxErr del deleted s = Some ((n, err), s') \<and> (err = None \<longrightarrow> left s' = 0)"
  proof (rule loop_induct [OF _ pos assms], intro allI)
    fix s deleted
    assume inv: "inv s" and IH: "\<And>n s'. del RetentionBatch s = ((n, None), s') \<Longrightarrow> RetentionBatch \<le> n \<Longrightarrow> inv s' \<Longrightarrow>
      \<forall>deleted. \<exists>n err t. target_loop ctxErr del deleted s' = Some ((n, err), t) \<and> (err = None \<longrightarrow> left t = 0)"
    obtain n err s' where d: "del RetentionBatch s = ((n, err), s')" by (metis prod.collapse)
    show "\<exists>n err s'. target_loop ctxErr del deleted s = Some ((n, err), s') \<and> (err = None \<longrightarrow> left s' = 0)"
      using short [OF inv pos] full [OF inv pos] IH d by (auto simp: target_loop.simps [of ctxErr del deleted s])
  qed
  then show ?thesis by blast
qed

end

section \<open>The stores' deletions\<close>

text \<open>A store's method as a deletion: it reports no rows with an error.\<close>

definition as_deletion :: "(int \<Rightarrow> ('db, 'x, 'e, nat) comp) \<Rightarrow> (('db, 'x) world, 'e goerr) deletion" where
  "as_deletion m = (\<lambda>limit w. case m limit w of (Inl e, w') \<Rightarrow> ((0, Some e), w') | (Inr n, w') \<Rightarrow> ((int n, None), w'))"

lemma as_deletion_run: "as_deletion m b w = ((n, None), w') \<longleftrightarrow> (\<exists>k. m b w = (Inr k, w') \<and> n = int k)"
  by (auto simp: as_deletion_def split: prod.splits sum.splits)

text \<open>A statement that deletes the first so many expired rows, in some order, by their keys.\<close>

lemma batch_delete_rows:
  fixes rows :: "('db, 'x) world \<Rightarrow> 'r list" and ord :: "'r \<Rightarrow> 'k :: linorder"
  assumes m: "\<And>b w k w'. 0 < b \<Longrightarrow> m b w = (Inr k, w') \<Longrightarrow> k = length (take (nat b) (sort_key ord (filter p (rows w)))) \<and>
      rows w' = filter (\<lambda>h. key h \<notin> key ` set (take (nat b) (sort_key ord (filter p (rows w))))) (rows w)"
  shows "batch_delete (as_deletion m) (\<lambda>w. distinct (map key (rows w))) (\<lambda>_. 0) (\<lambda>w. count_where p (rows w))"
proof
  fix s b n s'
  assume inv: "distinct (map key (rows s))" and b: "0 < b" and run: "as_deletion m b s = ((n, None), s')"
  let ?gone = "take (nat b) (sort_key ord (filter p (rows s)))"
  have n: "n = int (length ?gone)" and h: "rows s' = filter (\<lambda>h. key h \<notin> key ` set ?gone) (rows s)"
    using run m [OF b] by (auto simp: as_deletion_run)
  have len: "length ?gone = min (nat b) (count_where p (rows s))" by (simp add: count_where_def)
  have left: "count_where p (rows s') = count_where p (rows s) - nat b"
    unfolding h by (rule count_deleted_batch [OF inv])
  show "distinct (map key (rows s')) \<and> ((0::nat) < 0 \<or> (0::nat) = 0 \<and> count_where p (rows s') < count_where p (rows s))" if "b \<le> n"
    using that n len left b inv by (auto simp: h distinct_map_filterI)
  show "count_where p (rows s') = 0" if "n < b" using that n len left by auto
qed

definition flags_expired :: "time \<Rightarrow> ('j flags_db, flag_instance) world \<Rightarrow> nat" where
  "flags_expired before w = count_where (\<lambda>h. fh_changedAt h < before) (fd_history (db w))"

interpretation flag_history: batch_delete "as_deletion (DeleteHistoryBefore before)" "\<lambda>w. distinct (map fh_id (fd_history (db w)))"
    "\<lambda>_. 0" "flags_expired before" for before
  unfolding flags_expired_def [abs_def]
  by (rule batch_delete_rows [where ord = fh_id]) (auto simp: DeleteHistoryBefore_def run_elims Let_def)

definition settings_expired :: "time \<Rightarrow> (settings_db, set_instance) world \<Rightarrow> nat" where
  "settings_expired before w = count_where (\<lambda>h. sh_changedAt h < before) (tb_history (db w))"

interpretation setting_history: batch_delete "as_deletion (set_DeleteHistoryBefore before)" "\<lambda>w. distinct (map sh_id (tb_history (db w)))"
    "\<lambda>_. 0" "settings_expired before" for before
  unfolding settings_expired_def [abs_def]
  by (rule batch_delete_rows [where ord = sh_id]) (auto simp: set_DeleteHistoryBefore_def run_elims Let_def)

definition minutes_expired :: "time \<Rightarrow> (obs_db, unit) world \<Rightarrow> nat" where
  "minutes_expired before w = count_where (\<lambda>m. mn_minute m < pg_time before) (ob_minutes (db w))"

interpretation request_minutes: batch_delete "as_deletion (DeleteBefore before)" "\<lambda>w. distinct (map minute_key (ob_minutes (db w)))"
    "\<lambda>_. 0" "minutes_expired before" for before
  unfolding minutes_expired_def [abs_def]
  by (rule batch_delete_rows [where ord = mn_minute]) (auto simp: DeleteBefore_def run_elims Let_def)

text \<open>Idempotency keys: other sessions work between the batches, but only so many of them.\<close>

definition keys_expired :: "duration \<Rightarrow> ('j keys_db, 'x) world \<Rightarrow> nat" where
  "keys_expired retention w = count_where (\<lambda>k. k_created_at k \<le> k_now (db w) - Microseconds retention) (k_rows (db w))"

lemma deleteExpired_batch:
  assumes "keys_ok d" "deleteExpired retention m d = (n, d')"
  shows "n = min m (count_where (\<lambda>k. k_created_at k \<le> k_now d - Microseconds retention) (k_rows d)) \<and> keys_ok d' \<and> k_now d' = k_now d \<and>
    count_where (\<lambda>k. k_created_at k \<le> k_now d' - Microseconds retention) (k_rows d') =
      count_where (\<lambda>k. k_created_at k \<le> k_now d - Microseconds retention) (k_rows d) - m"
  using assms count_deleted_batch [of k_id "k_rows d" "\<lambda>k. k_created_at k \<le> k_now d - Microseconds retention" m k_created_at]
  by (auto simp: deleteExpired_def keys_ok_def Let_def count_where_def distinct_map_filterI)

interpretation idempotency_keys: batch_delete "as_deletion (idem_DeleteExpired st)" "\<lambda>w. keys_ok (db w) \<and> others_keep keys_ok w"
    "\<lambda>w. length (others w)" "keys_expired (st_retention st)" for st
proof
  fix s :: "('a keys_db, 'b) world" and b n s'
  assume inv: "keys_ok (db s) \<and> others_keep keys_ok s" and b: "0 < b" and run: "as_deletion (idem_DeleteExpired st) b s = ((n, None), s')"
  let ?s = "interfere s"
  have ok: "keys_ok (db ?s)" "others_keep keys_ok ?s" using inv interfere_keeps [of keys_ok s]
    by (auto simp: others_keep_def interfere_def split: list.splits)
  obtain k d' where k: "deleteExpired (st_retention st) (nat b) (db ?s) = (k, d')" by fastforce
  with run b have s': "n = int k" "db s' = d'" "others s' = others ?s"
    by (auto simp: as_deletion_run idem_DeleteExpired_def sess_def run_elims)
  note batch = deleteExpired_batch [OF ok(1) k]
  have others: "others s = [] \<and> ?s = s \<or> length (others s') < length (others s)" using s'(3) by (auto simp: interfere_def split: list.splits)
  show "(keys_ok (db s') \<and> others_keep keys_ok s') \<and> (length (others s') < length (others s) \<or>
      length (others s') = length (others s) \<and> keys_expired (st_retention st) s' < keys_expired (st_retention st) s)" if "b \<le> n"
    using that batch s' others ok b by (auto simp: keys_expired_def others_keep_def)
  show "keys_expired (st_retention st) s' = 0" if "n < b" using that batch s' by (auto simp: keys_expired_def)
qed

text \<open>Rate limit buckets: \<open>picked\<close> is the order in which the database meets the keys, each of which it meets.\<close>

definition buckets_expired :: "time \<Rightarrow> buckets \<Rightarrow> string \<Rightarrow> bool" where
  "buckets_expired now bs k = (case bs k of Some tat \<Rightarrow> tat < now | None \<Rightarrow> False)"

definition ratelimit_deletion :: "time \<Rightarrow> string list \<Rightarrow> (buckets, unit) deletion" where
  "ratelimit_deletion now picked = (\<lambda>limit bs. case DeleteExpired now picked (nat limit) bs of (n, bs') \<Rightarrow> ((int n, None), bs'))"

interpretation limit_buckets: batch_delete "ratelimit_deletion now picked" "\<lambda>bs. dom bs \<subseteq> set picked"
    "\<lambda>_. 0" "\<lambda>bs. card {k. buckets_expired now bs k}" for now picked
proof
  fix s :: buckets and b n s'
  assume inv: "dom s \<subseteq> set picked" and b: "0 < b" and run: "ratelimit_deletion now picked b s = ((n, None), s')"
  let ?all = "filter (buckets_expired now s) (remdups picked)"
  let ?gone = "take (nat b) ?all"
  have eq: "n = int (length ?gone)" "s' = s |` (- set ?gone)"
    using run by (auto simp: ratelimit_deletion_def DeleteExpired_def Let_def buckets_expired_def [abs_def])
  have all: "{k. buckets_expired now s k} = set ?all" using inv by (auto simp: buckets_expired_def split: option.splits)
  have rest: "{k. buckets_expired now s' k} = set ?all - set ?gone"
    using all eq(2) by (auto simp: buckets_expired_def restrict_map_def split: option.splits if_splits)
  have "distinct ?all" by simp
  then have cards: "card (set ?all) = length ?all" "card (set ?gone) = length ?gone" by (rule distinct_card, simp add: distinct_card)
  then have left: "card {k. buckets_expired now s' k} = length ?all - length ?gone"
    unfolding rest by (subst card_Diff_subset) (auto dest: in_set_takeD simp: cards)
  show "dom s' \<subseteq> set picked \<and> ((0::nat) < 0 \<or> (0::nat) = 0 \<and> card {k. buckets_expired now s' k} < card {k. buckets_expired now s k})" if "b \<le> n"
    using that inv b eq left unfolding all cards(1) by (auto simp: restrict_map_def split: if_splits)
  show "card {k. buckets_expired now s' k} = 0" if "n < b" using that eq(1) left by auto
qed

section \<open>The jobs end\<close>

text \<open>A failing target does not stop the others: the job returns whenever every target's deletion does.\<close>

lemma retention_Work_ends:
  assumes "\<And>t c before s. t \<in> set targets \<Longrightarrow> \<exists>r. purge ctxErr c t before s = Some r"
  shows "\<exists>errs s'. retention_Work now ctxErr rec c targets s = Some (errs, s')"
proof -
  have "\<exists>errs s'. work_targets now ctxErr rec c' targets errs0 s = Some (errs, s')" for c' errs0
    using assms
  proof (induction targets arbitrary: errs0 s)
    case (Cons t targets)
    from Cons.prems [of t c' "now s - tg_Retention t c' s" s] obtain n err s1
      where "purge ctxErr c' t (now s - tg_Retention t c' s) s = Some ((n, err), s1)" by auto
    with Cons.IH Cons.prems show ?case by (auto simp: Let_def split: prod.splits)
  qed simp
  then show ?thesis by (simp add: retention_Work_def)
qed

lemma batches_end:
  assumes "batch_delete del ok busy left" "0 < b" "ok s"
  shows "\<exists>err s'. map_option (\<lambda>((total, err), s). (err, s)) (deleteBatches b del s) = Some (err, s') \<and> (err = None \<longrightarrow> left s' = 0)"
proof -
  from batch_delete.delete_loop_ends [OF assms, of 0] obtain n err s'
    where "delete_loop del b 0 s = Some ((n, err), s')" "err = None \<longrightarrow> left s' = 0" by blast
  then show ?thesis by (simp add: deleteBatches_def)
qed

text \<open>
  C26: the cleanup jobs end and leave nothing behind. The retention job's deletion of flag history and of setting history,
  the idempotency, rate limit and request minute cleanup jobs have loops without a bound of their own. Each returns, whatever
  faults its statements meet, whatever its context does, and, for the idempotency keys, whatever other sessions do between the batches; and when it
  returns no error, no expired row is left. Rows have distinct keys, as their tables make sure.
\<close>

theorem cleanup_ends:
  assumes "distinct (map fh_id (fd_history (db vf)))" "distinct (map sh_id (tb_history (db vs)))"
    and "keys_ok (db vi)" "others_keep keys_ok vi" "dom bs \<subseteq> set picked" "distinct (map minute_key (ob_minutes (db vm)))"
    and "tg_Delete tf c before = as_deletion (DeleteHistoryBefore before)" "tg_Delete ts c before = as_deletion (set_DeleteHistoryBefore before)"
  shows "(\<exists>n err w'. purge ctxErr c tf before vf = Some ((n, err), w') \<and> (err = None \<longrightarrow> flags_expired before w' = 0)) \<and>
    (\<exists>n err w'. purge ctxErr' c ts before vs = Some ((n, err), w') \<and> (err = None \<longrightarrow> settings_expired before w' = 0)) \<and>
    (\<exists>err w'. idempotencyCleanup_Work (as_deletion (idem_DeleteExpired st)) vi = Some (err, w') \<and>
      (err = None \<longrightarrow> keys_expired (st_retention st) w' = 0)) \<and>
    (\<exists>err bs'. rateLimitCleanup_Work (ratelimit_deletion now picked) bs = Some (err, bs') \<and>
      (err = None \<longrightarrow> card {k. buckets_expired now bs' k} = 0)) \<and>
    (\<exists>err w'. observabilityCleanup_Work (\<lambda>before. as_deletion (DeleteBefore before)) now retention vm = Some (err, w') \<and>
      (err = None \<longrightarrow> minutes_expired (now - retention) w' = 0))"
proof (intro conjI)
  have pos: "0 < IdempotencyBatch" "0 < RateLimitBatch" "0 < ObservabilityBatch"
    by (simp_all add: IdempotencyBatch_def RateLimitBatch_def ObservabilityBatch_def)
  show "\<exists>n err w'. purge ctxErr c tf before vf = Some ((n, err), w') \<and> (err = None \<longrightarrow> flags_expired before w' = 0)"
    unfolding purge_def assms(7) by (rule flag_history.target_loop_ends [OF assms(1)])
  show "\<exists>n err w'. purge ctxErr' c ts before vs = Some ((n, err), w') \<and> (err = None \<longrightarrow> settings_expired before w' = 0)"
    unfolding purge_def assms(8) by (rule setting_history.target_loop_ends [OF assms(2)])
  show "\<exists>err w'. idempotencyCleanup_Work (as_deletion (idem_DeleteExpired st)) vi = Some (err, w') \<and>
      (err = None \<longrightarrow> keys_expired (st_retention st) w' = 0)"
    unfolding idempotencyCleanup_Work_def using assms(3,4) by (intro batches_end [OF idempotency_keys.batch_delete_axioms pos(1)]) simp
  show "\<exists>err bs'. rateLimitCleanup_Work (ratelimit_deletion now picked) bs = Some (err, bs') \<and>
      (err = None \<longrightarrow> card {k. buckets_expired now bs' k} = 0)"
    unfolding rateLimitCleanup_Work_def using assms(5) by (intro batches_end [OF limit_buckets.batch_delete_axioms pos(2)]) simp
  show "\<exists>err w'. observabilityCleanup_Work (\<lambda>before. as_deletion (DeleteBefore before)) now retention vm = Some (err, w') \<and>
      (err = None \<longrightarrow> minutes_expired (now - retention) w' = 0)"
    unfolding observabilityCleanup_Work_def Let_def using assms(6) by (intro batches_end [OF request_minutes.batch_delete_axioms pos(3)]) simp
qed

definition history_target :: "(int \<Rightarrow> ('db, 'x, 'e, nat) comp) \<Rightarrow> (('db, 'x) world, 'e goerr) Target" where
  "history_target m = \<lparr>tg_Name = ''history'', tg_Retention = (\<lambda>_ _. 100), tg_Delete = (\<lambda>_ _. as_deletion m)\<rparr>"

definition old_settings :: "(settings_db, set_instance) world" where
  "old_settings = \<lparr>db = \<lparr>tb_values = [], tb_history = [\<lparr>sh_id = 1, sh_key = ''a.b'', sh_orgID = [], sh_oldValue = None, sh_newValue = None,
     sh_version = 1, sh_reason = [], sh_actorKind = KindUser, sh_actorID = ''ada'', sh_requestID = [], sh_changedAt = 5\<rparr>],
     tb_nextID = 2, tb_now = 700, tb_notified = []\<rparr>, faults = [], others = [], ext = \<lparr>si_reg = set_NewRegistry, si_events = []\<rparr>\<rparr>"

definition no_keys :: "(unit keys_db, unit) world" where
  "no_keys = \<lparr>db = \<lparr>k_rows = [], k_now = 0\<rparr>, faults = [], others = [], ext = ()\<rparr>"

definition no_minutes :: "(obs_db, unit) world" where
  "no_minutes = \<lparr>db = \<lparr>ob_incidents = [], ob_updates = [], ob_minutes = [], ob_nextIncident = 1, ob_nextUpdate = 1\<rparr>, faults = [], others = [], ext = ()\<rparr>"

lemma old_settings_purge: "\<exists>w'. purge (\<lambda>_. None) Background (history_target (set_DeleteHistoryBefore 600)) 600 old_settings = Some ((1, None), w')"
  by (simp add: purge_def history_target_def target_loop.simps as_deletion_def set_DeleteHistoryBefore_def RetentionBatch_def old_settings_def
      stmt_def Let_def)

theorem cleanup_ends_witness:
  "\<exists>w'. purge (\<lambda>_. None) Background (history_target (set_DeleteHistoryBefore 600)) 600 old_settings = Some ((1, None), w') \<and>
     settings_expired 600 w' = 0"
proof -
  have "distinct (map fh_id (fd_history (db flags_world)))" by (simp add: flags_world_def)
  moreover have "distinct (map sh_id (tb_history (db old_settings)))" by (simp add: old_settings_def)
  moreover have "keys_ok (db no_keys)" "others_keep keys_ok no_keys" by (simp_all add: no_keys_def keys_ok_def others_keep_def)
  moreover have "dom (Map.empty :: buckets) \<subseteq> set []" by simp
  moreover have "distinct (map minute_key (ob_minutes (db no_minutes)))" by (simp add: no_minutes_def)
  moreover have "tg_Delete (history_target (DeleteHistoryBefore 600)) Background 600 = as_deletion (DeleteHistoryBefore 600)"
    "tg_Delete (history_target (set_DeleteHistoryBefore 600)) Background 600 = as_deletion (set_DeleteHistoryBefore 600)"
    by (simp_all add: history_target_def)
  ultimately have "\<exists>n err w'. purge (\<lambda>_. None) Background (history_target (set_DeleteHistoryBefore 600)) 600 old_settings = Some ((n, err), w') \<and>
     (err = None \<longrightarrow> settings_expired 600 w' = 0)"
    by (rule cleanup_ends [THEN conjunct2, THEN conjunct1])
  then show ?thesis using old_settings_purge by auto
qed

end
