(* ===== verification/Collector.thy ===== *)
theory Collector
  imports Go_Text "HOL-Library.List_Lexorder"
begin

text \<open>
  The request collector of \<open>modules/observability\<close> (\<open>histogram.go\<close>, \<open>collector.go\<close>, \<open>middleware.go\<close>): every instance counts
  its finished requests in windows of a minute, one series per method and route, and flushes them to a sink.

  A window is held by reference in the code; at most one held window has a given start, so a reference is the window's start
  here. \<open>Record\<close>, and the parts of \<open>Flush\<close> under the lock, are atomic; the requests other goroutines record while the sink
  writes are an argument of \<open>Flush\<close>. Counters are integers: an \<open>int64\<close> of requests or of nanoseconds does not overflow in
  the one minute a series lasts.
\<close>

section \<open>The latency histogram\<close>

definition bucketBounds :: "duration list" where
  "bucketBounds =
     [250 * microsecond, 500 * microsecond,
      millisecond, 1500 * microsecond, 2 * millisecond, 3 * millisecond, 4 * millisecond, 5 * millisecond, 7500 * microsecond,
      10 * millisecond, 15 * millisecond, 20 * millisecond, 30 * millisecond, 40 * millisecond, 50 * millisecond, 75 * millisecond,
      100 * millisecond, 150 * millisecond, 200 * millisecond, 300 * millisecond, 400 * millisecond, 500 * millisecond, 750 * millisecond,
      second, 1500 * millisecond, 2 * second, 3 * second, 4 * second, 5 * second, 7500 * millisecond,
      10 * second, 15 * second, 30 * second, minute]"

definition BucketCount :: nat where
  "BucketCount = length bucketBounds + 1"

text \<open>\<open>slices.BinarySearch\<close>: the first index in \<open>[i, j)\<close> whose element is not below the target.\<close>

function binary_search :: "int list \<Rightarrow> int \<Rightarrow> nat \<Rightarrow> nat \<Rightarrow> nat" where
  "binary_search x target i j =
     (if i < j then
        let h = (i + j) div 2 in
        if x ! h < target then binary_search x target (h + 1) j else binary_search x target i h
      else i)"
  by pat_completeness auto
termination by (relation "measure (\<lambda>(x, target, i, j). j - i)") auto

declare binary_search.simps [simp del]

definition bucketOf :: "duration \<Rightarrow> nat" where
  "bucketOf d = binary_search bucketBounds d 0 (length bucketBounds)"

record Stats =
  st_Requests :: int
  st_ClientErrors :: int
  st_ServerErrors :: int
  st_DurationSum :: duration
  st_DurationMax :: duration
  st_Buckets :: "int list"

text \<open>Go's integer division truncates; the sum of durations is not negative.\<close>

definition Mean :: "Stats \<Rightarrow> duration" where
  "Mean s = (if st_Requests s \<le> 0 then 0 else st_DurationSum s div st_Requests s)"

section \<open>Windows\<close>

definition OverflowRoute :: string where "OverflowRoute = ''_overflow''"
definition OtherMethod :: string where "OtherMethod = ''_OTHER''"
definition closeGrace :: duration where "closeGrace = second"

type_synonym seriesKey = "string \<times> string"

record window =
  wn_start :: int
  wn_closedAt :: time
  wn_series :: "(seriesKey \<times> Stats) list"

record FinishedRequest =
  rq_Time :: time
  rq_Method :: string
  rq_Route :: string
  rq_Status :: int
  rq_Duration :: duration
  rq_Path :: string
  rq_RequestID :: string
  rq_TraceID :: string

record Minute =
  mi_Start :: time
  mi_Instance :: string
  mi_Method :: string
  mi_Route :: string
  mi_Stats :: Stats

definition standardMethods :: "string list" where
  "standardMethods = [''GET'', ''HEAD'', ''POST'', ''PUT'', ''PATCH'', ''DELETE'', ''CONNECT'', ''OPTIONS'', ''TRACE'']"

definition normalizeMethod :: "string \<Rightarrow> string" where
  "normalizeMethod m = (if m \<in> set standardMethods then m else OtherMethod)"

definition routeOf :: "string \<Rightarrow> string" where
  "routeOf pattern = dropWhile (\<lambda>c. c \<noteq> CHR ''/'') pattern"

definition zero_series :: Stats where
  "zero_series = \<lparr>st_Requests = 0, st_ClientErrors = 0, st_ServerErrors = 0, st_DurationSum = 0, st_DurationMax = 0,
     st_Buckets = replicate BucketCount 0\<rparr>"

definition count_request :: "int \<Rightarrow> duration \<Rightarrow> Stats \<Rightarrow> Stats" where
  "count_request status d s =
     (let d = max d 0 in
      s\<lparr>st_Requests := st_Requests s + 1,
        st_ServerErrors := st_ServerErrors s + (if status \<ge> 500 then 1 else 0),
        st_ClientErrors := st_ClientErrors s + (if \<not> status \<ge> 500 \<and> status \<ge> 400 then 1 else 0),
        st_DurationSum := st_DurationSum s + d,
        st_DurationMax := max (st_DurationMax s) d,
        st_Buckets := (st_Buckets s)[bucketOf d := st_Buckets s ! bucketOf d + 1]\<rparr>)"

definition newWindow :: "int \<Rightarrow> window" where
  "newWindow start = \<lparr>wn_start = start, wn_closedAt = 0, wn_series = []\<rparr>"

definition upd_series :: "seriesKey \<Rightarrow> (Stats \<Rightarrow> Stats) \<Rightarrow> (seriesKey \<times> Stats) list \<Rightarrow> (seriesKey \<times> Stats) list" where
  "upd_series key f ss =
     (if key \<in> fst ` set ss then map (\<lambda>(k, s). (k, if k = key then f s else s)) ss else ss @ [(key, f zero_series)])"

definition window_record :: "string \<Rightarrow> string \<Rightarrow> int \<Rightarrow> duration \<Rightarrow> int \<Rightarrow> window \<Rightarrow> window" where
  "window_record method route status d maxSeries w =
     (let key = (method, route);
          key = (if map_of (wn_series w) key = None \<and> int (length (wn_series w)) \<ge> maxSeries then (OtherMethod, OverflowRoute) else key) in
      w\<lparr>wn_series := upd_series key (count_request status d) (wn_series w)\<rparr>)"

text \<open>The minutes of a window by route and method; a map has no order of its own, so equal texts may come in either order.\<close>

definition window_minutes :: "string \<Rightarrow> window \<Rightarrow> Minute list" where
  "window_minutes inst w =
     sort_key (\<lambda>m. map byte (mi_Route m @ '' '' @ mi_Method m))
       (map (\<lambda>((method, route), s). \<lparr>mi_Start = from_Unix (wn_start w), mi_Instance = inst, mi_Method = method, mi_Route = route, mi_Stats = s\<rparr>)
         (wn_series w))"

definition window_requests :: "window \<Rightarrow> int" where
  "window_requests w = sum_list (map (st_Requests \<circ> snd) (wn_series w))"

section \<open>The collector\<close>

record Collector =
  co_instance :: string
  co_flushInterval :: duration
  co_maxSeries :: int
  co_maxPending :: int
  co_current :: "window option"
  co_pending :: "window list"
  co_latest :: int
  co_lost :: int
  co_subscribers :: "nat list"
  co_nextSubscriber :: nat

definition MaxInstanceLength :: nat where "MaxInstanceLength = 64"

datatype collector_error = InstanceTooLong | BadFlushInterval | BadLimits

text \<open>The instance defaults to a random ID.\<close>

definition NewCollector :: "string \<Rightarrow> string \<Rightarrow> duration \<Rightarrow> int \<Rightarrow> int \<Rightarrow> collector_error list + Collector" where
  "NewCollector random inst flushInterval maxSeries maxPending =
     (let inst = (if inst = [] then random else inst);
          errs = (if length inst > MaxInstanceLength then [InstanceTooLong] else []) @
                 (if flushInterval < second \<or> flushInterval > minute then [BadFlushInterval] else []) @
                 (if maxSeries < 1 \<or> maxPending < 1 then [BadLimits] else []) in
      if errs \<noteq> [] then Inl errs
      else Inr \<lparr>co_instance = inst, co_flushInterval = flushInterval, co_maxSeries = maxSeries, co_maxPending = maxPending,
                co_current = None, co_pending = [], co_latest = 0, co_lost = 0, co_subscribers = [], co_nextSubscriber = 0\<rparr>)"

definition current_list :: "Collector \<Rightarrow> window list" where
  "current_list c = (case co_current c of None \<Rightarrow> [] | Some w \<Rightarrow> [w])"

definition held_windows :: "Collector \<Rightarrow> window list" where
  "held_windows c = co_pending c @ current_list c"

definition heldLocked :: "int \<Rightarrow> Collector \<Rightarrow> window option" where
  "heldLocked m c = List.find (\<lambda>w. wn_start w = m) (current_list c @ co_pending c)"

fun trim_pending :: "int \<Rightarrow> int \<Rightarrow> window list \<Rightarrow> int \<times> window list" where
  "trim_pending maxPending lost [] = (lost, [])"
| "trim_pending maxPending lost (w # ws) =
     (if int (length (w # ws)) > maxPending then trim_pending maxPending (lost + window_requests w) ws else (lost, w # ws))"

definition closeLocked :: "window \<Rightarrow> time \<Rightarrow> Collector \<Rightarrow> Collector" where
  "closeLocked w now c =
     (case trim_pending (co_maxPending c) (co_lost c) (co_pending c @ [w\<lparr>wn_closedAt := now\<rparr>]) of
        (lost, ws) \<Rightarrow> c\<lparr>co_lost := lost, co_pending := ws\<rparr>)"

definition windowFor :: "int \<Rightarrow> time \<Rightarrow> Collector \<Rightarrow> int option \<times> Collector" where
  "windowFor m now c =
     (case heldLocked m c of
        Some w \<Rightarrow> (Some (wn_start w), c)
      | None \<Rightarrow>
          if co_latest c \<noteq> 0 \<and> m \<le> co_latest c then (map_option wn_start (heldLocked (co_latest c) c), c)
          else
            let c = (case co_current c of None \<Rightarrow> c | Some cur \<Rightarrow> closeLocked cur now c) in
            (Some m, c\<lparr>co_latest := m, co_current := Some (newWindow m)\<rparr>))"

definition update_window :: "int \<Rightarrow> (window \<Rightarrow> window) \<Rightarrow> Collector \<Rightarrow> Collector" where
  "update_window start f c =
     c\<lparr>co_current := map_option (\<lambda>w. if wn_start w = start then f w else w) (co_current c),
       co_pending := update_where (\<lambda>w. wn_start w = start) f (co_pending c)\<rparr>"

definition minute_of :: "time \<Rightarrow> int" where
  "minute_of t = Unix (truncate_to t minute)"

text \<open>\<open>Record\<close> and the subscribers it called.\<close>

definition Record :: "FinishedRequest \<Rightarrow> Collector \<Rightarrow> Collector \<times> nat list" where
  "Record r c =
     (let m = minute_of (rq_Time r) in
      case (if map_option wn_start (co_current c) = Some m then (Some m, c) else windowFor m (rq_Time r) c) of
        (None, c) \<Rightarrow> (c\<lparr>co_lost := co_lost c + 1\<rparr>, [])
      | (Some start, c) \<Rightarrow>
          (update_window start (window_record (normalizeMethod (rq_Method r)) (rq_Route r) (rq_Status r) (rq_Duration r) (co_maxSeries c)) c,
           co_subscribers c))"

definition Minutes :: "Collector \<Rightarrow> Minute list" where
  "Minutes c = concat (map (window_minutes (co_instance c)) (held_windows c))"

definition flush_begin :: "time \<Rightarrow> Collector \<Rightarrow> Collector" where
  "flush_begin now c =
     (case co_current c of
        None \<Rightarrow> c
      | Some cur \<Rightarrow> if wn_start cur < minute_of now then closeLocked cur now (c\<lparr>co_current := None\<rparr>) else c)"

definition flush_end :: "time \<Rightarrow> window list \<Rightarrow> Collector \<Rightarrow> Collector" where
  "flush_end now windows c =
     c\<lparr>co_pending := filter (\<lambda>w. \<not> (wn_start w \<in> wn_start ` set windows \<and> wn_closedAt w \<le> now - closeGrace)) (co_pending c)\<rparr>"

type_synonym ('s, 'e) sink = "Minute list \<Rightarrow> 's \<Rightarrow> 'e option \<times> 's"

definition Flush :: "('s, 'e) sink option \<Rightarrow> time \<Rightarrow> FinishedRequest list \<Rightarrow> Collector \<times> 's \<Rightarrow> 'e option \<times> Collector \<times> 's" where
  "Flush sink now meanwhile cs =
     (let c = flush_begin now (fst cs);
          windows = held_windows c;
          minutes = Minutes c;
          (err, s) = (case sink of None \<Rightarrow> (None, snd cs) | Some write \<Rightarrow> if minutes \<noteq> [] then write minutes (snd cs) else (None, snd cs));
          c = fold (\<lambda>r c. fst (Record r c)) meanwhile c in
      (err, if err = None then flush_end now windows c else c, s))"

definition closeCurrent :: "time \<Rightarrow> Collector \<Rightarrow> Collector" where
  "closeCurrent now c =
     (case co_current c of None \<Rightarrow> c | Some cur \<Rightarrow> closeLocked cur (now - closeGrace) (c\<lparr>co_current := None\<rparr>))"

text \<open>What happens to a running collector: a request finishes, or its ticker fires and it flushes; then it stops.\<close>

datatype col_event = Finished FinishedRequest | Tick time "FinishedRequest list"

fun run_event :: "('s, 'e) sink option \<Rightarrow> col_event \<Rightarrow> Collector \<times> 's \<Rightarrow> Collector \<times> 's" where
  "run_event sink (Finished r) (c, s) = (fst (Record r c), s)"
| "run_event sink (Tick now meanwhile) cs = snd (Flush sink now meanwhile cs)"

definition Run :: "('s, 'e) sink option \<Rightarrow> col_event list \<Rightarrow> time \<Rightarrow> time \<Rightarrow> Collector \<times> 's \<Rightarrow> 'e option \<times> Collector \<times> 's" where
  "Run sink es stopped final cs =
     (case fold (run_event sink) es cs of (c, s) \<Rightarrow> Flush sink final [] (closeCurrent stopped c, s))"

definition Subscribe :: "Collector \<Rightarrow> nat \<times> Collector" where
  "Subscribe c = (co_nextSubscriber c, c\<lparr>co_subscribers := co_subscribers c @ [co_nextSubscriber c], co_nextSubscriber := co_nextSubscriber c + 1\<rparr>)"

definition unsubscribe :: "nat \<Rightarrow> Collector \<Rightarrow> Collector" where
  "unsubscribe n c = c\<lparr>co_subscribers := filter (\<lambda>o'. o' \<noteq> n) (co_subscribers c)\<rparr>"

section \<open>The middleware\<close>

text \<open>What a handler writes, and the status the recorder keeps of it.\<close>

datatype written_part = WriteHeader int | WriteBody

fun recorder_status :: "int \<Rightarrow> written_part \<Rightarrow> int" where
  "recorder_status status (WriteHeader code) = (if status = 0 \<and> code \<ge> 200 then code else status)"
| "recorder_status status WriteBody = (if status = 0 then 200 else status)"

text \<open>
  A request the middleware saw finish: \<open>pattern\<close> is the pattern of the request the recorder wrapped and \<open>routed\<close> the one
  \<open>RecordRoute\<close> saw, when it wrapped the router.
\<close>

definition middleware_status :: "written_part list \<Rightarrow> bool \<Rightarrow> int" where
  "middleware_status ws completed =
     (let status = fold (\<lambda>w s. recorder_status s w) ws 0 in if \<not> completed then 500 else if status = 0 then 200 else status)"

definition middleware_route :: "string option \<Rightarrow> string \<Rightarrow> string" where
  "middleware_route routed pattern =
     (let route = (case routed of None \<Rightarrow> [] | Some p \<Rightarrow> routeOf p) in if route = [] then routeOf pattern else route)"

definition Middleware_request :: "time \<Rightarrow> duration \<Rightarrow> string \<Rightarrow> written_part list \<Rightarrow> bool \<Rightarrow> string option \<Rightarrow> string \<Rightarrow>
    string \<Rightarrow> string \<Rightarrow> string \<Rightarrow> Collector \<Rightarrow> FinishedRequest" where
  "Middleware_request now d method ws completed routed pattern path requestID traceID c =
     (let seen = co_subscribers c \<noteq> [] in
      \<lparr>rq_Time = now, rq_Method = method, rq_Route = middleware_route routed pattern, rq_Status = middleware_status ws completed,
       rq_Duration = d, rq_Path = (if seen then path else []), rq_RequestID = (if seen then requestID else []),
       rq_TraceID = (if seen then traceID else [])\<rparr>)"

end
