(* ===== verification/Collector_Props.thy ===== *)
theory Collector_Props
  imports Collector
begin

text \<open>
  The collector's invariant and its bounds. What a series counts is a counter: the locale \<open>counter\<close> states what \<open>Record\<close>
  adds to one, and is interpreted on requests, client errors and server errors.
\<close>

section \<open>Buckets\<close>

lemma binary_search_spec:
  assumes "sorted x" "i \<le> j" "j \<le> length x" "\<forall>n < i. x ! n < target" "\<forall>n. j \<le> n \<longrightarrow> n < length x \<longrightarrow> target \<le> x ! n"
  shows "i \<le> binary_search x target i j \<and> binary_search x target i j \<le> j \<and>
    (\<forall>n < binary_search x target i j. x ! n < target) \<and>
    (\<forall>n. binary_search x target i j \<le> n \<longrightarrow> n < length x \<longrightarrow> target \<le> x ! n)"
  using assms
proof (induction x target i j rule: binary_search.induct)
  case (1 x target i j)
  let ?h = "(i + j) div 2"
  show ?case
  proof (cases "i < j")
    case False
    then have "binary_search x target i j = i" by (subst binary_search.simps) simp
    with False 1(4,6,7) show ?thesis by auto
  next
    case True
    show ?thesis
    proof (cases "x ! ?h < target")
      case lt: True
      have below: "\<forall>n < ?h + 1. x ! n < target"
      proof (intro allI impI)
        fix n assume "n < ?h + 1"
        then have "x ! n \<le> x ! ?h" using 1(3,5) True by (intro sorted_nth_mono) auto
        with lt show "x ! n < target" by simp
      qed
      have eq: "binary_search x target i j = binary_search x target (?h + 1) j"
        using True lt by (subst binary_search.simps) (simp add: Let_def)
      have "?h + 1 \<le> j" and "i \<le> ?h" using True by simp_all
      from 1(1) [OF True refl lt 1(3) this(1) 1(5) below 1(7)] this(2) show ?thesis unfolding eq by auto
    next
      case ge: False
      have above: "\<forall>n. ?h \<le> n \<longrightarrow> n < length x \<longrightarrow> target \<le> x ! n"
      proof (intro allI impI)
        fix n assume "?h \<le> n" "n < length x"
        then have "x ! ?h \<le> x ! n" using 1(3) by (intro sorted_nth_mono) auto
        with ge show "target \<le> x ! n" by simp
      qed
      have eq: "binary_search x target i j = binary_search x target i ?h"
        using True ge by (subst binary_search.simps) (simp add: Let_def)
      have "i \<le> ?h" "?h \<le> length x" using True 1(5) by simp_all
      from 1(2) [OF True refl ge 1(3) this 1(6) above] True show ?thesis unfolding eq by auto
    qed
  qed
qed

lemma sorted_bucketBounds: "sorted bucketBounds"
  by (simp add: bucketBounds_def)

lemma bucketOf_spec:
  "bucketOf d \<le> length bucketBounds \<and> (\<forall>n < bucketOf d. bucketBounds ! n < d) \<and>
   (\<forall>n. bucketOf d \<le> n \<longrightarrow> n < length bucketBounds \<longrightarrow> d \<le> bucketBounds ! n)"
  using binary_search_spec [OF sorted_bucketBounds, of 0 "length bucketBounds" d] unfolding bucketOf_def by simp

lemma bucketOf_less: "bucketOf d < BucketCount"
  using bucketOf_spec [of d] by (simp add: BucketCount_def)

section \<open>Series\<close>

definition stats_ok :: "Stats \<Rightarrow> bool" where
  "stats_ok s \<longleftrightarrow> 0 \<le> st_ClientErrors s \<and> 0 \<le> st_ServerErrors s \<and> st_ClientErrors s + st_ServerErrors s \<le> st_Requests s \<and>
     length (st_Buckets s) = BucketCount \<and> sum_list (st_Buckets s) = st_Requests s \<and> 0 \<le> st_DurationMax s \<and> st_DurationMax s \<le> st_DurationSum s"

lemma stats_ok_zero: "stats_ok zero_series"
  by (simp add: stats_ok_def zero_series_def sum_list_replicate)

lemma sum_list_inc: "n < length xs \<Longrightarrow> sum_list (xs[n := xs ! n + 1]) = sum_list xs + (1 :: int)"
  by (induction xs arbitrary: n) (auto split: nat.splits)

lemma stats_ok_count: "stats_ok s \<Longrightarrow> stats_ok (count_request status d s)"
  using bucketOf_less [of "max d 0"] by (auto simp: stats_ok_def count_request_def Let_def sum_list_inc)

definition window_ok :: "int \<Rightarrow> window \<Rightarrow> bool" where
  "window_ok mx w \<longleftrightarrow> distinct (map fst (wn_series w)) \<and> (\<forall>(k, s) \<in> set (wn_series w). stats_ok s \<and> 0 < st_Requests s) \<and>
     (int (length (wn_series w)) \<le> mx \<or> int (length (wn_series w)) = mx + 1 \<and> (OtherMethod, OverflowRoute) \<in> fst ` set (wn_series w)) \<and>
     0 < wn_start w \<and> truncate_to (from_Unix (wn_start w)) minute = from_Unix (wn_start w)"

lemma upd_series_keys: "fst ` set (upd_series key f ss) = insert key (fst ` set ss)"
  by (force simp: upd_series_def image_iff)

lemma upd_series_distinct: "distinct (map fst ss) \<Longrightarrow> distinct (map fst (upd_series key f ss))"
  by (auto simp: upd_series_def o_def case_prod_unfold)

lemma upd_series_length: "length (upd_series key f ss) = (if key \<in> fst ` set ss then length ss else length ss + 1)"
  by (simp add: upd_series_def)

lemma upd_series_mem:
  "(k, s) \<in> set (upd_series key f ss) \<Longrightarrow> (k, s) \<in> set ss \<or> s = f zero_series \<or> (\<exists>s0. (k, s0) \<in> set ss \<and> s = f s0)"
  by (auto simp: upd_series_def split: if_splits)

lemma window_record_ok:
  assumes "window_ok mx w" "0 < mx"
  shows "window_ok mx (window_record method route status d mx w)"
proof -
  let ?key = "if map_of (wn_series w) (method, route) = None \<and> int (length (wn_series w)) \<ge> mx then (OtherMethod, OverflowRoute) else (method, route)"
  let ?ss = "upd_series ?key (count_request status d) (wn_series w)"
  have rec: "window_record method route status d mx w = w\<lparr>wn_series := ?ss\<rparr>" by (simp add: window_record_def Let_def)
  have "stats_ok s \<and> 0 < st_Requests s" if "(k, s) \<in> set ?ss" for k s
    using upd_series_mem [OF that]
  proof (elim disjE exE)
    assume "(k, s) \<in> set (wn_series w)"
    with assms(1) show ?thesis by (auto simp: window_ok_def)
  next
    assume "s = count_request status d zero_series"
    then show ?thesis using stats_ok_count [OF stats_ok_zero] by (simp add: count_request_def zero_series_def Let_def)
  next
    fix s0 assume s0: "(k, s0) \<in> set (wn_series w) \<and> s = count_request status d s0"
    then have "stats_ok s0" "0 < st_Requests s0" using assms(1) by (auto simp: window_ok_def)
    with s0 stats_ok_count show ?thesis by (simp add: count_request_def Let_def)
  qed
  moreover have "int (length ?ss) \<le> mx \<or> int (length ?ss) = mx + 1 \<and> (OtherMethod, OverflowRoute) \<in> fst ` set ?ss"
    using assms by (auto simp: window_ok_def upd_series_length upd_series_keys map_of_eq_None_iff)
  ultimately show ?thesis
    using assms(1) upd_series_distinct unfolding rec window_ok_def by auto
qed

section \<open>The invariant\<close>

definition col_inv :: "Collector \<Rightarrow> bool" where
  "col_inv c \<longleftrightarrow> 0 < co_maxSeries c \<and> 0 < co_maxPending c \<and> 0 \<le> co_lost c \<and> 0 \<le> co_latest c \<and>
     int (length (co_pending c)) \<le> co_maxPending c \<and> distinct (map wn_start (held_windows c)) \<and>
     (\<forall>w \<in> set (held_windows c). window_ok (co_maxSeries c) w \<and> wn_start w \<le> co_latest c \<and> wn_series w \<noteq> []) \<and>
     (\<forall>w. co_current c = Some w \<longrightarrow> wn_start w = co_latest c)"

text \<open>The windows after the current one is closed, and what closing leaves of them.\<close>

definition shut :: "time \<Rightarrow> Collector \<Rightarrow> window list" where
  "shut now c = co_pending c @ map (\<lambda>w. w\<lparr>wn_closedAt := now\<rparr>) (current_list c)"

definition excess :: "Collector \<Rightarrow> nat" where
  "excess c = length (held_windows c) - nat (co_maxPending c)"

definition closed_at :: "time \<Rightarrow> Collector \<Rightarrow> Collector" where
  "closed_at now c = c\<lparr>co_current := None, co_lost := co_lost c + sum_list (map window_requests (take (excess c) (shut now c))),
     co_pending := drop (excess c) (shut now c)\<rparr>"

lemma trim_pending_eq:
  "0 \<le> mx \<Longrightarrow> trim_pending mx lost ws =
     (lost + sum_list (map window_requests (take (length ws - nat mx) ws)), drop (length ws - nat mx) ws)"
proof (induction mx lost ws rule: trim_pending.induct)
  case (2 mx lost w ws)
  show ?case
  proof (cases "int (length (w # ws)) > mx")
    case True
    then have "length (w # ws) - nat mx = Suc (length ws - nat mx)" using 2(2) by (simp add: Suc_diff_le nat_le_iff)
    with True 2 show ?thesis by simp
  qed simp
qed simp

lemma length_shut: "length (shut now c) = length (held_windows c)"
  by (simp add: shut_def held_windows_def)

lemma closeLocked_eq:
  assumes "col_inv c" "co_current c = Some cur"
  shows "(closeLocked cur now c)\<lparr>co_current := None\<rparr> = closed_at now c"
    "closeLocked cur now (c\<lparr>co_current := None\<rparr>) = closed_at now c"
  using assms by (simp_all add: col_inv_def closeLocked_def trim_pending_eq closed_at_def shut_def excess_def current_list_def held_windows_def)

lemma closed_at_none: "col_inv c \<Longrightarrow> co_current c = None \<Longrightarrow> closed_at now c = c"
proof -
  assume "col_inv c" "co_current c = None"
  then have "excess c = 0" "shut now c = co_pending c"
    by (simp_all add: col_inv_def excess_def held_windows_def current_list_def shut_def) (simp add: le_nat_iff)
  with \<open>co_current c = None\<close> show "closed_at now c = c" by (cases c) (simp add: closed_at_def)
qed

lemma flush_begin_eq:
  "col_inv c \<Longrightarrow> flush_begin now c =
     (if \<exists>cur. co_current c = Some cur \<and> wn_start cur < minute_of now then closed_at now c else c)"
  by (auto simp: flush_begin_def closeLocked_eq split: option.splits)

lemma closeCurrent_eq: "col_inv c \<Longrightarrow> closeCurrent now c = closed_at (now - closeGrace) c"
  by (auto simp: closeCurrent_def closeLocked_eq closed_at_none split: option.splits)

definition opened_at :: "int \<Rightarrow> time \<Rightarrow> Collector \<Rightarrow> Collector" where
  "opened_at m now c = (closed_at now c)\<lparr>co_latest := m, co_current := Some (newWindow m)\<rparr>"

lemma windowFor_eq:
  assumes "col_inv c"
  shows "windowFor m now c =
    (if m \<in> wn_start ` set (held_windows c) then (Some m, c)
     else if co_latest c \<noteq> 0 \<and> m \<le> co_latest c then (if co_latest c \<in> wn_start ` set (held_windows c) then Some (co_latest c) else None, c)
     else (Some m, opened_at m now c))"
proof -
  have held: "map_option wn_start (heldLocked k c) = (if k \<in> wn_start ` set (held_windows c) then Some k else None)" for k
  proof (cases "heldLocked k c")
    case None
    then show ?thesis by (auto simp: heldLocked_def held_windows_def find_None_iff)
  next
    case (Some w)
    then have "w \<in> set (held_windows c)" "wn_start w = k" unfolding heldLocked_def held_windows_def by (auto dest: find_SomeD)
    with Some show ?thesis by auto
  qed
  have new: "(case co_current c of None \<Rightarrow> c | Some cur \<Rightarrow> closeLocked cur now c)\<lparr>co_latest := m, co_current := Some (newWindow m)\<rparr> = opened_at m now c"
  proof (cases "co_current c")
    case None
    then show ?thesis using closed_at_none [OF assms] by (simp add: opened_at_def)
  next
    case (Some cur)
    from closeLocked_eq(1) [OF assms this, of now, symmetric] show ?thesis by (simp add: opened_at_def Some)
  qed
  show ?thesis
    using held [of m] by (cases "heldLocked m c") (auto simp: windowFor_def Let_def held new split: if_splits)
qed

section \<open>Operations keep the invariant\<close>

lemma held_update_window:
  "held_windows (update_window start f c) = map (\<lambda>w. if wn_start w = start then f w else w) (held_windows c)"
  by (simp add: held_windows_def update_window_def update_where_def current_list_def split: option.splits)

lemma held_opened: "held_windows (opened_at m now c) = drop (excess c) (shut now c) @ [newWindow m]"
  by (simp add: held_windows_def opened_at_def closed_at_def current_list_def)

lemma held_closed: "held_windows (closed_at now c) = drop (excess c) (shut now c)"
  by (simp add: held_windows_def closed_at_def current_list_def)

lemma shut_starts: "map wn_start (shut now c) = map wn_start (held_windows c)"
  by (simp add: shut_def held_windows_def)

lemma shut_mem:
  "w \<in> set (shut now c) \<Longrightarrow> \<exists>w0 \<in> set (held_windows c). wn_series w = wn_series w0 \<and> wn_start w = wn_start w0"
  by (auto simp: shut_def held_windows_def)

lemma window_ok_cong: "wn_series w = wn_series w0 \<Longrightarrow> wn_start w = wn_start w0 \<Longrightarrow> window_ok mx w = window_ok mx w0"
  by (simp add: window_ok_def)

lemma window_requests_nonneg: "window_ok mx w \<Longrightarrow> 0 \<le> window_requests w"
  unfolding window_requests_def window_ok_def by (intro sum_list_nonneg) fastforce

lemma closed_at_inv:
  assumes "col_inv c" shows "col_inv (closed_at now c)"
proof -
  have ok: "window_ok (co_maxSeries c) w \<and> wn_start w \<le> co_latest c \<and> wn_series w \<noteq> []" if "w \<in> set (shut now c)" for w
    using shut_mem [OF that] assms window_ok_cong unfolding col_inv_def by metis
  have "0 \<le> sum_list (map window_requests (take (excess c) (shut now c)))"
    using ok window_requests_nonneg by (intro sum_list_nonneg) (auto dest: in_set_takeD)
  moreover have "int (length (drop (excess c) (shut now c))) \<le> co_maxPending c"
    using assms by (auto simp: length_shut excess_def col_inv_def)
  moreover have "distinct (map wn_start (drop (excess c) (shut now c)))"
    using assms by (simp add: col_inv_def drop_map [symmetric] shut_starts)
  ultimately show ?thesis
    using assms ok unfolding col_inv_def held_closed by (auto simp: closed_at_def dest: in_set_dropD)
qed

lemma flush_begin_inv: "col_inv c \<Longrightarrow> col_inv (flush_begin now c)"
  by (simp add: flush_begin_eq closed_at_inv)

lemma closeCurrent_inv: "col_inv c \<Longrightarrow> col_inv (closeCurrent now c)"
  by (simp add: closeCurrent_eq closed_at_inv)

lemma flush_end_inv:
  assumes "col_inv c" shows "col_inv (flush_end now ws c)"
proof -
  let ?p = "\<lambda>w. \<not> (wn_start w \<in> wn_start ` set ws \<and> wn_closedAt w \<le> now - closeGrace)"
  have "held_windows (flush_end now ws c) = filter ?p (co_pending c) @ current_list c"
    by (simp add: held_windows_def flush_end_def current_list_def)
  moreover have "distinct (map wn_start (filter ?p (co_pending c) @ current_list c))"
    using assms by (auto simp: col_inv_def held_windows_def distinct_map_filterI)
  moreover have "int (length (filter ?p (co_pending c))) \<le> co_maxPending c"
    using assms length_filter_le [of ?p "co_pending c"] unfolding col_inv_def by linarith
  ultimately show ?thesis
    using assms unfolding col_inv_def by (auto simp: flush_end_def held_windows_def)
qed

text \<open>Times the collector sees are after 1970.\<close>

definition after_epoch :: "time \<Rightarrow> bool" where
  "after_epoch t \<longleftrightarrow> epoch + minute \<le> t"

lemma minute_of_eq: "minute_of t = (t - epoch) div minute * 60"
proof -
  have "t - epoch = t + (- 1035593280) * minute" by (simp add: epoch_def)
  then have "(t - epoch) div minute = t div minute - 1035593280" by simp
  moreover have "truncate_to t minute = t div minute * minute" by (simp add: truncate_to_def minus_mod_eq_div_mult)
  ultimately show ?thesis by (simp add: minute_of_def Unix_def epoch_def)
qed

lemma minute_of_pos: "after_epoch t \<Longrightarrow> 0 < minute_of t"
  by (simp add: minute_of_eq after_epoch_def)

lemma minute_of_truncated: "truncate_to (from_Unix (minute_of t)) minute = from_Unix (minute_of t)"
proof -
  have "from_Unix (minute_of t) = (1035593280 + (t - epoch) div minute) * minute"
    by (simp add: minute_of_eq from_Unix_def epoch_def algebra_simps)
  then show ?thesis by (simp add: truncate_to_def)
qed

text \<open>
  What recording a request does: it is lost, it is counted in a held window of its minute or of the latest minute, or it
  opens a window.
\<close>

definition counted :: "FinishedRequest \<Rightarrow> Collector \<Rightarrow> window \<Rightarrow> window" where
  "counted r c = window_record (normalizeMethod (rq_Method r)) (rq_Route r) (rq_Status r) (rq_Duration r) (co_maxSeries c)"

definition record_in :: "FinishedRequest \<Rightarrow> Collector \<Rightarrow> Collector" where
  "record_in r c = fst (Record r c)"

lemma Record_cases:
  assumes "col_inv c"
  obtains (lost) "minute_of (rq_Time r) \<le> co_latest c" "record_in r c = c\<lparr>co_lost := co_lost c + 1\<rparr>"
  | (hit) start where "start \<in> wn_start ` set (held_windows c)" "minute_of (rq_Time r) \<le> start" "record_in r c = update_window start (counted r c) c"
  | (new) "minute_of (rq_Time r) \<notin> wn_start ` set (held_windows c)" "co_latest c = 0 \<or> co_latest c < minute_of (rq_Time r)"
      "record_in r c = update_window (minute_of (rq_Time r)) (counted r c) (opened_at (minute_of (rq_Time r)) (rq_Time r) c)"
proof -
  let ?m = "minute_of (rq_Time r)"
  have mx: "co_maxSeries (opened_at ?m (rq_Time r) c) = co_maxSeries c" by (simp add: opened_at_def closed_at_def)
  show thesis
  proof (cases "?m \<in> wn_start ` set (held_windows c)")
    case True
    then have "record_in r c = update_window ?m (counted r c) c"
      by (simp add: record_in_def Record_def Let_def windowFor_eq [OF assms] counted_def)
    with True hit show thesis by blast
  next
    case False
    then have cur: "map_option wn_start (co_current c) \<noteq> Some ?m" by (auto simp: held_windows_def current_list_def)
    show thesis
    proof (cases "co_latest c \<noteq> 0 \<and> ?m \<le> co_latest c")
      case le: True
      show thesis
      proof (cases "co_latest c \<in> wn_start ` set (held_windows c)")
        case True
        with False le cur have "record_in r c = update_window (co_latest c) (counted r c) c"
          by (auto simp: record_in_def Record_def Let_def windowFor_eq [OF assms] counted_def)
        with True le hit show thesis by blast
      next
        case no: False
        with False le cur have "record_in r c = c\<lparr>co_lost := co_lost c + 1\<rparr>"
          by (auto simp: record_in_def Record_def Let_def windowFor_eq [OF assms])
        with le lost show thesis by blast
      qed
    next
      case gt: False
      then have "record_in r c = update_window ?m (counted r c) (opened_at ?m (rq_Time r) c)"
        using False cur by (auto simp: record_in_def Record_def Let_def windowFor_eq [OF assms] counted_def mx)
      with False gt new show thesis by force
    qed
  qed
qed

lemma start_counted [simp]: "wn_start (counted r c w) = wn_start w" "wn_closedAt (counted r c w) = wn_closedAt w"
  by (simp_all add: counted_def window_record_def Let_def)

lemma series_counted [simp]: "wn_series (counted r c w) \<noteq> []"
proof -
  have "upd_series k f ss \<noteq> []" for k f ss using upd_series_keys [of k f ss] by auto
  then show ?thesis by (simp add: counted_def window_record_def Let_def)
qed

lemma counted_ok: "window_ok (co_maxSeries c) w \<Longrightarrow> 0 < co_maxSeries c \<Longrightarrow> window_ok (co_maxSeries c) (counted r c w)"
  by (simp add: counted_def window_record_ok)

lemma update_window_fields [simp]:
  "co_maxSeries (update_window start f c) = co_maxSeries c" "co_maxPending (update_window start f c) = co_maxPending c"
  "co_latest (update_window start f c) = co_latest c" "co_lost (update_window start f c) = co_lost c"
  "length (co_pending (update_window start f c)) = length (co_pending c)" "co_instance (update_window start f c) = co_instance c"
  by (simp_all add: update_window_def)

lemma update_window_inv:
  assumes "distinct (map wn_start (held_windows c))" "0 < co_maxSeries c" "0 < co_maxPending c" "0 \<le> co_lost c" "0 \<le> co_latest c"
    "int (length (co_pending c)) \<le> co_maxPending c" "\<forall>w. co_current c = Some w \<longrightarrow> wn_start w = co_latest c"
    "\<forall>w \<in> set (held_windows c). window_ok (co_maxSeries c) w \<and> wn_start w \<le> co_latest c \<and> (wn_series w \<noteq> [] \<or> wn_start w = start)"
    "co_maxSeries c0 = co_maxSeries c"
  shows "col_inv (update_window start (counted r c0) c)"
proof -
  let ?f = "\<lambda>w. if wn_start w = start then counted r c0 w else w"
  have starts: "map wn_start (map ?f (held_windows c)) = map wn_start (held_windows c)" by simp
  have "window_ok (co_maxSeries c) (?f w) \<and> wn_start (?f w) \<le> co_latest c \<and> wn_series (?f w) \<noteq> []" if "w \<in> set (held_windows c)" for w
    using that assms(2,8,9) counted_ok [of c0] by auto
  then have ok: "\<forall>w \<in> set (map ?f (held_windows c)). window_ok (co_maxSeries c) w \<and> wn_start w \<le> co_latest c \<and> wn_series w \<noteq> []"
    unfolding set_map by blast
  have "distinct (map wn_start (map ?f (held_windows c)))" unfolding starts by (rule assms(1))
  moreover have "\<forall>w. co_current (update_window start (counted r c0) c) = Some w \<longrightarrow> wn_start w = co_latest c"
    using assms(7) by (auto simp: update_window_def)
  ultimately show ?thesis
    using assms(2-6) ok unfolding col_inv_def held_update_window update_window_fields by blast
qed

lemma opened_at_fields [simp]:
  "co_maxSeries (opened_at m now c) = co_maxSeries c" "co_maxPending (opened_at m now c) = co_maxPending c"
  "co_latest (opened_at m now c) = m" "co_current (opened_at m now c) = Some (newWindow m)"
  "co_lost (opened_at m now c) = co_lost (closed_at now c)" "co_pending (opened_at m now c) = co_pending (closed_at now c)"
  "co_instance (opened_at m now c) = co_instance c"
  by (simp_all add: opened_at_def closed_at_def)

lemma closed_at_fields [simp]:
  "co_maxSeries (closed_at now c) = co_maxSeries c" "co_maxPending (closed_at now c) = co_maxPending c"
  "co_latest (closed_at now c) = co_latest c" "co_instance (closed_at now c) = co_instance c"
  by (simp_all add: closed_at_def)

lemma record_in_inv:
  assumes inv: "col_inv c" and t: "after_epoch (rq_Time r)"
  shows "col_inv (record_in r c)"
  using inv
proof (cases rule: Record_cases [of c r])
  case lost
  moreover have "held_windows (c\<lparr>co_lost := n\<rparr>) = held_windows c" for n by (simp add: held_windows_def current_list_def)
  ultimately show ?thesis using inv by (simp add: col_inv_def)
next
  case (hit start)
  then show ?thesis using inv unfolding hit(3) by (intro update_window_inv) (auto simp: col_inv_def)
next
  case new
  let ?m = "minute_of (rq_Time r)" and ?c = "closed_at (rq_Time r) c"
  have c: "col_inv ?c" by (rule closed_at_inv [OF inv])
  have m: "0 < ?m" "truncate_to (from_Unix ?m) minute = from_Unix ?m" "co_latest c < ?m"
    using minute_of_pos [OF t] minute_of_truncated new(2) by auto
  have starts: "wn_start ` set (held_windows ?c) \<subseteq> wn_start ` set (held_windows c)"
    unfolding held_closed using shut_mem by (fastforce dest: in_set_dropD)
  have h: "held_windows (opened_at ?m (rq_Time r) c) = held_windows ?c @ [newWindow ?m]" by (simp add: held_opened held_closed)
  have "window_ok (co_maxSeries c) (newWindow ?m)" using m inv by (simp add: window_ok_def newWindow_def col_inv_def)
  moreover have "window_ok (co_maxSeries c) w \<and> wn_start w \<le> ?m \<and> wn_series w \<noteq> []" if "w \<in> set (held_windows ?c)" for w
    using c that m(3) by (force simp: col_inv_def)
  moreover have "distinct (map wn_start (held_windows ?c @ [newWindow ?m]))"
    using c new(1) starts by (auto simp: col_inv_def newWindow_def)
  ultimately show ?thesis
    using c m unfolding new(3) by (intro update_window_inv) (auto simp: h col_inv_def, auto simp: newWindow_def)
qed

section \<open>Counters\<close>

definition window_total :: "(Stats \<Rightarrow> int) \<Rightarrow> window \<Rightarrow> int" where
  "window_total f w = sum_list (map (f \<circ> snd) (wn_series w))"

definition held_total :: "(Stats \<Rightarrow> int) \<Rightarrow> Collector \<Rightarrow> int" where
  "held_total f c = sum_list (map (window_total f) (held_windows c))"

definition dropped_total :: "(Stats \<Rightarrow> int) \<Rightarrow> Collector \<Rightarrow> int" where
  "dropped_total f c = sum_list (map (window_total f) (take (excess c) (held_windows c)))"

lemma window_requests_total: "window_requests w = window_total st_Requests w"
  by (simp add: window_requests_def window_total_def)

lemma sum_list_change_one:
  assumes "distinct (map key ws)" "w0 \<in> set ws"
  shows "sum_list (map h (map (\<lambda>w. if key w = key w0 then u w else w) ws)) = sum_list (map h ws) - h w0 + (h (u w0) :: int)"
  using assms
proof (induction ws)
  case (Cons w ws)
  show ?case
  proof (cases "w = w0")
    case True
    then have "map (\<lambda>w. if key w = key w0 then u w else w) ws = ws" using Cons.prems by (intro map_idI) (auto simp: image_iff)
    with True show ?thesis by simp
  next
    case False
    with Cons.prems have "key w \<noteq> key w0" by (auto simp: image_iff)
    with False Cons show ?thesis by simp
  qed
qed simp

lemma totals_shut: "map (window_total f) (shut now c) = map (window_total f) (held_windows c)"
  by (simp add: shut_def held_windows_def window_total_def)

lemma held_total_closed: "held_total f (closed_at now c) = held_total f c - dropped_total f c"
proof -
  have "sum_list xs = sum_list (take n xs) + sum_list (drop n xs)" for n and xs :: "int list"
    by (metis append_take_drop_id sum_list_append)
  then show ?thesis
    unfolding held_total_def dropped_total_def held_closed by (metis (no_types, lifting) add_diff_cancel_left' drop_map take_map totals_shut)
qed

lemma lost_closed: "co_lost (closed_at now c) = co_lost c + dropped_total st_Requests c"
proof -
  have "map window_requests = map (window_total st_Requests)" by (simp add: window_requests_total fun_eq_iff cong: map_cong)
  then show ?thesis
    unfolding closed_at_def dropped_total_def by (simp add: take_map [symmetric] totals_shut)
qed

locale counter =
  fixes f :: "Stats \<Rightarrow> int" and g :: "int \<Rightarrow> int"
  assumes zero: "f zero_series = 0"
    and count: "f (count_request status d s) = f s + g status"
begin

lemma series_total:
  assumes "distinct (map fst ss)"
  shows "sum_list (map (f \<circ> snd) (upd_series key (count_request status d) ss)) = sum_list (map (f \<circ> snd) ss) + g status"
proof (cases "key \<in> fst ` set ss")
  case True
  then obtain s0 where s0: "(key, s0) \<in> set ss" by auto
  let ?u = "\<lambda>p. (fst p, count_request status d (snd p))"
  have "upd_series key (count_request status d) ss = map (\<lambda>p. if fst p = fst (key, s0) then ?u p else p) ss"
    using True by (auto simp: upd_series_def case_prod_unfold)
  then show ?thesis
    using sum_list_change_one [OF assms s0, of "f \<circ> snd" ?u] by (simp add: count)
next
  case False
  then show ?thesis by (simp add: upd_series_def zero count)
qed

lemma total_counted: "window_ok mx w \<Longrightarrow> window_total f (counted r c w) = window_total f w + g (rq_Status r)"
  by (simp add: window_total_def counted_def window_record_def Let_def series_total window_ok_def)

lemma held_total_update:
  assumes "distinct (map wn_start (held_windows c))" "start \<in> wn_start ` set (held_windows c)" "\<forall>w \<in> set (held_windows c). window_ok mx w"
  shows "held_total f (update_window start (counted r c0) c) = held_total f c + g (rq_Status r)"
proof -
  obtain w0 where w0: "w0 \<in> set (held_windows c)" "start = wn_start w0" using assms(2) by auto
  then show ?thesis
    using sum_list_change_one [OF assms(1) w0(1), of "window_total f" "counted r c0"] total_counted [of mx w0 r c0] assms(3)
    unfolding held_total_def held_update_window w0(2) by simp
qed

lemma held_total_opened: "held_total f (opened_at m now c) = held_total f (closed_at now c)"
  by (simp add: held_total_def held_opened held_closed window_total_def newWindow_def)

end

definition is_server_error :: "int \<Rightarrow> int" where "is_server_error status = (if status \<ge> 500 then 1 else 0)"
definition is_client_error :: "int \<Rightarrow> int" where "is_client_error status = (if \<not> status \<ge> 500 \<and> status \<ge> 400 then 1 else 0)"

interpretation requests: counter st_Requests "\<lambda>_. 1"
  by unfold_locales (simp_all add: zero_series_def count_request_def Let_def)

interpretation server_errors: counter st_ServerErrors is_server_error
  by unfold_locales (simp_all add: zero_series_def count_request_def Let_def is_server_error_def)

interpretation client_errors: counter st_ClientErrors is_client_error
  by unfold_locales (simp_all add: zero_series_def count_request_def Let_def is_client_error_def)

end
