(* ===== verification/Incidents_Props.thy ===== *)
theory Incidents_Props
  imports Incidents
begin

text \<open>
  The life of an incident. The relation \<open>incident_move\<close> is the abstract state machine: an incident opens, an open incident
  with room in its timeline changes or is resolved, or detection notes a rate without an entry when the timeline is full.
  Every operation of the store, whatever faults happen, makes one of these moves or none.
\<close>

section \<open>The state machine\<close>

definition put_incident :: "Incident \<Rightarrow> obs_db \<Rightarrow> obs_db" where
  "put_incident i d = d\<lparr>ob_incidents := update_where (\<lambda>j. ic_ID j = ic_ID i) (\<lambda>_. i) (ob_incidents d)\<rparr>"

definition add_update :: "IncidentUpdate \<Rightarrow> obs_db \<Rightarrow> obs_db" where
  "add_update u d = d\<lparr>ob_updates := ob_updates d @ [u], ob_nextUpdate := ob_nextUpdate d + 1\<rparr>"

definition add_incident :: "Incident \<Rightarrow> obs_db \<Rightarrow> obs_db" where
  "add_incident i d = d\<lparr>ob_incidents := ob_incidents d @ [i], ob_nextIncident := ob_nextIncident d + 1\<rparr>"

text \<open>An entry of an incident's timeline that reports the state the incident is in.\<close>

definition reports :: "obs_db \<Rightarrow> Incident \<Rightarrow> IncidentUpdate \<Rightarrow> bool" where
  "reports d i u \<longleftrightarrow> iu_ID u = ob_nextUpdate d \<and> iu_IncidentID u = ic_ID i \<and> iu_Status u = ic_Status i \<and> iu_Severity u = ic_Severity i"

text \<open>What a change keeps of an incident, and when a rate may be noted as recovered.\<close>

definition same_incident :: "Incident \<Rightarrow> Incident \<Rightarrow> bool" where
  "same_incident i i' \<longleftrightarrow> ic_ID i' = ic_ID i \<and> ic_Title i' = ic_Title i \<and> ic_Summary i' = ic_Summary i \<and> ic_Source i' = ic_Source i \<and>
     ic_StartedAt i' = ic_StartedAt i \<and> ic_CreatedByKind i' = ic_CreatedByKind i \<and> ic_CreatedByID i' = ic_CreatedByID i \<and>
     ic_CreatedAt i' = ic_CreatedAt i"

definition rate_ok :: "Incident \<Rightarrow> bool" where
  "rate_ok i \<longleftrightarrow> row_checks i \<and> (ic_RecoveredAt i \<noteq> None \<longrightarrow> open_automatic i)"

inductive incident_move :: "obs_db \<Rightarrow> obs_db \<Rightarrow> bool" where
  opened: "ic_ID i = ob_nextIncident d \<Longrightarrow> rate_ok i \<Longrightarrow> ic_Status i \<noteq> StatusResolved \<Longrightarrow>
    \<not> (open_automatic i \<and> list_ex open_automatic (ob_incidents d)) \<Longrightarrow>
    reports d i u \<Longrightarrow> iu_Kind u = UpdateOpened \<Longrightarrow> incident_move d (add_update u (add_incident i d))"
| changed: "find_incident (ic_ID i) d = Some i \<Longrightarrow> ic_Status i \<noteq> StatusResolved \<Longrightarrow> length (timeline (ic_ID i) d) < MaxIncidentUpdates \<Longrightarrow>
    same_incident i i' \<Longrightarrow> rate_ok i' \<Longrightarrow> reports d i' u \<Longrightarrow> iu_Kind u \<noteq> UpdateOpened \<Longrightarrow>
    (iu_Kind u = UpdateResolved) = (ic_Status i' = StatusResolved) \<Longrightarrow> incident_move d (add_update u (put_incident i' d))"
| unnoted: "find_incident (ic_ID i) d = Some i \<Longrightarrow> open_automatic i \<Longrightarrow> MaxIncidentUpdates \<le> length (timeline (ic_ID i) d) \<Longrightarrow>
    i' = i\<lparr>ic_RecoveredAt := r, ic_UpdatedAt := t\<rparr> \<Longrightarrow> incident_move d (put_incident i' d)"

section \<open>The invariant\<close>

text \<open>
  A timeline tells an incident's story: it starts with its opening, ends with its resolution exactly when the incident
  is resolved, and its last entry has the incident's status and severity.
\<close>

definition story :: "Incident \<Rightarrow> IncidentUpdate list \<Rightarrow> bool" where
  "story i T \<longleftrightarrow> T \<noteq> [] \<and> length T \<le> MaxIncidentUpdates \<and> iu_Kind (hd T) = UpdateOpened \<and>
     (\<forall>u \<in> set (tl T). iu_Kind u \<noteq> UpdateOpened) \<and> (\<forall>u \<in> set (butlast T). iu_Kind u \<noteq> UpdateResolved) \<and>
     (iu_Kind (last T) = UpdateResolved \<longleftrightarrow> ic_Status i = StatusResolved) \<and>
     iu_Status (last T) = ic_Status i \<and> iu_Severity (last T) = ic_Severity i"

definition obs_inv :: "obs_db \<Rightarrow> bool" where
  "obs_inv d \<longleftrightarrow> distinct (map ic_ID (ob_incidents d)) \<and>
     (\<forall>i \<in> set (ob_incidents d). ic_ID i < ob_nextIncident d \<and> rate_ok i \<and> story i (timeline (ic_ID i) d)) \<and>
     length (filter open_automatic (ob_incidents d)) \<le> 1 \<and> sorted_wrt (<) (map iu_ID (ob_updates d)) \<and>
     (\<forall>u \<in> set (ob_updates d). iu_ID u < ob_nextUpdate d \<and> iu_IncidentID u \<in> ic_ID ` set (ob_incidents d))"

named_theorems obs_simps

lemma timeline_simps [obs_simps]:
  "timeline k (add_update u d) = timeline k d @ (if iu_IncidentID u = k then [u] else [])"
  "timeline k (put_incident i d) = timeline k d" "timeline k (add_incident i d) = timeline k d"
  by (simp_all add: timeline_def add_update_def put_incident_def add_incident_def)

lemma incidents_simps [obs_simps]:
  "ob_incidents (add_update u d) = ob_incidents d" "ob_incidents (add_incident i d) = ob_incidents d @ [i]"
  "ob_incidents (put_incident i d) = update_where (\<lambda>j. ic_ID j = ic_ID i) (\<lambda>_. i) (ob_incidents d)"
  by (simp_all add: add_update_def put_incident_def add_incident_def)

lemma updates_simps [obs_simps]:
  "ob_updates (add_update u d) = ob_updates d @ [u]" "ob_updates (add_incident i d) = ob_updates d" "ob_updates (put_incident i d) = ob_updates d"
  by (simp_all add: add_update_def put_incident_def add_incident_def)

lemma next_simps [obs_simps]:
  "ob_nextUpdate (add_update u d) = ob_nextUpdate d + 1" "ob_nextUpdate (add_incident i d) = ob_nextUpdate d"
  "ob_nextUpdate (put_incident i d) = ob_nextUpdate d" "ob_nextIncident (add_update u d) = ob_nextIncident d"
  "ob_nextIncident (add_incident i d) = ob_nextIncident d + 1" "ob_nextIncident (put_incident i d) = ob_nextIncident d"
  by (simp_all add: add_update_def put_incident_def add_incident_def)

lemma find_incident_D: "find_incident k d = Some i \<Longrightarrow> i \<in> set (ob_incidents d) \<and> ic_ID i = k"
  unfolding find_incident_def by (drule find_SomeD) simp

lemma find_incident_unique:
  assumes "obs_inv d" "i \<in> set (ob_incidents d)"
  shows "find_incident (ic_ID i) d = Some i"
proof (cases "find_incident (ic_ID i) d")
  case None
  with assms(2) show ?thesis unfolding find_incident_def by (auto dest: find_NoneD)
next
  case (Some j)
  from find_incident_D [OF this] assms have "j = i" unfolding obs_inv_def by (auto dest: distinct_map_unique)
  with Some show ?thesis by simp
qed

lemma story_snoc:
  "story i T \<Longrightarrow> ic_Status i \<noteq> StatusResolved \<Longrightarrow> length T < MaxIncidentUpdates \<Longrightarrow> iu_Kind u \<noteq> UpdateOpened \<Longrightarrow>
   (iu_Kind u = UpdateResolved) = (ic_Status i' = StatusResolved) \<Longrightarrow> iu_Status u = ic_Status i' \<Longrightarrow> iu_Severity u = ic_Severity i' \<Longrightarrow>
   story i' (T @ [u])"
  by (cases T rule: rev_cases) (auto simp: story_def hd_append tl_append butlast_append split: list.splits)

lemma fresh_timeline:
  assumes "obs_inv d" shows "timeline (ob_nextIncident d) d = []"
proof -
  have "iu_IncidentID u \<noteq> ob_nextIncident d" if "u \<in> set (ob_updates d)" for u
    using assms that unfolding obs_inv_def by fastforce
  then show ?thesis by (simp add: timeline_def filter_empty_conv)
qed

text \<open>Storing an incident that was open leaves at most one open automatic incident.\<close>

lemma filter_update_same:
  "(\<And>r. r \<in> set rs \<Longrightarrow> p r \<Longrightarrow> q (f r) \<Longrightarrow> q r) \<Longrightarrow> length (filter q (update_where p f rs)) \<le> length (filter q rs)"
  unfolding update_where_def by (induction rs) (auto intro: le_SucI)

lemma put_keeps_automatic:
  assumes "find_incident (ic_ID i) d = Some i" "obs_inv d" "ic_Status i \<noteq> StatusResolved" "same_incident i i'"
  shows "length (filter open_automatic (ob_incidents (put_incident i' d))) \<le> 1"
proof -
  have "open_automatic r" if "r \<in> set (ob_incidents d)" "ic_ID r = ic_ID i'" "open_automatic i'" for r
  proof -
    have "r = i"
      using that assms(1,4) find_incident_unique [OF assms(2) that(1)] by (simp add: same_incident_def)
    with that(3) assms(3,4) show ?thesis by (simp add: open_automatic_def same_incident_def)
  qed
  then have "length (filter open_automatic (ob_incidents (put_incident i' d))) \<le> length (filter open_automatic (ob_incidents d))"
    unfolding incidents_simps by (intro filter_update_same) auto
  with assms(2) show ?thesis by (simp add: obs_inv_def)
qed

text \<open>Storing an incident keeps the invariant when its story is right afterwards.\<close>

lemma put_obs_inv:
  assumes inv: "obs_inv d" and i: "find_incident (ic_ID i) d = Some i" and st: "ic_Status i \<noteq> StatusResolved"
    and same: "same_incident i i'" and ok: "rate_ok i'" and us: "us = [] \<or> us = [u] \<and> reports d i' u"
    and story: "story i' (timeline (ic_ID i) d @ us)"
  shows "obs_inv (fold add_update us (put_incident i' d))"
proof -
  let ?d = "fold add_update us (put_incident i' d)"
  have id: "ic_ID i' = ic_ID i" using same by (simp add: same_incident_def)
  have incs: "ob_incidents ?d = ob_incidents (put_incident i' d)" using us by (auto simp: obs_simps)
  have mem: "i \<in> set (ob_incidents d)" using i find_incident_D by blast
  have ids: "map ic_ID (ob_incidents ?d) = map ic_ID (ob_incidents d)"
    unfolding incs incidents_simps by (rule map_update_where_keep) simp
  have row: "ic_ID j < ob_nextIncident ?d \<and> rate_ok j \<and> story j (timeline (ic_ID j) ?d)" if "j \<in> set (ob_incidents ?d)" for j
  proof (cases "ic_ID j = ic_ID i")
    case True
    then have "j = i'" using that id unfolding incs incidents_simps by (auto elim!: update_where_memE)
    moreover have "ic_ID i < ob_nextIncident d" using inv mem by (simp add: obs_inv_def)
    moreover have "timeline (ic_ID i) ?d = timeline (ic_ID i) d @ us" using us id by (auto simp: obs_simps reports_def)
    ultimately show ?thesis using id ok story us by (auto simp: obs_simps)
  next
    case False
    then have j: "j \<in> set (ob_incidents d)" using that id unfolding incs incidents_simps by (auto elim!: update_where_memE)
    have "timeline (ic_ID j) ?d = timeline (ic_ID j) d" using us id False by (auto simp: obs_simps reports_def)
    with inv j us show ?thesis by (auto simp: obs_inv_def obs_simps)
  qed
  have upd: "iu_ID v < ob_nextUpdate ?d \<and> iu_IncidentID v \<in> ic_ID ` set (ob_incidents ?d)" if "v \<in> set (ob_updates ?d)" for v
  proof -
    have "ic_ID ` set (ob_incidents ?d) = ic_ID ` set (ob_incidents d)" using ids by (metis list.set_map)
    moreover have "v \<in> set (ob_updates d) \<or> us = [v]" using that us by (auto simp: obs_simps)
    ultimately show ?thesis using inv us mem id by (auto simp: obs_inv_def obs_simps reports_def)
  qed
  have "sorted_wrt (<) (map iu_ID (ob_updates ?d))"
    using inv us by (auto simp: obs_inv_def obs_simps sorted_wrt_append reports_def)
  moreover have "length (filter open_automatic (ob_incidents ?d)) \<le> 1"
    unfolding incs by (rule put_keeps_automatic [OF i inv st same])
  moreover have "distinct (map ic_ID (ob_incidents ?d))" using inv ids by (simp add: obs_inv_def)
  ultimately show ?thesis unfolding obs_inv_def using row upd by blast
qed

lemma open_obs_inv:
  assumes inv: "obs_inv d" and id: "ic_ID i = ob_nextIncident d" and ok: "rate_ok i" "ic_Status i \<noteq> StatusResolved"
    and one: "\<not> (open_automatic i \<and> list_ex open_automatic (ob_incidents d))" and u: "reports d i u" "iu_Kind u = UpdateOpened"
  shows "obs_inv (add_update u (add_incident i d))"
proof -
  let ?d = "add_update u (add_incident i d)"
  have fresh: "ic_ID j \<noteq> ob_nextIncident d" if "j \<in> set (ob_incidents d)" for j using inv that unfolding obs_inv_def by fastforce
  have row: "ic_ID j < ob_nextIncident ?d \<and> rate_ok j \<and> story j (timeline (ic_ID j) ?d)" if "j \<in> set (ob_incidents ?d)" for j
  proof (cases "j = i")
    case True
    moreover have "story i [u]" using ok u by (simp add: story_def reports_def MaxIncidentUpdates_def)
    ultimately show ?thesis using ok id u fresh_timeline [OF inv] by (simp add: obs_simps reports_def)
  next
    case False
    then have "j \<in> set (ob_incidents d)" using that by (simp add: obs_simps)
    with inv fresh id u show ?thesis by (fastforce simp: obs_inv_def obs_simps reports_def)
  qed
  have upd: "iu_ID v < ob_nextUpdate ?d \<and> iu_IncidentID v \<in> ic_ID ` set (ob_incidents ?d)" if "v \<in> set (ob_updates ?d)" for v
    using that inv u by (fastforce simp: obs_inv_def obs_simps reports_def)
  have "length (filter open_automatic (ob_incidents ?d)) \<le> 1"
    using inv one by (auto simp: obs_inv_def obs_simps list_ex_iff filter_empty_conv)
  moreover have "sorted_wrt (<) (map iu_ID (ob_updates ?d))" "distinct (map ic_ID (ob_incidents ?d))"
    using inv u fresh id by (auto simp: obs_inv_def obs_simps sorted_wrt_append reports_def)
  ultimately show ?thesis unfolding obs_inv_def using row upd by blast
qed

lemma incident_move_inv: "incident_move d d' \<Longrightarrow> obs_inv d \<Longrightarrow> obs_inv d'"
proof (induction rule: incident_move.induct)
  case (opened i d u)
  then show ?case by (intro open_obs_inv)
next
  case (changed i d i' u)
  have "story i (timeline (ic_ID i) d)" using changed(1,9) find_incident_D unfolding obs_inv_def by blast
  then have "story i' (timeline (ic_ID i) d @ [u])"
    using changed by (intro story_snoc [of i]) (auto simp: reports_def)
  then show ?case using put_obs_inv [of d i i' "[u]" u] changed by simp
next
  case (unnoted i d i' r t)
  have i: "i \<in> set (ob_incidents d)" "ic_Status i \<noteq> StatusResolved"
    using unnoted(1,2) find_incident_D by (auto simp: open_automatic_def)
  then have "story i' (timeline (ic_ID i) d @ [])" "rate_ok i'" "same_incident i i'"
    using unnoted by (auto simp: obs_inv_def story_def rate_ok_def row_checks_def open_automatic_def same_incident_def)
  then show ?case using put_obs_inv [of d i i' "[]"] unnoted i by simp
qed

section \<open>The operations make moves\<close>

lemma storeIncident_ok:
  assumes "storeIncident inc now w = (Inr i, w')"
  obtains old where "find_incident (ic_ID inc) (db w) = Some old" "row_checks i" "db w' = put_incident i (db w)"
    "i = old\<lparr>ic_Status := ic_Status inc, ic_Severity := ic_Severity inc, ic_ResolvedAt := map_option pg_time (ic_ResolvedAt inc),
       ic_RecoveredAt := map_option pg_time (ic_RecoveredAt inc), ic_UpdatedAt := pg_time now\<rparr>"
  using assms
  by (auto simp: storeIncident_def run_elims Let_def put_incident_def dest: find_incident_D split: option.splits if_splits)

lemma insertUpdate_ok:
  assumes "insertUpdate inc kind m by' now w = (Inr u, w')"
  shows "reports (db w) inc u \<and> iu_Kind u = kind \<and> db w' = add_update u (db w)"
  using assms by (auto simp: insertUpdate_def run_elims Let_def reports_def add_update_def split: if_splits)

lemma insertIncident_ok:
  assumes "insertIncident n src by' now w = (Inr (Some i), w')"
  shows "ic_ID i = ob_nextIncident (db w) \<and> row_checks i \<and> ic_Status i = ni_Status n \<and> ic_RecoveredAt i = None \<and>
    \<not> (open_automatic i \<and> list_ex open_automatic (ob_incidents (db w))) \<and> db w' = add_incident i (db w)"
  using assms by (auto simp: insertIncident_def run_elims Let_def add_incident_def split: if_splits)

lemma lockOpenIncident_ok:
  assumes "lockOpenIncident k n w = (Inr i, w')"
  shows "find_incident k (db w) = Some i \<and> ic_Status i \<noteq> StatusResolved \<and> length (timeline k (db w)) < n \<and> db w' = db w"
  using assms by (auto simp: lockOpenIncident_def selectIncidentForUpdate_def run_elims)

lemma openIncident_move:
  assumes "openIncident n src by' now w = (Inr (Some x), w')" "ni_Status n \<noteq> StatusResolved"
  shows "incident_move (db w) (db w')"
proof -
  from assms(1) obtain i u w1 where 1: "insertIncident n src by' now w = (Inr (Some i), w1)"
    and 2: "insertUpdate i UpdateOpened (ni_Message n) by' now w1 = (Inr u, w')"
    by (auto simp: openIncident_def run_elims)
  note i = insertIncident_ok [OF 1] and u = insertUpdate_ok [OF 2]
  then have "incident_move (db w) (add_update u (add_incident i (db w)))"
    using assms(2) by (intro opened) (auto simp: rate_ok_def reports_def obs_simps)
  with i u show ?thesis by simp
qed

text \<open>What a change makes of an open incident.\<close>

definition proper_change :: "UpdateKind \<Rightarrow> Incident \<Rightarrow> Incident \<Rightarrow> bool" where
  "proper_change kind i i1 \<longleftrightarrow> kind \<noteq> UpdateOpened \<and> ic_ID i1 = ic_ID i \<and>
     (kind = UpdateResolved) = (ic_Status i1 = StatusResolved) \<and>
     (ic_RecoveredAt i1 \<noteq> None \<longrightarrow> ic_Source i = SourceAutomatic \<and> ic_Status i1 \<noteq> StatusResolved)"

lemma proper_note:
  "validateChange g = None \<Longrightarrow> ic_Status i \<noteq> StatusResolved \<Longrightarrow> rate_ok i \<Longrightarrow> proper_change UpdateNote i (apply_change g i)"
  by (auto simp: proper_change_def apply_change_def Let_def validateChange_def rate_ok_def open_automatic_def split: if_splits)

lemma proper_resolve: "proper_change UpdateResolved i (apply_resolve now i)"
  by (simp add: proper_change_def apply_resolve_def)

lemma proper_rate:
  "open_automatic i \<Longrightarrow> kind \<in> {UpdateBreaching, UpdateRecovered} \<Longrightarrow> proper_change kind i (i\<lparr>ic_RecoveredAt := r\<rparr>)"
  by (auto simp: proper_change_def open_automatic_def)

lemma stored_move:
  assumes "storeIncident i1 now w = (Inr i', w1)" "insertUpdate i' kind m by' now w1 = (Inr u, w')"
    "proper_change kind i i1" "find_incident (ic_ID i) (db w) = Some i"
    "ic_Status i \<noteq> StatusResolved" "length (timeline (ic_ID i) (db w)) < MaxIncidentUpdates"
  shows "incident_move (db w) (db w')"
proof -
  from storeIncident_ok [OF assms(1)] obtain old where s: "find_incident (ic_ID i1) (db w) = Some old" "row_checks i'"
    "db w1 = put_incident i' (db w)" and i': "i' = old\<lparr>ic_Status := ic_Status i1, ic_Severity := ic_Severity i1,
      ic_ResolvedAt := map_option pg_time (ic_ResolvedAt i1), ic_RecoveredAt := map_option pg_time (ic_RecoveredAt i1),
      ic_UpdatedAt := pg_time now\<rparr>" .
  have "old = i" using s(1) assms(3,4) by (simp add: proper_change_def)
  then have same: "same_incident i i'" and st: "ic_Status i' = ic_Status i1" and rec: "ic_RecoveredAt i' \<noteq> None \<longleftrightarrow> ic_RecoveredAt i1 \<noteq> None"
    using i' by (auto simp: same_incident_def)
  note u = insertUpdate_ok [OF assms(2)]
  have "rate_ok i'" using s(2) rec st same assms(3) by (auto simp: rate_ok_def open_automatic_def same_incident_def proper_change_def)
  moreover have "reports (db w) i' u" using u s(3) by (simp add: reports_def obs_simps)
  ultimately have "incident_move (db w) (add_update u (put_incident i' (db w)))"
    using assms(3) st u by (intro changed [OF assms(4-6) same]) (simp_all add: proper_change_def)
  with u s(3) show ?thesis by simp
qed

lemma change_tx_move:
  assumes "change_tx now c k kind m app w = (Inr x, w')" "obs_inv (db w)"
    "\<And>i. ic_Status i \<noteq> StatusResolved \<Longrightarrow> rate_ok i \<Longrightarrow> proper_change kind i (app i)"
  shows "incident_move (db w) (db w')"
proof -
  from assms(1) obtain i w1 i' w2 u where 1: "lockOpenIncident k MaxIncidentUpdates w = (Inr i, w1)"
    and 2: "storeIncident (app i) now w1 = (Inr i', w2)" "insertUpdate i' kind m (FromOrAnonymous c) now w2 = (Inr u, w')"
    by (auto simp: change_tx_def run_elims)
  note l = lockOpenIncident_ok [OF 1]
  then have i: "ic_ID i = k" "i \<in> set (ob_incidents (db w))" using find_incident_D by blast+
  then have "rate_ok i" using assms(2) by (simp add: obs_inv_def)
  with i(1) l stored_move [OF 2 assms(3)] show ?thesis by simp
qed

text \<open>Detection notes a rate on the open automatic incident.\<close>

lemma note_rate_ok:
  assumes "note_rate gf d res now inc updates kind w = (Inr x, w')"
  obtains i' where "storeIncident inc now w = (Inr i', w')" "MaxIncidentUpdates \<le> updates"
  | i' w1 m u where "storeIncident inc now w = (Inr i', w1)" "updates < MaxIncidentUpdates" "insertUpdate i' kind m (dt_Actor d) now w1 = (Inr u, w')"
proof -
  from assms obtain i' w1 where 1: "storeIncident inc now w = (Inr i', w1)"
    and 2: "(let res = res\<lparr>dr_Incident := Some i'\<rparr> in
      if updates \<ge> MaxIncidentUpdates then retC res
      else bindC (insertUpdate i' kind (detectionMessage gf kind d res) (dt_Actor d) now) (\<lambda>upd. retC (res\<lparr>dr_Update := Some upd\<rparr>))) w1 = (Inr x, w')"
    unfolding note_rate_def bindC_run by blast
  show thesis
  proof (cases "updates \<ge> MaxIncidentUpdates")
    case True
    with 1 2 that(1) show ?thesis by (simp add: retC_run Let_def)
  next
    case False
    with 2 obtain m u where "insertUpdate i' kind m (dt_Actor d) now w1 = (Inr u, w')" by (auto simp: Let_def run_elims)
    with 1 False that(2) show ?thesis by (metis not_le)
  qed
qed

lemma note_rate_move:
  assumes "note_rate gf d res now (i\<lparr>ic_RecoveredAt := r\<rparr>) (length (timeline (ic_ID i) (db w))) kind w = (Inr x, w')"
    and i: "open_automatic i" "find_incident (ic_ID i) (db w) = Some i" and kind: "kind \<in> {UpdateBreaching, UpdateRecovered}"
    and rows: "rate_ok i"
  shows "incident_move (db w) (db w')"
proof -
  have st: "ic_Status i \<noteq> StatusResolved" "ic_ResolvedAt i = None" using i(1) rows by (auto simp: open_automatic_def rate_ok_def row_checks_def)
  from assms(1) show ?thesis
  proof (cases rule: note_rate_ok)
    case (1 i')
    obtain old where old: "find_incident (ic_ID (i\<lparr>ic_RecoveredAt := r\<rparr>)) (db w) = Some old" and w': "db w' = put_incident i' (db w)"
      and new: "i' = old\<lparr>ic_Status := ic_Status (i\<lparr>ic_RecoveredAt := r\<rparr>), ic_Severity := ic_Severity (i\<lparr>ic_RecoveredAt := r\<rparr>),
        ic_ResolvedAt := map_option pg_time (ic_ResolvedAt (i\<lparr>ic_RecoveredAt := r\<rparr>)),
        ic_RecoveredAt := map_option pg_time (ic_RecoveredAt (i\<lparr>ic_RecoveredAt := r\<rparr>)), ic_UpdatedAt := pg_time now\<rparr>"
      by (rule storeIncident_ok [OF 1(1)])
    have "old = i" using old i(2) by simp
    then have i': "i' = i\<lparr>ic_RecoveredAt := map_option pg_time r, ic_UpdatedAt := pg_time now\<rparr>" using new st(2) by (cases i) simp
    show ?thesis unfolding w' by (rule unnoted [OF i(2,1) 1(2) i'])
  next
    case (2 i' w1 m u)
    show ?thesis by (rule stored_move [OF 2(1,3) proper_rate [OF i(1) kind] i(2) st(1) 2(2)])
  qed
qed

lemma openAutomatic_move:
  assumes "openAutomatic gf d res now w = (Inr x, w')" "List.find open_automatic (ob_incidents (db w)) = None"
  shows "incident_move (db w) (db w')"
proof -
  have "\<not> list_ex open_automatic (ob_incidents (db w))" using assms(2) by (auto simp: list_ex_iff dest: find_NoneD)
  then have "insertIncident n SourceAutomatic by' now w \<noteq> (Inr None, w1)" for n by' w1
    by (auto simp: insertIncident_def run_elims Let_def)
  then have "openIncident n SourceAutomatic by' now w \<noteq> (Inr None, w1)" for n by' w1
    by (auto simp: openIncident_def run_elims)
  with assms(1) obtain y where "openIncident (automatic_incident gf d res) SourceAutomatic (dt_Actor d) now w = (Inr (Some y), w')"
    by (auto simp: openAutomatic_def run_elims)
  then show ?thesis by (rule openIncident_move) (simp add: automatic_incident_def)
qed

lemma detect_act_move:
  assumes "detect_act gf d res now w = (Inr x, w')" "obs_inv (db w)"
  shows "db w' = db w \<or> incident_move (db w) (db w')"
proof (cases "List.find open_automatic (ob_incidents (db w))")
  case None
  with assms(1) openAutomatic_move [of gf d res now _ x w'] show ?thesis
    by (fastforce simp: detect_act_def selectOpenAutomatic_def run_elims split: if_splits)
next
  case (Some i)
  then have i: "open_automatic i" "i \<in> set (ob_incidents (db w))" by (auto dest: find_SomeD)
  then have ok: "find_incident (ic_ID i) (db w) = Some i" "rate_ok i"
    using assms(2) find_incident_unique by (auto simp: obs_inv_def)
  from assms(1) Some obtain fs where run: "(let res = res\<lparr>dr_Incident := Some i\<rparr> in
         if dr_Breaching res \<and> ic_RecoveredAt i \<noteq> None
         then note_rate gf d (res\<lparr>dr_Action := DetectionBreaching\<rparr>) now (i\<lparr>ic_RecoveredAt := None\<rparr>) (length (timeline (ic_ID i) (db w))) UpdateBreaching
         else if dr_Healthy res \<and> ic_RecoveredAt i = None
         then note_rate gf d (res\<lparr>dr_Action := DetectionRecovered\<rparr>) now (i\<lparr>ic_RecoveredAt := Some now\<rparr>) (length (timeline (ic_ID i) (db w))) UpdateRecovered
         else retC res) (w\<lparr>faults := fs\<rparr>) = (Inr x, w')"
    unfolding detect_act_def selectOpenAutomatic_def bindC_run query_run by auto
  note move = note_rate_move [where w = "w\<lparr>faults := fs\<rparr>" and i = i, simplified, OF _ i(1) ok(1) _ ok(2)]
  show ?thesis using run move unfolding Let_def by (auto simp: retC_run split: if_splits)
qed

lemma detect_tx_move:
  assumes "detect_tx gf d res now w = (Inr x, w')" "obs_inv (db w)"
  shows "db w' = db w \<or> incident_move (db w) (db w')"
  using assms detect_act_move [of gf d _ now _ x w'] by (fastforce simp: detect_tx_def selectTotals_def run_elims Let_def)

text \<open>Run alone from tables in order, whatever faults happen, an operation makes a move or leaves the tables as they were.\<close>

definition makes_move :: "(obs_db, 'x, obs_error, 'a) comp \<Rightarrow> bool" where
  "makes_move m \<longleftrightarrow> (\<forall>w. others w = [] \<longrightarrow> obs_inv (db w) \<longrightarrow> db (snd (m w)) = db w \<or> incident_move (db w) (db (snd (m w))))"

lemma makes_move_failC: "makes_move (failC e)"
  by (simp add: makes_move_def failC_def)

lemma makes_move_InTx:
  assumes "\<And>w x w'. fn w = (Inr x, w') \<Longrightarrow> obs_inv (db w) \<Longrightarrow> db w' = db w \<or> incident_move (db w) (db w')"
  shows "makes_move (InTx fn)"
  unfolding makes_move_def
proof (intro allI impI)
  fix w :: "(obs_db, 'a) world"
  assume w: "others w = []" "obs_inv (db w)"
  obtain r w' where run: "InTx fn w = (r, w')" by fastforce
  from run show "db (snd (InTx fn w)) = db w \<or> incident_move (db w) (db (snd (InTx fn w)))"
  proof (cases rule: InTx_db_cases)
    case 1
    with run w show ?thesis by (simp add: interfere_none)
  next
    case (2 w0 x w1)
    with run w assms [OF 2(2)] show ?thesis by (simp add: interfere_none)
  qed
qed

lemma OpenIncident_moves: "makes_move (OpenIncident now c n)"
proof (cases "validateNew (new_defaults now n) now")
  case None
  then have "ni_Status (new_defaults now n) \<noteq> StatusResolved" by (simp add: validateNew_def split: if_splits)
  with None show ?thesis
    by (auto simp: OpenIncident_def run_elims intro!: makes_move_InTx intro: openIncident_move)
next
  case (Some e)
  then show ?thesis by (simp add: OpenIncident_def makes_move_failC)
qed

lemma UpdateIncident_moves: "makes_move (UpdateIncident now c k g)"
  by (auto simp: UpdateIncident_def Let_def makes_move_failC change_def split: option.splits
      intro!: makes_move_InTx change_tx_move proper_note)

lemma ResolveIncident_moves: "makes_move (ResolveIncident now c k m)"
  by (auto simp: ResolveIncident_def Let_def makes_move_failC change_def split: option.splits
      intro!: makes_move_InTx change_tx_move proper_resolve)

lemma DetectIncident_moves: "makes_move (DetectIncident gf now d)"
  unfolding DetectIncident_def Let_def by (simp add: makes_move_failC makes_move_InTx detect_tx_move)

section \<open>Histories\<close>

text \<open>
  The operations of all instances one after another, each a transaction of its own with any faults, while request minutes
  are written and deleted.
\<close>

inductive inc_step :: "obs_db \<Rightarrow> obs_db \<Rightarrow> bool" where
  "others w = [] \<Longrightarrow> OpenIncident now c n w = (r, (w' :: (obs_db, unit) world)) \<Longrightarrow> inc_step (db w) (db w')"
| "others w = [] \<Longrightarrow> UpdateIncident now c k g w = (r, (w' :: (obs_db, unit) world)) \<Longrightarrow> inc_step (db w) (db w')"
| "others w = [] \<Longrightarrow> ResolveIncident now c k m w = (r, (w' :: (obs_db, unit) world)) \<Longrightarrow> inc_step (db w) (db w')"
| "others w = [] \<Longrightarrow> DetectIncident gf now d w = (r', (w' :: (obs_db, unit) world)) \<Longrightarrow> inc_step (db w) (db w')"
| "inc_step d (d\<lparr>ob_minutes := ms\<rparr>)"

lemma makes_moveD:
  "makes_move m \<Longrightarrow> others w = [] \<Longrightarrow> m w = (r, w') \<Longrightarrow> obs_inv (db w) \<Longrightarrow> db w' = db w \<or> incident_move (db w) (db w')"
  unfolding makes_move_def by (metis snd_conv)

lemmas operations_move = OpenIncident_moves UpdateIncident_moves ResolveIncident_moves DetectIncident_moves

lemma inc_step_cases:
  "inc_step d d' \<Longrightarrow> obs_inv d \<Longrightarrow> incident_move d d' \<or> (\<exists>ms. d' = d\<lparr>ob_minutes := ms\<rparr>)"
proof (induction rule: inc_step.induct)
  case (5 d ms)
  show ?case by blast
qed (metis makes_moveD [OF OpenIncident_moves] makes_moveD [OF UpdateIncident_moves] makes_moveD [OF ResolveIncident_moves]
     makes_moveD [OF DetectIncident_moves] obs_db.surjective obs_db.update_convs(3))+

definition obs_empty :: obs_db where
  "obs_empty = \<lparr>ob_incidents = [], ob_updates = [], ob_minutes = [], ob_nextIncident = 1, ob_nextUpdate = 1\<rparr>"

lemma obs_inv_empty: "obs_inv obs_empty"
  by (simp add: obs_inv_def obs_empty_def)

lemma minutes_simps [obs_simps]:
  "timeline k (d\<lparr>ob_minutes := ms\<rparr>) = timeline k d" "find_incident k (d\<lparr>ob_minutes := ms\<rparr>) = find_incident k d"
  "obs_inv (d\<lparr>ob_minutes := ms\<rparr>) = obs_inv d"
  by (simp_all add: timeline_def find_incident_def obs_inv_def)

lemma inc_step_inv: "inc_step d d' \<Longrightarrow> obs_inv d \<Longrightarrow> obs_inv d'"
  using inc_step_cases incident_move_inv by (metis minutes_simps(3))

lemma inc_steps_inv: "inc_step\<^sup>*\<^sup>* d d' \<Longrightarrow> obs_inv d \<Longrightarrow> obs_inv d'"
  by (induction rule: rtranclp_induct) (auto intro: inc_step_inv)

section \<open>An incident along a history\<close>

lemma find_put:
  "List.find (\<lambda>j. ic_ID j = k) (update_where (\<lambda>j. ic_ID j = ic_ID i) (\<lambda>_. i) rs) =
     (if List.find (\<lambda>j. ic_ID j = k) rs = None then None else if k = ic_ID i then Some i else List.find (\<lambda>j. ic_ID j = k) rs)"
  unfolding update_where_def by (induction rs) auto

lemma find_append_old: "List.find p rs = Some r \<Longrightarrow> List.find p (rs @ rs') = Some r"
  by (induction rs) (auto split: if_splits)

lemma find_simps [obs_simps]:
  "find_incident k (add_update u d) = find_incident k d"
  "find_incident k (put_incident i d) = (if find_incident k d = None then None else if k = ic_ID i then Some i else find_incident k d)"
  unfolding find_incident_def obs_simps find_put by (rule refl)+

lemma find_add_incident: "find_incident k d = Some i \<Longrightarrow> find_incident k (add_incident j d) = Some i"
  unfolding find_incident_def obs_simps by (rule find_append_old)

text \<open>What one step does to one incident: nothing, an entry while there is room, or a rate noted at a full timeline.\<close>

lemma move_view:
  assumes "incident_move d d'" "find_incident k d = Some i" "obs_inv d"
  obtains "find_incident k d' = Some i" "timeline k d' = timeline k d"
  | i' u where "ic_Status i \<noteq> StatusResolved" "length (timeline k d) < MaxIncidentUpdates"
      "find_incident k d' = Some i'" "same_incident i i'" "timeline k d' = timeline k d @ [u]"
  | r t where "ic_Status i \<noteq> StatusResolved" "MaxIncidentUpdates \<le> length (timeline k d)"
      "find_incident k d' = Some (i\<lparr>ic_RecoveredAt := r, ic_UpdatedAt := t\<rparr>)" "timeline k d' = timeline k d"
  using assms(1)
proof cases
  case (opened i0 u)
  have "k < ob_nextIncident d" using assms(2,3) find_incident_D unfolding obs_inv_def by blast
  then have "timeline k d' = timeline k d" using opened by (auto simp: obs_simps reports_def)
  with that(1) opened(1) find_add_incident [OF assms(2)] show ?thesis by (simp add: obs_simps)
next
  case (changed i0 i' u)
  show ?thesis
  proof (cases "k = ic_ID i0")
    case True
    with changed assms(2) that(2) [of i' u] show ?thesis by (auto simp: obs_simps reports_def same_incident_def)
  next
    case False
    with changed assms(2) that(1) show ?thesis by (auto simp: obs_simps reports_def same_incident_def)
  qed
next
  case (unnoted i0 i' r t)
  show ?thesis
  proof (cases "k = ic_ID i0")
    case True
    with unnoted assms(2) that(3) [of r t] show ?thesis by (auto simp: obs_simps open_automatic_def)
  next
    case False
    with unnoted assms(2) that(1) show ?thesis by (auto simp: obs_simps)
  qed
qed

lemma step_final:
  assumes "inc_step d d'" "obs_inv d" "find_incident k d = Some i" "ic_Status i = StatusResolved"
  shows "find_incident k d' = Some i \<and> timeline k d' = timeline k d"
  using inc_step_cases [OF assms(1,2)]
proof
  assume "incident_move d d'"
  then show ?thesis by (rule move_view [OF _ assms(3,2)]) (use assms(4) in auto)
qed (use assms(3) in \<open>auto simp: obs_simps\<close>)

lemma steps_final:
  assumes "inc_step\<^sup>*\<^sup>* d d'" "obs_inv d" "find_incident k d = Some i" "ic_Status i = StatusResolved"
  shows "find_incident k d' = Some i \<and> timeline k d' = timeline k d"
  using assms(1)
proof (induction rule: rtranclp_induct)
  case (step d1 d2)
  then show ?case using step_final [OF step(2) inc_steps_inv [OF step(1) assms(2)]] assms(4) by auto
qed (simp add: assms(3))

text \<open>A full timeline of an open incident is full for ever.\<close>

definition stuck :: "int \<Rightarrow> Incident \<Rightarrow> obs_db \<Rightarrow> obs_db \<Rightarrow> bool" where
  "stuck k i d d' \<longleftrightarrow> timeline k d' = timeline k d \<and>
     (\<exists>r t. find_incident k d' = Some (i\<lparr>ic_RecoveredAt := r, ic_UpdatedAt := t\<rparr>))"

lemma steps_stuck:
  assumes "inc_step\<^sup>*\<^sup>* d d'" "obs_inv d" "find_incident k d = Some i" "ic_Status i \<noteq> StatusResolved" "MaxIncidentUpdates \<le> length (timeline k d)"
  shows "stuck k i d d'"
  using assms(1)
proof (induction rule: rtranclp_induct)
  case base
  have "i = i\<lparr>ic_RecoveredAt := ic_RecoveredAt i, ic_UpdatedAt := ic_UpdatedAt i\<rparr>" by simp
  with assms(3) show ?case unfolding stuck_def by metis
next
  case (step d1 d2)
  then obtain r t where 1: "timeline k d1 = timeline k d" "find_incident k d1 = Some (i\<lparr>ic_RecoveredAt := r, ic_UpdatedAt := t\<rparr>)"
    by (auto simp: stuck_def)
  note inv = inc_steps_inv [OF step(1) assms(2)]
  from inc_step_cases [OF step(2) inv] show ?case
  proof
    assume "incident_move d1 d2"
    then show ?thesis by (rule move_view [OF _ 1(2) inv]) (use 1 assms(5) in \<open>auto simp: stuck_def\<close>)
  qed (use 1 in \<open>auto simp: stuck_def obs_simps intro!: exI [where x = r] exI [where x = t]\<close>)
qed

text \<open>At most one incident of the tables is automatic and open.\<close>

lemma one_open_automatic:
  assumes "obs_inv d" "i \<in> set (ob_incidents d)" "j \<in> set (ob_incidents d)" "open_automatic i" "open_automatic j"
  shows "j = i"
proof -
  have "length (filter open_automatic (ob_incidents d)) \<le> 1" using assms(1) by (simp add: obs_inv_def)
  moreover have "i \<in> set (filter open_automatic (ob_incidents d))" "j \<in> set (filter open_automatic (ob_incidents d))" using assms by auto
  ultimately show ?thesis by (cases "filter open_automatic (ob_incidents d)") auto
qed

lemma timeline_sorted: "obs_inv d \<Longrightarrow> sort_key iu_ID (timeline k d) = timeline k d"
proof -
  assume "obs_inv d"
  then have "sorted_wrt (<) (map iu_ID (timeline k d))"
    unfolding obs_inv_def timeline_def by (simp add: sorted_wrt_map sorted_wrt_filter)
  then show ?thesis by (intro sort_key_id_if_sorted strict_sorted_imp_sorted)
qed

section \<open>Runs that succeed\<close>

lemma others_not_automatic:
  assumes "obs_inv d" "find_incident (ic_ID i) d = Some i" "open_automatic i"
  shows "\<not> list_ex (\<lambda>j. ic_ID j \<noteq> ic_ID i \<and> open_automatic j) (ob_incidents d)"
proof -
  have "i \<in> set (ob_incidents d)" using assms(2) find_incident_D by blast
  then show ?thesis using one_open_automatic [OF assms(1) _ _ assms(3)] unfolding list_ex_iff by blast
qed

lemma InTx_works:
  "faults w = [] \<Longrightarrow> others w = [] \<Longrightarrow> fn w = (Inr x, w') \<Longrightarrow> faults w' = [] \<Longrightarrow> InTx fn w = (Inr x, w')"
  by (cases w; cases w') (simp add: InTx_def InTxWithOptions_def interfere_none)

lemma InTx_fails:
  "faults w = [] \<Longrightarrow> others w = [] \<Longrightarrow> fn w = (Inl e, w') \<Longrightarrow> faults w' = [] \<Longrightarrow> InTx fn w = (Inl e, w'\<lparr>db := db w\<rparr>)"
  by (cases w; cases w') (simp add: InTx_def InTxWithOptions_def interfere_none)

lemma lockOpenIncident_works:
  "faults w = [] \<Longrightarrow> find_incident k (db w) = Some i \<Longrightarrow> ic_Status i \<noteq> StatusResolved \<Longrightarrow> lockOpenIncident k n w =
     (if length (timeline k (db w)) < n then Inr i else Inl (Err ErrTooManyUpdates), w)"
  by (simp add: lockOpenIncident_def selectIncidentForUpdate_def run_simps comp_defs)

lemma storeIncident_works:
  fixes now :: time
  assumes "faults w = []" "find_incident (ic_ID i) (db w) = Some i" "obs_inv (db w)" "ic_Status i \<noteq> StatusResolved"
  defines "i' \<equiv> i\<lparr>ic_RecoveredAt := map_option pg_time (ic_RecoveredAt i), ic_UpdatedAt := pg_time now\<rparr>"
  shows "storeIncident i now w = (Inr i', w\<lparr>db := put_incident i' (db w)\<rparr>)"
proof -
  have "row_checks i" "ic_ResolvedAt i = None"
    using assms(2-4) find_incident_D by (auto simp: obs_inv_def rate_ok_def row_checks_def)
  then have "row_checks i'" "i' = i\<lparr>ic_Status := ic_Status i, ic_Severity := ic_Severity i, ic_ResolvedAt := map_option pg_time (ic_ResolvedAt i),
     ic_RecoveredAt := map_option pg_time (ic_RecoveredAt i), ic_UpdatedAt := pg_time now\<rparr>"
    by (auto simp: i'_def row_checks_def)
  moreover have "\<not> (open_automatic i' \<and> list_ex (\<lambda>j. ic_ID j \<noteq> ic_ID i' \<and> open_automatic j) (ob_incidents (db w)))"
    using others_not_automatic [OF assms(3,2)] by (auto simp: i'_def open_automatic_def)
  moreover have "ic_ID i' = ic_ID i" by (simp add: i'_def)
  ultimately show ?thesis using assms(1,2) by (simp add: storeIncident_def run_simps Let_def put_incident_def)
qed

lemma insertUpdate_works:
  assumes "faults w = []" "find_incident (ic_ID inc) (db w) \<noteq> None"
  shows "\<exists>u. insertUpdate inc kind m by' now w = (Inr u, w\<lparr>db := add_update u (db w)\<rparr>) \<and> iu_IncidentID u = ic_ID inc"
proof -
  have "list_ex (\<lambda>i. ic_ID i = ic_ID inc) (ob_incidents (db w))"
    using assms(2) find_incident_D by (fastforce simp: list_ex_iff)
  with assms(1) show ?thesis by (simp add: insertUpdate_def run_simps Let_def add_update_def)
qed

text \<open>An entry without a change of status or severity, on an open incident with room.\<close>

definition entry :: "string \<Rightarrow> IncidentChange" where
  "entry m = \<lparr>cg_Message = m, cg_Status = [], cg_Severity = []\<rparr>"

lemma UpdateIncident_entry:
  assumes w: "faults w = []" "others w = []" "obs_inv (db w)" and i: "find_incident k (db w) = Some i" "ic_Status i \<noteq> StatusResolved"
    and room: "length (timeline k (db w)) < MaxIncidentUpdates" and m: "validateMessage (TrimSpace m) = None"
  shows "\<exists>r w' i' u. UpdateIncident now c k (entry m) w = (r, w') \<and> find_incident k (db w') = Some i' \<and> ic_Status i' = ic_Status i \<and>
    ic_Source i' = ic_Source i \<and> timeline k (db w') = timeline k (db w) @ [u] \<and> faults w' = [] \<and> others w' = []"
proof -
  have k: "ic_ID i = k" using i(1) find_incident_D by blast
  let ?i = "i\<lparr>ic_RecoveredAt := map_option pg_time (ic_RecoveredAt i), ic_UpdatedAt := pg_time now\<rparr>"
  let ?w = "w\<lparr>db := put_incident ?i (db w)\<rparr>"
  obtain u where u: "insertUpdate ?i UpdateNote (TrimSpace m) (FromOrAnonymous c) now ?w = (Inr u, ?w\<lparr>db := add_update u (db ?w)\<rparr>)"
    "iu_IncidentID u = k"
    using insertUpdate_works [of ?w ?i UpdateNote "TrimSpace m" "FromOrAnonymous c" now] w(1) i(1) k by (auto simp: obs_simps)
  have g: "validateChange (entry (TrimSpace m)) = None" "apply_change (entry (TrimSpace m)) i = i"
    using m by (simp_all add: validateChange_def apply_change_def entry_def)
  have "storeIncident i now w = (Inr ?i, ?w)" using storeIncident_works [OF w(1) _ w(3) i(2)] i(1) k by simp
  then have "change_tx now c k UpdateNote (TrimSpace m) (apply_change (entry (TrimSpace m))) w = (Inr (?i, u), ?w\<lparr>db := add_update u (db ?w)\<rparr>)"
    using g(2) u(1) lockOpenIncident_works [OF w(1) i(1,2), of MaxIncidentUpdates] room by (simp add: change_tx_def comp_defs)
  from InTx_works [where fn = "change_tx now c k UpdateNote (TrimSpace m) (apply_change (entry (TrimSpace m)))", OF w(1,2) this]
  have "UpdateIncident now c k (entry m) w = (Inr (?i, u), ?w\<lparr>db := add_update u (db ?w)\<rparr>)"
    using w(1) g(1) by (simp add: UpdateIncident_def change_def entry_def Let_def)
  moreover have "find_incident k (db (?w\<lparr>db := add_update u (db ?w)\<rparr>)) = Some ?i"
    "timeline k (db (?w\<lparr>db := add_update u (db ?w)\<rparr>)) = timeline k (db w) @ [u]"
    using i(1) k u(2) by (simp_all add: obs_simps)
  ultimately show ?thesis using w(1,2) by (intro exI [of _ "?w\<lparr>db := add_update u (db ?w)\<rparr>"] exI [of _ ?i] exI [of _ u] exI) auto
qed

section \<open>Properties\<close>


text \<open>
  C29: Resolution is final: whatever the store does afterwards, a resolved incident and its timeline stay as they are.
\<close>

theorem resolved_is_final:
  assumes "inc_step\<^sup>*\<^sup>* obs_empty d" "find_incident k d = Some i" "ic_Status i = StatusResolved" "inc_step\<^sup>*\<^sup>* d d'"
  shows "find_incident k d' = Some i \<and> timeline k d' = timeline k d"
  using steps_final [OF assms(4) inc_steps_inv [OF assms(1) obs_inv_empty] assms(2,3)] .

text \<open>
  C30: An open incident whose timeline has 500 entries can never be resolved: whatever happens afterwards, resolving it is
  refused with \<open>ErrTooManyUpdates\<close>. If it is automatic it stays the open automatic incident, so that detection, whatever
  it sees, opens no other.
\<close>

theorem full_incident_stuck:
  assumes "inc_step\<^sup>*\<^sup>* obs_empty d" "find_incident k d = Some i" "ic_Status i \<noteq> StatusResolved"
    and "length (timeline k d) = MaxIncidentUpdates" "inc_step\<^sup>*\<^sup>* d (db w)" "faults w = []" "others w = []"
    and "validateMessage (TrimSpace m) = None"
  shows "fst (ResolveIncident now c k m w) = Inl (Err ErrTooManyUpdates) \<and>
    (open_automatic i \<longrightarrow> (\<forall>j \<in> set (ob_incidents (db w)). open_automatic j \<longrightarrow> ic_ID j = k))"
proof -
  have inv: "obs_inv d" "obs_inv (db w)" using inc_steps_inv assms(1,5) obs_inv_empty by blast+
  from steps_stuck [OF assms(5) inv(1) assms(2,3)] assms(4) obtain r t where
    s: "timeline k (db w) = timeline k d" "find_incident k (db w) = Some (i\<lparr>ic_RecoveredAt := r, ic_UpdatedAt := t\<rparr>)"
    by (auto simp: stuck_def)
  let ?tx = "change_tx now c k UpdateResolved (TrimSpace m) (apply_resolve now)"
  have "?tx w = (Inl (Err ErrTooManyUpdates), w)"
    using lockOpenIncident_works [OF assms(6) s(2), of MaxIncidentUpdates] assms(3,4) s(1) by (simp add: change_tx_def comp_defs)
  then have "fst (ResolveIncident now c k m w) = Inl (Err ErrTooManyUpdates)"
    using InTx_fails [where fn = ?tx, OF assms(6,7)] assms(6,8) by (simp add: ResolveIncident_def change_def Let_def)
  moreover have "ic_ID j = k" if "open_automatic i" "j \<in> set (ob_incidents (db w))" "open_automatic j" for j
    using one_open_automatic [OF inv(2) _ that(2) _ that(3)] find_incident_D [OF s(2)] that(1) by (force simp: open_automatic_def)
  ultimately show ?thesis by blast
qed

section \<open>A history\<close>

text \<open>One minute with more than half of its requests failing, and the detection that opens an incident for it.\<close>

definition plain_format :: go_format where
  "plain_format = \<lparr>gf_divide = (\<lambda>a b. of_int a / of_int b), gf_percent = (\<lambda>_. ''?''), gf_duration = (\<lambda>_. ''?'')\<rparr>"

definition every_minute :: Detection where
  "every_minute = \<lparr>dt_Window = minute, dt_Threshold = 1 / 2, dt_MinRequests = 1, dt_Severity = [], dt_Actor = System ''detect''\<rparr>"

definition bad_minute :: minute_row where
  "bad_minute = \<lparr>mn_minute = 0, mn_instance = ''a'', mn_method = ''GET'', mn_route = [], mn_requests = 10, mn_client_errors = 0,
     mn_server_errors = 9, mn_duration_sum_us = 100, mn_duration_max_us = 10, mn_buckets = []\<rparr>"

definition alone :: "obs_db \<Rightarrow> (obs_db, unit) world" where
  "alone d = \<lparr>db = d, faults = [], others = [], ext = ()\<rparr>"

definition detected :: obs_db where
  "detected = db (snd (DetectIncident plain_format 0 every_minute (alone (obs_empty\<lparr>ob_minutes := [bad_minute]\<rparr>))))"

lemma alone_simps [simp]: "db (alone d) = d" "faults (alone d) = []" "others (alone d) = []"
  by (simp_all add: alone_def)

lemma detected_reached: "inc_step\<^sup>*\<^sup>* obs_empty detected"
proof -
  let ?w = "alone (obs_empty\<lparr>ob_minutes := [bad_minute]\<rparr>)"
  have "inc_step (db ?w) detected"
    using inc_step.intros(4) [OF alone_simps(3) surjective_pairing] unfolding detected_def .
  moreover have "inc_step obs_empty (db ?w)" using inc_step.intros(5) by simp
  ultimately show ?thesis by (meson converse_rtranclp_into_rtranclp r_into_rtranclp)
qed

lemma detected_open:
  "map_option open_automatic (find_incident 1 detected) = Some True" "length (timeline 1 detected) = 1"
  by code_simp+

definition over :: obs_db where
  "over = db (snd (ResolveIncident 0 Background 1 ''Over.'' (alone detected)))"

lemma over_reached: "inc_step\<^sup>*\<^sup>* obs_empty over"
proof -
  have "inc_step (db (alone detected)) over"
    using inc_step.intros(3) [OF alone_simps(3) surjective_pairing] unfolding over_def .
  with detected_reached show ?thesis by (simp add: rtranclp.rtrancl_into_rtrancl)
qed

lemma over_resolved: "map_option (\<lambda>i. ic_Status i = StatusResolved) (find_incident 1 over) = Some True"
  by code_simp

text \<open>Operators can fill the timeline of an open automatic incident.\<close>

lemma full_reached:
  "n < MaxIncidentUpdates \<Longrightarrow> \<exists>d i. inc_step\<^sup>*\<^sup>* obs_empty d \<and> find_incident 1 d = Some i \<and> open_automatic i \<and> length (timeline 1 d) = n + 1"
proof (induction n)
  case 0
  show ?case using detected_reached detected_open by fastforce
next
  case (Suc n)
  then obtain d i where d: "inc_step\<^sup>*\<^sup>* obs_empty d" "find_incident 1 d = Some i" "open_automatic i" "length (timeline 1 d) = n + 1" by auto
  have "validateMessage (TrimSpace ''Still looking.'') = None" by code_simp
  then obtain r w' i' u where run: "UpdateIncident 0 Background 1 (entry ''Still looking.'') (alone d) = (r, w')"
    "find_incident 1 (db w') = Some i'" "ic_Status i' = ic_Status i" "ic_Source i' = ic_Source i" "timeline 1 (db w') = timeline 1 d @ [u]"
    using UpdateIncident_entry [of "alone d" 1 i "''Still looking.''" 0 Background] d Suc.prems inc_steps_inv [OF d(1) obs_inv_empty]
    by (auto simp: open_automatic_def)
  have "inc_step\<^sup>*\<^sup>* obs_empty (db w')"
    using d(1) inc_step.intros(2) [OF alone_simps(3) run(1)] by (simp add: rtranclp.rtrancl_into_rtrancl)
  with run d(3,4) show ?case by (auto simp: open_automatic_def)
qed

section \<open>Witnesses\<close>


theorem resolved_is_final_witness:
  "\<exists>i. find_incident 1 over = Some i \<and> find_incident 1 (over\<lparr>ob_minutes := []\<rparr>) = Some i"
proof -
  obtain i where "find_incident 1 over = Some i" "ic_Status i = StatusResolved" using over_resolved by auto
  moreover have "inc_step\<^sup>*\<^sup>* over (over\<lparr>ob_minutes := []\<rparr>)" by (simp add: inc_step.intros(5) r_into_rtranclp)
  ultimately show ?thesis using resolved_is_final [OF over_reached] by blast
qed

theorem full_incident_stuck_witness:
  "\<exists>d i. inc_step\<^sup>*\<^sup>* obs_empty d \<and> find_incident 1 d = Some i \<and> open_automatic i \<and>
     fst (ResolveIncident 0 Background 1 ''Over.'' (alone d)) = Inl (Err ErrTooManyUpdates)"
proof -
  obtain d i where d: "inc_step\<^sup>*\<^sup>* obs_empty d" "find_incident 1 d = Some i" "open_automatic i" "length (timeline 1 d) = 500"
    using full_reached [of 499] by (auto simp: MaxIncidentUpdates_def)
  have "validateMessage (TrimSpace ''Over.'') = None" by code_simp
  then show ?thesis
    using full_incident_stuck [OF d(1,2), of "alone d" "''Over.''" 0 Background] d by (auto simp: open_automatic_def MaxIncidentUpdates_def)
qed

end
