(* ===== verification/Collector_Store.thy ===== *)
theory Collector_Store
  imports Collector_Props Incidents_Props
begin

text \<open>
  The store as the collector's sink (\<open>write_minutes.go\<close>): the rows a batch upserts, what a write leaves of them under any
  faults, and when the rows of a held window are exact.
\<close>

section \<open>Writing minutes\<close>

definition writeBatch_size :: nat where "writeBatch_size = 1000"

text \<open>\<open>time.Duration.Microseconds\<close> truncates; durations here are not negative.\<close>

definition row_of :: "Minute \<Rightarrow> minute_row" where
  "row_of m = \<lparr>mn_minute = truncate_to (mi_Start m) minute, mn_instance = mi_Instance m, mn_method = mi_Method m, mn_route = mi_Route m,
     mn_requests = st_Requests (mi_Stats m), mn_client_errors = st_ClientErrors (mi_Stats m), mn_server_errors = st_ServerErrors (mi_Stats m),
     mn_duration_sum_us = st_DurationSum (mi_Stats m) div microsecond, mn_duration_max_us = st_DurationMax (mi_Stats m) div microsecond,
     mn_buckets = map (\<lambda>b. if b < length (st_Buckets (mi_Stats m)) then st_Buckets (mi_Stats m) ! b else 0) [0..<BucketCount]\<rparr>"

text \<open>
  One row of the statement: inserted, or replacing the stored row of its key unless that has more requests. A statement may
  not affect a row twice.
\<close>

definition upsert :: "minute_row \<Rightarrow> minute_row list \<Rightarrow> minute_row list" where
  "upsert r rows =
     (if minute_key r \<in> minute_key ` set rows
      then update_where (\<lambda>m. minute_key m = minute_key r \<and> mn_requests r \<ge> mn_requests m) (\<lambda>_. r) rows
      else rows @ [r])"

fun upsert_all :: "(time \<times> string \<times> string \<times> string) set \<Rightarrow> minute_row list \<Rightarrow> minute_row list \<Rightarrow> minute_row list option" where
  "upsert_all affected [] rows = Some rows"
| "upsert_all affected (r # rs) rows =
     (if minute_key r \<in> affected then None
      else upsert_all (if list_ex (\<lambda>m. minute_key m = minute_key r \<and> \<not> mn_requests r \<ge> mn_requests m) rows then affected
                       else insert (minute_key r) affected) rs (upsert r rows))"

definition writeBatch :: "Minute list \<Rightarrow> ('x, unit) obs" where
  "writeBatch minutes = stmt (\<lambda>d. case upsert_all {} (map row_of minutes) (ob_minutes d) of
     None \<Rightarrow> (Inl Driver, d) | Some rows \<Rightarrow> (Inr (), d\<lparr>ob_minutes := rows\<rparr>))"

function WriteMinutes :: "Minute list \<Rightarrow> ('x, unit) obs" where
  "WriteMinutes minutes =
     (if minutes = [] then retC ()
      else let n = min (length minutes) writeBatch_size in
        bindC (writeBatch (take n minutes)) (\<lambda>_. WriteMinutes (drop n minutes)))"
  by pat_completeness auto
termination by (relation "measure length") (auto simp: writeBatch_size_def)

declare WriteMinutes.simps [simp del]

definition store_sink :: "((obs_db, 'x) world, obs_error goerr) sink" where
  "store_sink minutes w = (case WriteMinutes minutes w of (Inl e, w') \<Rightarrow> (Some e, w') | (Inr _, w') \<Rightarrow> (None, w'))"

section \<open>The table by key\<close>

definition stored_minute :: "obs_db \<Rightarrow> time \<times> string \<times> string \<times> string \<Rightarrow> minute_row option" where
  "stored_minute d = map_of (map (\<lambda>r. (minute_key r, r)) (ob_minutes d))"

definition keys_distinct :: "obs_db \<Rightarrow> bool" where
  "keys_distinct d \<longleftrightarrow> distinct (map minute_key (ob_minutes d))"

lemma row_lookup:
  "distinct (map minute_key rs) \<Longrightarrow> r \<in> set rs \<Longrightarrow> map_of (map (\<lambda>r. (minute_key r, r)) rs) (minute_key r) = Some r"
  by (subst map_of_eq_Some_iff) (auto simp: o_def)

lemma row_lookup_None: "(\<And>r. r \<in> set rs \<Longrightarrow> minute_key r \<noteq> k) \<Longrightarrow> map_of (map (\<lambda>r. (minute_key r, r)) rs) k = None"
  by (induction rs) auto

lemma stored_minute_iff: "keys_distinct d \<Longrightarrow> stored_minute d k = Some r \<longleftrightarrow> r \<in> set (ob_minutes d) \<and> minute_key r = k"
  unfolding stored_minute_def keys_distinct_def by (subst map_of_eq_Some_iff) (auto simp: o_def)

text \<open>The row kept of an old one and a new one.\<close>

definition merged :: "minute_row option \<Rightarrow> minute_row \<Rightarrow> minute_row" where
  "merged old r = (case old of None \<Rightarrow> r | Some m \<Rightarrow> if mn_requests r \<ge> mn_requests m then r else m)"

lemma upsert_map:
  "map minute_key (upsert r rows) = (if minute_key r \<in> set (map minute_key rows) then map minute_key rows else map minute_key rows @ [minute_key r])"
proof -
  have "map minute_key (update_where (\<lambda>m. minute_key m = minute_key r \<and> mn_requests r \<ge> mn_requests m) (\<lambda>_. r) rows) = map minute_key rows"
    by (rule map_update_where_keep) simp
  then show ?thesis by (simp add: upsert_def)
qed

lemma upsert_distinct: "distinct (map minute_key rows) \<Longrightarrow> distinct (map minute_key (upsert r rows))"
  unfolding upsert_map by auto

lemma upsert_mem:
  assumes "distinct (map minute_key rows)"
  shows "x \<in> set (upsert r rows) \<longleftrightarrow>
    (if minute_key x = minute_key r then x = merged (map_of (map (\<lambda>r. (minute_key r, r)) rows) (minute_key r)) r else x \<in> set rows)"
proof (cases "minute_key r \<in> minute_key ` set rows")
  case False
  then have "map_of (map (\<lambda>r. (minute_key r, r)) rows) (minute_key r) = None" by (auto simp: map_of_eq_None_iff)
  moreover have "minute_key x \<noteq> minute_key r" if "x \<in> set rows" using False that by (metis image_eqI)
  ultimately show ?thesis using False by (auto simp: upsert_def merged_def)
next
  case True
  then obtain m where m: "m \<in> set rows" "minute_key m = minute_key r" by auto
  then have old: "map_of (map (\<lambda>r. (minute_key r, r)) rows) (minute_key r) = Some m"
    using row_lookup [OF assms m(1)] by simp
  have only: "y = m" if "y \<in> set rows" "minute_key y = minute_key r" for y
    using distinct_map_unique [OF assms that(1) m(1)] that(2) m(2) by simp
  have rows: "set (upsert r rows) = (\<lambda>y. if minute_key y = minute_key r \<and> mn_requests y \<le> mn_requests r then r else y) ` set rows"
    using True by (simp add: upsert_def set_update_where)
  show ?thesis
  proof (cases "minute_key x = minute_key r")
    case key: True
    have "x \<in> set (upsert r rows) \<longleftrightarrow> x = (if mn_requests m \<le> mn_requests r then r else m)"
    proof
      assume "x \<in> set (upsert r rows)"
      then obtain y where "y \<in> set rows" "x = (if minute_key y = minute_key r \<and> mn_requests y \<le> mn_requests r then r else y)"
        unfolding rows by blast
      with only key show "x = (if mn_requests m \<le> mn_requests r then r else m)" by (auto split: if_splits)
    qed (use m in \<open>auto simp: rows image_iff intro!: bexI [of _ m]\<close>)
    with key old show ?thesis by (simp add: merged_def)
  next
    case False
    then show ?thesis unfolding rows by (auto simp: image_iff split: if_splits)
  qed
qed

text \<open>A batch of distinct keys changes each of its rows alone.\<close>

lemma upsert_all_distinct:
  "distinct (map minute_key rs) \<Longrightarrow> minute_key ` set rs \<inter> affected = {} \<Longrightarrow> upsert_all affected rs rows = Some (fold upsert rs rows)"
  by (induction rs arbitrary: rows affected) auto

definition put_rows :: "minute_row list \<Rightarrow> obs_db \<Rightarrow> obs_db" where
  "put_rows rs d = d\<lparr>ob_minutes := fold upsert rs (ob_minutes d)\<rparr>"

lemma put_rows_Nil [simp]: "put_rows [] d = d"
  by (simp add: put_rows_def)

lemma put_rows_Cons: "put_rows (r # rs) d = put_rows rs (put_rows [r] d)"
  by (simp add: put_rows_def)

lemma put_rows_append: "put_rows (rs @ rs') d = put_rows rs' (put_rows rs d)"
  by (simp add: put_rows_def)

lemma put_rows_distinct: "keys_distinct d \<Longrightarrow> keys_distinct (put_rows rs d)"
  unfolding keys_distinct_def put_rows_def by (simp, induction rs arbitrary: d rule: rev_induct) (auto intro: upsert_distinct)

lemma merged_key: "keys_distinct d \<Longrightarrow> minute_key (merged (stored_minute d (minute_key r)) r) = minute_key r"
  using stored_minute_iff [of d "minute_key r"] by (auto simp: merged_def split: option.splits)

lemma stored_put_one:
  assumes "keys_distinct d"
  shows "stored_minute (put_rows [r] d) k = (if k = minute_key r then Some (merged (stored_minute d k) r) else stored_minute d k)"
proof -
  let ?d = "put_rows [r] d"
  have d: "keys_distinct ?d" using put_rows_distinct [OF assms] .
  have "x \<in> set (ob_minutes ?d) \<and> minute_key x = k \<longleftrightarrow>
    (if k = minute_key r then x = merged (stored_minute d k) r else x \<in> set (ob_minutes d) \<and> minute_key x = k)" for x
    using upsert_mem [of "ob_minutes d" x r] assms merged_key [OF assms, of r] by (auto simp: put_rows_def keys_distinct_def stored_minute_def)
  then have "stored_minute ?d k = Some x \<longleftrightarrow> (if k = minute_key r then Some (merged (stored_minute d k) r) else stored_minute d k) = Some x" for x
    using stored_minute_iff [OF d, of k] stored_minute_iff [OF assms, of k] by auto
  then show ?thesis by (metis not_Some_eq)
qed

lemma stored_put:
  assumes "keys_distinct d" "distinct (map minute_key rs)"
  shows "stored_minute (put_rows rs d) k =
    (case map_of (map (\<lambda>r. (minute_key r, r)) rs) k of None \<Rightarrow> stored_minute d k | Some r \<Rightarrow> Some (merged (stored_minute d k) r))"
  using assms
proof (induction rs arbitrary: d)
  case (Cons r rs)
  have "map_of (map (\<lambda>r. (minute_key r, r)) rs) (minute_key r) = None" using Cons.prems(2) by (auto simp: map_of_eq_None_iff)
  moreover have "stored_minute (put_rows (r # rs) d) k =
    (case map_of (map (\<lambda>r. (minute_key r, r)) rs) k of None \<Rightarrow> stored_minute (put_rows [r] d) k | Some r' \<Rightarrow> Some (merged (stored_minute (put_rows [r] d) k) r'))"
    using Cons.IH [OF put_rows_distinct [OF Cons.prems(1)]] Cons.prems(2) by (simp only: put_rows_Cons [of r rs] list.map distinct.simps)
  ultimately show ?case using stored_put_one [OF Cons.prems(1), of r k] by (cases "k = minute_key r") (simp_all split: option.splits)
qed simp

text \<open>Whatever faults happen, writing minutes has written the first batches; all of them when it succeeds.\<close>

lemma writeBatch_rows:
  assumes "distinct (map minute_key (map row_of ms))" "writeBatch ms w = (r, w')"
  obtains (nothing) "db w' = db w" "r = Inl Driver" | (all) "db w' = put_rows (map row_of ms) (db w)"
  using assms upsert_all_distinct [OF assms(1), of "{}" "ob_minutes (db w)"]
  by (auto simp: writeBatch_def stmt_def Let_def put_rows_def split: prod.splits fault.splits)

lemma WriteMinutes_rows:
  assumes "distinct (map minute_key (map row_of ms))" "WriteMinutes ms w = (r, w')"
  shows "\<exists>n. db w' = put_rows (map row_of (take n ms)) (db w) \<and> (r = Inr () \<longrightarrow> length ms \<le> n)"
  using assms
proof (induction ms arbitrary: w rule: WriteMinutes.induct)
  case (1 ms)
  show ?case
  proof (cases "ms = []")
    case True
    with 1(3) have "w' = w" by (simp add: WriteMinutes.simps [of "[]"] retC_def)
    with True show ?thesis by simp
  next
    case False
    define n where "n = min (length ms) writeBatch_size"
    obtain r1 w1 where b: "writeBatch (take n ms) w = (r1, w1)" by fastforce
    have run: "(r, w') = (case r1 of Inl e \<Rightarrow> (Inl e, w1) | Inr _ \<Rightarrow> WriteMinutes (drop n ms) w1)"
      using 1(3) False b unfolding WriteMinutes.simps [of ms] by (simp add: n_def [symmetric] Let_def bindC_def split: sum.splits)
    have dist: "distinct (map minute_key (map row_of (take n ms)))" "distinct (map minute_key (map row_of (drop n ms)))"
      using 1(2) by (simp_all flip: take_map drop_map add: distinct_take distinct_drop)
    show ?thesis
    proof (cases r1)
      case (Inl e)
      from dist(1) b show ?thesis
      proof (cases rule: writeBatch_rows)
        case nothing
        with run Inl show ?thesis by (intro exI [of _ 0]) simp
      next
        case all
        with run Inl show ?thesis by (intro exI [of _ n]) simp
      qed
    next
      case (Inr u)
      with b have "writeBatch (take n ms) w = (Inr u, w1)" by simp
      with dist(1) have w1: "db w1 = put_rows (map row_of (take n ms)) (db w)" by (rule writeBatch_rows) simp
      have "WriteMinutes (drop n ms) w1 = (r, w')" using run Inr by simp
      from 1(1) [OF False n_def dist(2) this] obtain k where k: "db w' = put_rows (map row_of (take k (drop n ms))) (db w1)"
        "r = Inr () \<longrightarrow> length (drop n ms) \<le> k" by blast
      have "take n ms @ take k (drop n ms) = take (n + k) ms" by (simp add: take_add)
      then have "db w' = put_rows (map row_of (take (n + k) ms)) (db w)" unfolding k(1) w1 by (metis map_append put_rows_append)
      moreover have "r = Inr () \<longrightarrow> length ms \<le> n + k" using k(2) by auto
      ultimately show ?thesis by blast
    qed
  qed
qed

section \<open>A collector and its rows\<close>

definition minute_at :: "string \<Rightarrow> window \<Rightarrow> seriesKey \<times> Stats \<Rightarrow> Minute" where
  "minute_at inst w p = \<lparr>mi_Start = from_Unix (wn_start w), mi_Instance = inst, mi_Method = fst (fst p), mi_Route = snd (fst p), mi_Stats = snd p\<rparr>"

definition row_at :: "string \<Rightarrow> window \<Rightarrow> seriesKey \<times> Stats \<Rightarrow> minute_row" where
  "row_at inst w p = row_of (minute_at inst w p)"

lemma set_window_minutes: "set (map row_of (window_minutes inst w)) = row_at inst w ` set (wn_series w)"
  by (auto simp: window_minutes_def minute_at_def row_at_def case_prod_unfold image_image)

lemma from_Unix_inj [simp]: "from_Unix a = from_Unix b \<longleftrightarrow> a = b"
  by (simp add: from_Unix_def)

lemma row_at_key: "window_ok mx w \<Longrightarrow> minute_key (row_at inst w p) = (from_Unix (wn_start w), inst, fst p)"
  by (simp add: row_at_def minute_key_def row_of_def minute_at_def window_ok_def)

lemma row_at_fields [simp]:
  "mn_instance (row_at inst w p) = inst" "mn_requests (row_at inst w p) = st_Requests (snd p)" "mn_method (row_at inst w p) = fst (fst p)"
  "mn_route (row_at inst w p) = snd (fst p)" "window_ok mx w \<Longrightarrow> mn_minute (row_at inst w p) = from_Unix (wn_start w)"
  by (simp_all add: row_at_def row_of_def minute_at_def window_ok_def)

lemma window_keys_distinct:
  assumes "window_ok mx w"
  shows "distinct (map minute_key (map row_of (window_minutes inst w)))"
proof -
  have "map (minute_key \<circ> row_at inst w) (wn_series w) = map (\<lambda>k. (from_Unix (wn_start w), inst, k)) (map fst (wn_series w))"
    by (simp add: row_at_key [OF assms])
  moreover have "distinct (map fst (wn_series w))" using assms by (simp add: window_ok_def)
  ultimately have "distinct (map (minute_key \<circ> row_at inst w) (wn_series w))" by (simp only: distinct_map) (simp add: inj_on_def)
  moreover have "window_minutes inst w = sort_key (\<lambda>m. map byte (mi_Route m @ '' '' @ mi_Method m)) (map (minute_at inst w) (wn_series w))"
    by (simp add: window_minutes_def minute_at_def [abs_def] case_prod_unfold)
  moreover have "distinct (map K (sort_key g xs)) = distinct (map K xs)" for K :: "Minute \<Rightarrow> time \<times> string \<times> string \<times> string" and g :: "Minute \<Rightarrow> nat list" and xs
    by (simp add: distinct_map)
  ultimately show ?thesis by (simp add: row_at_def [abs_def] o_def)
qed

lemma window_minutes_start: "window_ok mx w \<Longrightarrow> m \<in> set (window_minutes inst w) \<Longrightarrow> mn_minute (row_of m) = from_Unix (wn_start w)"
  using set_window_minutes [of inst w] by (metis (no_types, lifting) image_iff image_set row_at_fields(5))

lemma Minutes_rows: "set (map row_of (Minutes c)) = (\<Union>w \<in> set (held_windows c). row_at (co_instance c) w ` set (wn_series w))"
proof -
  have "set (map row_of (Minutes c)) = (\<Union>w \<in> set (held_windows c). set (map row_of (window_minutes (co_instance c) w)))"
    by (auto simp: Minutes_def)
  then show ?thesis by (simp only: set_window_minutes)
qed

lemma Minutes_keys_distinct:
  assumes "col_inv c"
  shows "distinct (map minute_key (map row_of (Minutes c)))"
proof -
  have "\<forall>w \<in> set ws. window_ok mx w \<Longrightarrow> distinct (map wn_start ws) \<Longrightarrow>
    distinct (map minute_key (map row_of (concat (map (window_minutes inst) ws))))" for mx ws inst
  proof (induction ws)
    case (Cons w ws)
    have "minute_key (row_of m) \<noteq> minute_key (row_of m')" if "m \<in> set (window_minutes inst w)" "w' \<in> set ws" "m' \<in> set (window_minutes inst w')" for m m' w'
      using that Cons.prems window_minutes_start [of mx w m inst] window_minutes_start [of mx w' m' inst]
      by (auto simp: minute_key_def)
    then show ?case using Cons window_keys_distinct [of mx w inst] by fastforce
  qed simp
  then show ?thesis using assms by (auto simp: col_inv_def Minutes_def)
qed

definition exact :: "Collector \<Rightarrow> window \<Rightarrow> obs_db \<Rightarrow> bool" where
  "exact c w d \<longleftrightarrow> (\<forall>k. stored_minute d (from_Unix (wn_start w), co_instance c, k) = map_option (\<lambda>s. row_at (co_instance c) w (k, s)) (map_of (wn_series w) k))"

definition ahead :: "Collector \<Rightarrow> obs_db \<Rightarrow> bool" where
  "ahead c d \<longleftrightarrow> (\<forall>r \<in> set (ob_minutes d). mn_instance r = co_instance c \<longrightarrow> 0 \<le> mn_requests r \<and>
     (\<exists>m. mn_minute r = from_Unix m \<and> m \<le> co_latest c) \<and>
     (\<forall>w \<in> set (held_windows c). mn_minute r = from_Unix (wn_start w) \<longrightarrow>
        (\<exists>s. map_of (wn_series w) (mn_method r, mn_route r) = Some s \<and> mn_requests r \<le> st_Requests s)))"

text \<open>Written in full, every held window is in the store as it is.\<close>

lemma put_exact:
  assumes inv: "col_inv c" and keys: "keys_distinct d" and ahead: "ahead c d" and w: "w \<in> set (held_windows c)"
  shows "exact c w (put_rows (map row_of (Minutes c)) d)"
  unfolding exact_def
proof
  fix k :: seriesKey
  let ?key = "(from_Unix (wn_start w), co_instance c, k)" and ?rs = "map row_of (Minutes c)"
  have ok: "window_ok (co_maxSeries c) v" if "v \<in> set (held_windows c)" for v using inv that by (simp add: col_inv_def)
  note dist = Minutes_keys_distinct [OF inv]
  have at: "map_of (map (\<lambda>r. (minute_key r, r)) ?rs) ?key = map_option (\<lambda>s. row_at (co_instance c) w (k, s)) (map_of (wn_series w) k)"
  proof (cases "map_of (wn_series w) k")
    case (Some s)
    then have mem: "row_at (co_instance c) w (k, s) \<in> set ?rs" unfolding Minutes_rows using w by (auto dest: map_of_SomeD)
    have key: "minute_key (row_at (co_instance c) w (k, s)) = ?key" using row_at_key [OF ok [OF w]] by simp
    show ?thesis using row_lookup [OF dist mem] Some unfolding key by simp
  next
    case None
    have "minute_key r \<noteq> ?key" if "r \<in> set ?rs" for r
    proof
      assume key: "minute_key r = ?key"
      from that obtain v p where v: "v \<in> set (held_windows c)" "p \<in> set (wn_series v)" "r = row_at (co_instance c) v p"
        unfolding Minutes_rows by blast
      then have "wn_start v = wn_start w" "fst p = k" using key row_at_key [OF ok] by auto
      then have "v = w" using inv v(1) w by (auto simp: col_inv_def dest: distinct_map_unique)
      with v(2) None \<open>fst p = k\<close> show False by (auto simp: map_of_eq_None_iff)
    qed
    then show ?thesis using None row_lookup_None [of ?rs ?key] by simp
  qed
  have "stored_minute d ?key = None" if "map_of (wn_series w) k = None"
  proof (rule ccontr)
    assume "stored_minute d ?key \<noteq> None"
    then obtain r where "r \<in> set (ob_minutes d)" "minute_key r = ?key" using stored_minute_iff [OF keys] by blast
    with ahead w that show False by (fastforce simp: ahead_def minute_key_def)
  qed
  moreover have "merged (stored_minute d ?key) (row_at (co_instance c) w (k, s)) = row_at (co_instance c) w (k, s)" if "map_of (wn_series w) k = Some s" for s
  proof (cases "stored_minute d ?key")
    case (Some r)
    then have "r \<in> set (ob_minutes d)" "minute_key r = ?key" using stored_minute_iff [OF keys] by blast+
    with ahead w that have "mn_requests r \<le> st_Requests s" by (fastforce simp: ahead_def minute_key_def)
    with Some show ?thesis by (simp add: merged_def)
  qed (simp add: merged_def)
  ultimately show "stored_minute (put_rows ?rs d) ?key = map_option (\<lambda>s. row_at (co_instance c) w (k, s)) (map_of (wn_series w) k)"
    unfolding stored_put [OF keys dist] at by (cases "map_of (wn_series w) k") simp_all
qed

end
