(* ===== verification/Collector_Balance.thy ===== *)
theory Collector_Balance
  imports Collector_Store
begin

text \<open>
  The collector and the store together: what an instance has recorded is what the store has counted, except for what the
  collector reports as lost. The locale \<open>stored_counter\<close> extends \<open>counter\<close> by the column of the table that keeps it.
\<close>

section \<open>The balance\<close>

definition row_total :: "(minute_row \<Rightarrow> int) \<Rightarrow> (minute_row \<Rightarrow> bool) \<Rightarrow> obs_db \<Rightarrow> int" where
  "row_total h p d = sum_list (map h (filter p (ob_minutes d)))"

definition starts :: "Collector \<Rightarrow> int set" where
  "starts c = wn_start ` set (held_windows c)"

text \<open>The rows of the collector's instance, and those of minutes it no longer holds.\<close>

definition own :: "Collector \<Rightarrow> minute_row \<Rightarrow> bool" where
  "own c r \<longleftrightarrow> mn_instance r = co_instance c"

definition own_unheld :: "Collector \<Rightarrow> minute_row \<Rightarrow> bool" where
  "own_unheld c r \<longleftrightarrow> own c r \<and> mn_minute r \<notin> from_Unix ` starts c"

definition own_at :: "Collector \<Rightarrow> int \<Rightarrow> minute_row \<Rightarrow> bool" where
  "own_at c m r \<longleftrightarrow> own c r \<and> mn_minute r = from_Unix m"

lemma row_total_cong: "(\<And>r. r \<in> set (ob_minutes d) \<Longrightarrow> p r = q r) \<Longrightarrow> row_total h p d = row_total h q d"
  unfolding row_total_def by (metis filter_cong)

lemma row_total_split: "row_total h p d = row_total h (\<lambda>r. p r \<and> q r) d + row_total h (\<lambda>r. p r \<and> \<not> q r) d"
proof -
  have "sum_list (map h (filter p xs)) = sum_list (map h (filter (\<lambda>r. p r \<and> q r) xs)) + sum_list (map h (filter (\<lambda>r. p r \<and> \<not> q r) xs))" for xs
    by (induction xs) auto
  then show ?thesis unfolding row_total_def .
qed

text \<open>Own rows are those of unheld minutes and those of each held one.\<close>

lemma own_total:
  assumes "distinct ms"
  shows "row_total h (\<lambda>r. own c r \<and> mn_minute r \<in> from_Unix ` set ms) d = sum_list (map (\<lambda>m. row_total h (own_at c m) d) ms)"
  using assms
proof (induction ms)
  case Nil
  show ?case by (simp add: row_total_def)
next
  case (Cons m ms)
  have "row_total h (\<lambda>r. own c r \<and> mn_minute r \<in> from_Unix ` set (m # ms)) d =
    row_total h (own_at c m) d + row_total h (\<lambda>r. own c r \<and> mn_minute r \<in> from_Unix ` set ms) d"
    using Cons.prems by (subst row_total_split [of _ _ _ "\<lambda>r. mn_minute r = from_Unix m"])
      (auto simp: own_at_def intro!: arg_cong2 [of _ _ _ _ "(+)"] row_total_cong)
  with Cons show ?case by simp
qed

locale stored_counter = counter +
  fixes h :: "minute_row \<Rightarrow> int"
  assumes row: "h (row_of m) = f (mi_Stats m)"
begin

lemma exact_total:
  assumes "keys_distinct d" "exact c w d" "window_ok mx w"
  shows "row_total h (own_at c (wn_start w)) d = window_total f w"
proof -
  let ?I = "co_instance c" and ?rows = "filter (own_at c (wn_start w)) (ob_minutes d)"
  have dist: "distinct (map fst (wn_series w))" using assms(3) by (simp add: window_ok_def)
  have "distinct ?rows" using assms(1) by (auto simp: keys_distinct_def distinct_map)
  then have "row_total h (own_at c (wn_start w)) d = sum h (set ?rows)"
    by (simp add: row_total_def sum_list_distinct_conv_sum_set)
  also have "set ?rows = row_at ?I w ` set (wn_series w)"
  proof (rule set_eqI)
    fix r
    have "r \<in> set ?rows \<longleftrightarrow> (\<exists>k. stored_minute d (from_Unix (wn_start w), ?I, k) = Some r)"
      using stored_minute_iff [OF assms(1)] by (auto simp: own_at_def own_def minute_key_def)
    also have "\<dots> \<longleftrightarrow> (\<exists>k s. map_of (wn_series w) k = Some s \<and> r = row_at ?I w (k, s))"
      using assms(2) by (auto simp: exact_def)
    also have "\<dots> \<longleftrightarrow> r \<in> row_at ?I w ` set (wn_series w)"
      using dist by (auto simp: map_of_eq_Some_iff image_iff)
    finally show "r \<in> set ?rows \<longleftrightarrow> r \<in> row_at ?I w ` set (wn_series w)" .
  qed
  also have "sum h (row_at ?I w ` set (wn_series w)) = sum (h \<circ> row_at ?I w) (set (wn_series w))"
  proof (rule sum.reindex, rule inj_onI)
    fix p q assume "p \<in> set (wn_series w)" "q \<in> set (wn_series w)" "row_at ?I w p = row_at ?I w q"
    with dist show "p = q" using row_at_key [OF assms(3), of ?I] by (metis distinct_map_unique prod.inject)
  qed
  also have "\<dots> = window_total f w"
    using dist by (simp add: window_total_def sum_list_distinct_conv_sum_set distinct_map row_at_def minute_at_def row o_def)
  finally show ?thesis .
qed

end

interpretation stored_requests: stored_counter st_Requests "\<lambda>_. 1" mn_requests
  by unfold_locales (simp add: row_of_def)

interpretation stored_server_errors: stored_counter st_ServerErrors is_server_error mn_server_errors
  by unfold_locales (simp add: row_of_def)

interpretation stored_client_errors: stored_counter st_ClientErrors is_client_error mn_client_errors
  by unfold_locales (simp add: row_of_def)

section \<open>Steps of the collector\<close>

definition grows :: "window \<Rightarrow> window \<Rightarrow> bool" where
  "grows w w' \<longleftrightarrow> wn_start w' = wn_start w \<and>
     (\<forall>k s. map_of (wn_series w) k = Some s \<longrightarrow> (\<exists>s'. map_of (wn_series w') k = Some s' \<and> st_Requests s \<le> st_Requests s'))"

lemma grows_same: "wn_start w' = wn_start w \<Longrightarrow> wn_series w' = wn_series w \<Longrightarrow> grows w w'"
  by (simp add: grows_def)

lemma grows_counted:
  assumes "window_ok mx w" shows "grows w (counted r c w)"
proof -
  have "\<exists>s'. map_of (upd_series key (count_request st d) ss) k = Some s' \<and> st_Requests s \<le> st_Requests s'"
    if "map_of ss k = Some s" for key st d ss k s
  proof (cases "key \<in> fst ` set ss")
    case True
    have "map_of (map (\<lambda>(k, s). (k, if k = key then g s else s)) ss) k = map_option (if k = key then g else (\<lambda>s. s)) (map_of ss k)" for g
      by (induction ss) auto
    with True that show ?thesis by (auto simp: upd_series_def count_request_def Let_def)
  next
    case False
    with that show ?thesis by (auto simp: upd_series_def map_add_def split: option.splits)
  qed
  then show ?thesis unfolding grows_def by (simp add: counted_def window_record_def Let_def)
qed

text \<open>The collector goes forward: its windows grow, and a new window is of a later minute.\<close>

definition advances :: "Collector \<Rightarrow> Collector \<Rightarrow> bool" where
  "advances c c' \<longleftrightarrow> co_instance c' = co_instance c \<and> co_latest c \<le> co_latest c' \<and>
     (\<forall>w' \<in> set (held_windows c'). (\<exists>w \<in> set (held_windows c). grows w w') \<or> co_latest c < wn_start w')"

lemma ahead_advances:
  assumes "ahead c d" "advances c c'" shows "ahead c' d"
  unfolding ahead_def
proof (intro ballI impI)
  fix r assume r: "r \<in> set (ob_minutes d)" "mn_instance r = co_instance c'"
  with assms have old: "0 \<le> mn_requests r" "\<exists>m. mn_minute r = from_Unix m \<and> m \<le> co_latest c"
    "\<forall>w \<in> set (held_windows c). mn_minute r = from_Unix (wn_start w) \<longrightarrow>
        (\<exists>s. map_of (wn_series w) (mn_method r, mn_route r) = Some s \<and> mn_requests r \<le> st_Requests s)"
    by (auto simp: ahead_def advances_def)
  have "\<exists>s. map_of (wn_series w') (mn_method r, mn_route r) = Some s \<and> mn_requests r \<le> st_Requests s"
    if w': "w' \<in> set (held_windows c')" "mn_minute r = from_Unix (wn_start w')" for w'
  proof -
    have "(\<exists>w \<in> set (held_windows c). grows w w') \<or> co_latest c < wn_start w'" using assms(2) w'(1) by (simp add: advances_def)
    moreover have "\<not> co_latest c < wn_start w'" using old(2) w'(2) by auto
    ultimately obtain w where w: "w \<in> set (held_windows c)" "grows w w'" by (elim disjE bexE) simp_all
    then obtain s where s: "map_of (wn_series w) (mn_method r, mn_route r) = Some s" "mn_requests r \<le> st_Requests s"
      using old(3) w'(2) by (auto simp: grows_def)
    with w(2) obtain s' where "map_of (wn_series w') (mn_method r, mn_route r) = Some s'" "st_Requests s \<le> st_Requests s'"
      unfolding grows_def by blast
    with s(2) show ?thesis by auto
  qed
  moreover have "co_latest c \<le> co_latest c'" using assms(2) by (simp add: advances_def)
  ultimately show "0 \<le> mn_requests r \<and> (\<exists>m. mn_minute r = from_Unix m \<and> m \<le> co_latest c') \<and>
     (\<forall>w \<in> set (held_windows c'). mn_minute r = from_Unix (wn_start w) \<longrightarrow>
        (\<exists>s. map_of (wn_series w) (mn_method r, mn_route r) = Some s \<and> mn_requests r \<le> st_Requests s))"
    using old(1,2) by (auto intro: order_trans)
qed

lemma advances_refl: "advances c c"
  by (auto simp: advances_def intro: grows_same)

lemma advances_closed: "advances c (closed_at now c)"
  unfolding advances_def held_closed using shut_mem [of _ now c] by (fastforce dest: in_set_dropD intro: grows_same)

lemma advances_flush_begin: "col_inv c \<Longrightarrow> advances c (flush_begin now c)"
  using advances_closed [of c now] advances_refl [of c] by (simp add: flush_begin_eq)

lemma advances_flush_end: "advances c (flush_end now ws c)"
  by (auto simp: advances_def flush_end_def held_windows_def current_list_def intro: grows_same)

lemma advances_update:
  assumes "\<forall>w \<in> set (held_windows c). window_ok mx w"
  shows "advances c (update_window start (counted r c0) c)"
  using assms unfolding advances_def held_update_window by (auto intro: grows_same grows_counted)

lemma advances_record:
  assumes "col_inv c" "after_epoch (rq_Time r)" shows "advances c (record_in r c)"
  using assms(1)
proof (cases rule: Record_cases [of c r])
  case lost
  then show ?thesis by (auto simp: advances_def held_windows_def current_list_def intro: grows_same)
next
  case (hit start)
  show ?thesis unfolding hit(3) by (rule advances_update [of _ "co_maxSeries c"]) (use assms(1) in \<open>simp add: col_inv_def\<close>)
next
  case new
  let ?m = "minute_of (rq_Time r)"
  have m: "co_latest c < ?m" using new(2) minute_of_pos [OF assms(2)] by auto
  have "(\<exists>w \<in> set (held_windows c). grows w w') \<or> co_latest c < wn_start w'" if w': "w' \<in> set (held_windows (record_in r c))" for w'
  proof -
    from w' have "w' \<in> (\<lambda>w. if wn_start w = ?m then counted r c w else w) ` (set (drop (excess c) (shut (rq_Time r) c)) \<union> {newWindow ?m})"
      unfolding new(3) held_update_window held_opened by (simp only: set_map set_append list.set)
    then obtain w where w'': "w' = (if wn_start w = ?m then counted r c w else w)"
      and w: "w \<in> set (drop (excess c) (shut (rq_Time r) c)) \<union> {newWindow ?m}" by (rule imageE)
    show ?thesis
    proof (cases "w = newWindow ?m")
      case True
      with w'' m show ?thesis by (simp add: newWindow_def)
    next
      case False
      with w have "w \<in> set (shut (rq_Time r) c)" by (auto dest: in_set_dropD)
      then obtain w0 where w0: "w0 \<in> set (held_windows c)" "wn_series w = wn_series w0" "wn_start w = wn_start w0"
        using shut_mem by metis
      then have "wn_start w \<noteq> ?m" using new(1) by (metis image_eqI)
      with w'' have "w' = w" by simp
      with w0 show ?thesis by (metis grows_same)
    qed
  qed
  with m new(3) show ?thesis by (simp add: advances_def)
qed

lemma row_total_mono:
  assumes "\<And>r. r \<in> set (ob_minutes d) \<Longrightarrow> p r \<Longrightarrow> q r" "\<And>r. r \<in> set (ob_minutes d) \<Longrightarrow> q r \<Longrightarrow> 0 \<le> h r"
  shows "row_total h p d \<le> row_total h q d"
proof -
  have "0 \<le> row_total h (\<lambda>r. q r \<and> \<not> p r) d" unfolding row_total_def using assms(2) by (intro sum_list_nonneg) auto
  moreover have "row_total h (\<lambda>r. q r \<and> p r) d = row_total h p d" using assms(1) by (intro row_total_cong) auto
  ultimately show ?thesis using row_total_split [of h q d p] by simp
qed

lemma starts_simps [simp]:
  "starts (update_window start (counted r c0) c) = starts c" "starts (closed_at now c) \<subseteq> starts c"
  "starts (opened_at m now c) = insert m (starts (closed_at now c))"
proof -
  have "map wn_start (held_windows (update_window start (counted r c0) c)) = map wn_start (held_windows c)"
    by (simp add: held_update_window)
  then show "starts (update_window start (counted r c0) c) = starts c" unfolding starts_def by (metis list.set_map)
  show "starts (closed_at now c) \<subseteq> starts c"
    unfolding starts_def held_closed using shut_mem [of _ now c] by (fastforce dest: in_set_dropD)
  show "starts (opened_at m now c) = insert m (starts (closed_at now c))"
    by (auto simp: starts_def held_opened held_closed newWindow_def)
qed

lemma closed_nothing_dropped:
  assumes "excess c = 0"
  shows "starts (closed_at now c) = starts c" "held_total f (closed_at now c) = held_total f c" "co_lost (closed_at now c) = co_lost c"
proof -
  have "map wn_start (held_windows (closed_at now c)) = map wn_start (held_windows c)" by (simp add: held_closed assms shut_starts)
  then show "starts (closed_at now c) = starts c" unfolding starts_def by (metis list.set_map)
qed (simp_all add: held_total_closed lost_closed dropped_total_def assms)

lemma sum_list_positive: "xs \<noteq> [] \<Longrightarrow> \<forall>x \<in> set xs. 0 < h x \<Longrightarrow> 0 < (sum_list (map h xs) :: int)"
  by (induction xs rule: list_nonempty_induct) auto

lemma dropped_positive:
  assumes "col_inv c" "0 < excess c"
  shows "0 < dropped_total st_Requests c"
proof -
  have pos: "0 < window_total st_Requests w" if "w \<in> set (held_windows c)" for w
  proof -
    have "wn_series w \<noteq> []" "window_ok (co_maxSeries c) w" using assms(1) that by (auto simp: col_inv_def)
    then show ?thesis unfolding window_total_def by (intro sum_list_positive) (auto simp: window_ok_def)
  qed
  have "take (excess c) (held_windows c) \<noteq> []" using assms(2) by (auto simp: excess_def)
  then show ?thesis unfolding dropped_total_def using pos by (intro sum_list_positive) (auto dest: in_set_takeD)
qed

lemma own_unheld_cong: "co_instance c' = co_instance c \<Longrightarrow> starts c' = starts c \<Longrightarrow> own_unheld c' = own_unheld c"
  by (simp add: own_unheld_def own_def fun_eq_iff)

lemma fresh_minute_rows:
  assumes "ahead c d" "co_latest c < m" "r \<in> set (ob_minutes d)" "own c r" shows "mn_minute r \<noteq> from_Unix m"
  using assms by (auto simp: ahead_def own_def)

text \<open>The rows written are of held minutes.\<close>

lemma filter_upsert: "(\<And>m. minute_key m = minute_key r \<Longrightarrow> \<not> p m) \<Longrightarrow> filter p (upsert r rows) = filter p rows"
proof -
  assume no: "\<And>m. minute_key m = minute_key r \<Longrightarrow> \<not> p m"
  have "filter p (update_where (\<lambda>m. minute_key m = minute_key r \<and> mn_requests r \<ge> mn_requests m) (\<lambda>_. r) rows) = filter p rows"
    unfolding update_where_def using no by (induction rows) auto
  then show ?thesis using no by (simp add: upsert_def)
qed

lemma filter_upserts:
  assumes "\<And>r m. r \<in> set rs \<Longrightarrow> minute_key m = minute_key r \<Longrightarrow> \<not> p m"
  shows "filter p (fold upsert rs rows) = filter p rows"
  using assms
proof (induction rs arbitrary: rows)
  case (Cons x rs)
  have "filter p (fold upsert rs (upsert x rows)) = filter p (upsert x rows)" using Cons.prems by (intro Cons.IH) auto
  also have "\<dots> = filter p rows" using Cons.prems by (intro filter_upsert) auto
  finally show ?case by simp
qed simp

lemma unheld_put:
  assumes "col_inv c" "set rs \<subseteq> set (map row_of (Minutes c))"
  shows "row_total h (own_unheld c) (put_rows rs d) = row_total h (own_unheld c) d"
proof -
  have "\<not> own_unheld c m" if "r \<in> set rs" "minute_key m = minute_key r" for r m
  proof -
    from that(1) assms(2) obtain w p where w: "w \<in> set (held_windows c)" "r = row_at (co_instance c) w p" unfolding Minutes_rows by blast
    then have "window_ok (co_maxSeries c) w" using assms(1) by (simp add: col_inv_def)
    then have "minute_key m = (from_Unix (wn_start w), co_instance c, fst p)" using that(2) w(2) row_at_key by simp
    with w(1) show ?thesis by (auto simp: own_unheld_def minute_key_def starts_def)
  qed
  then have "filter (own_unheld c) (fold upsert rs rows) = filter (own_unheld c) rows" for rows by (rule filter_upserts)
  then show ?thesis by (simp add: row_total_def put_rows_def)
qed

lemma ahead_put:
  assumes "col_inv c" "ahead c d" "set rs \<subseteq> set (map row_of (Minutes c))"
  shows "ahead c (put_rows rs d)"
proof -
  have "r \<in> set (map row_of (Minutes c)) \<or> r \<in> set rows" if "r \<in> set (fold upsert rs rows)" "set rs \<subseteq> set (map row_of (Minutes c))" for r rs rows
    using that
  proof (induction rs arbitrary: rows)
    case (Cons x rs)
    then have "r \<in> set (map row_of (Minutes c)) \<or> r \<in> set (upsert x rows)" by simp
    moreover have "set (upsert x rows) \<subseteq> insert x (set rows)" by (auto simp: upsert_def set_update_where)
    ultimately show ?case using Cons.prems(2) by auto
  qed simp
  then have mem: "r \<in> set (map row_of (Minutes c)) \<or> r \<in> set (ob_minutes d)" if "r \<in> set (ob_minutes (put_rows rs d))" for r
    using that assms(3) by (auto simp: put_rows_def)
  have "0 \<le> mn_requests r \<and> (\<exists>m. mn_minute r = from_Unix m \<and> m \<le> co_latest c) \<and>
     (\<forall>w \<in> set (held_windows c). mn_minute r = from_Unix (wn_start w) \<longrightarrow>
        (\<exists>s. map_of (wn_series w) (mn_method r, mn_route r) = Some s \<and> mn_requests r \<le> st_Requests s))" if "r \<in> set (map row_of (Minutes c))" for r
  proof -
    from that obtain w p where w: "w \<in> set (held_windows c)" "p \<in> set (wn_series w)" "r = row_at (co_instance c) w p" unfolding Minutes_rows by blast
    have ok: "window_ok (co_maxSeries c) w" "wn_start w \<le> co_latest c" using w(1) assms(1) by (auto simp: col_inv_def)
    then have "map_of (wn_series w) (fst p) = Some (snd p)" "0 \<le> st_Requests (snd p)"
      using w(2) by (auto simp: window_ok_def less_imp_le)
    moreover have "v = w" if "v \<in> set (held_windows c)" "wn_start w = wn_start v" for v
      using that w(1) assms(1) by (auto simp: col_inv_def dest: distinct_map_unique)
    ultimately show ?thesis using w(3) ok by auto
  qed
  with mem assms(2) show ?thesis unfolding ahead_def by blast
qed

section \<open>Nothing is lost unnoticed\<close>

text \<open>
  What is recorded is held, or stored for a minute no longer held, or reported as lost; with nothing lost, each counter is
  exactly what was recorded.
\<close>

definition accounted :: "(Stats \<Rightarrow> int) \<Rightarrow> (minute_row \<Rightarrow> int) \<Rightarrow> Collector \<Rightarrow> obs_db \<Rightarrow> int" where
  "accounted f h c d = held_total f c + row_total h (own_unheld c) d"

definition closed_late :: "Collector \<Rightarrow> bool" where
  "closed_late c \<longleftrightarrow> (\<forall>w \<in> set (co_pending c). wn_start w < minute_of (wn_closedAt w))"

context stored_counter
begin

lemma accounted_closed: "excess c = 0 \<Longrightarrow> accounted f h (closed_at now c) d = accounted f h c d"
  using closed_nothing_dropped [of c] own_unheld_cong [of "closed_at now c" c] by (simp add: accounted_def)

lemma accounted_opened:
  assumes "ahead c d" "co_latest c < m"
  shows "accounted f h (opened_at m now c) d = accounted f h (closed_at now c) d"
proof -
  have "row_total h (own_unheld (opened_at m now c)) d = row_total h (own_unheld (closed_at now c)) d"
    using fresh_minute_rows [OF assms] by (intro row_total_cong) (auto simp: own_unheld_def own_def)
  then show ?thesis by (simp add: accounted_def held_total_opened)
qed

lemma accounted_update:
  assumes "distinct (map wn_start (held_windows c))" "start \<in> starts c" "\<forall>w \<in> set (held_windows c). window_ok mx w"
  shows "accounted f h (update_window start (counted r c0) c) d = accounted f h c d + g (rq_Status r)"
proof -
  have "own_unheld (update_window start (counted r c0) c) = own_unheld c" by (rule own_unheld_cong) simp_all
  then show ?thesis using held_total_update [OF assms(1) _ assms(3)] assms(2) by (simp add: accounted_def starts_def)
qed

lemma accounted_put:
  "col_inv c \<Longrightarrow> set rs \<subseteq> set (map row_of (Minutes c)) \<Longrightarrow> accounted f h c (put_rows rs d) = accounted f h c d"
  by (simp add: accounted_def unheld_put)

text \<open>Forgetting windows the store has exactly keeps the account.\<close>

lemma accounted_forget:
  assumes inv: "col_inv c" and keys: "keys_distinct d"
    and ex: "\<And>w. w \<in> set (co_pending c) \<Longrightarrow> \<not> p w \<Longrightarrow> exact c w d"
  shows "accounted f h (c\<lparr>co_pending := filter p (co_pending c)\<rparr>) d = accounted f h c d"
proof -
  let ?c = "c\<lparr>co_pending := filter p (co_pending c)\<rparr>" and ?gone = "filter (\<lambda>w. \<not> p w) (co_pending c)"
  have cur: "current_list ?c = current_list c" by (simp add: current_list_def)
  have "sum_list (map (window_total f) (filter p ws)) + sum_list (map (window_total f) (filter (\<lambda>w. \<not> p w) ws)) = sum_list (map (window_total f) ws)" for ws
    by (induction ws) auto
  then have held: "held_total f ?c + sum_list (map (window_total f) ?gone) = held_total f c"
    by (simp add: held_total_def held_windows_def cur)
  have dist: "distinct (map wn_start (co_pending c @ current_list c))" using inv by (simp add: col_inv_def held_windows_def)
  then have gone: "distinct (map wn_start ?gone)" by (simp add: distinct_map_filterI)
  have disj: "wn_start ` set ?gone \<inter> starts ?c = {}" "starts c = starts ?c \<union> wn_start ` set ?gone"
    using dist distinct_map_unique [of wn_start "co_pending c"] by (auto simp: starts_def held_windows_def cur)
  have "row_total h (own_unheld ?c) d = row_total h (\<lambda>r. own_unheld ?c r \<and> mn_minute r \<in> from_Unix ` set (map wn_start ?gone)) d +
    row_total h (\<lambda>r. own_unheld ?c r \<and> mn_minute r \<notin> from_Unix ` set (map wn_start ?gone)) d"
    by (rule row_total_split)
  also have "row_total h (\<lambda>r. own_unheld ?c r \<and> mn_minute r \<notin> from_Unix ` set (map wn_start ?gone)) d = row_total h (own_unheld c) d"
    using disj(2) by (intro row_total_cong) (auto simp: own_unheld_def own_def)
  also have "row_total h (\<lambda>r. own_unheld ?c r \<and> mn_minute r \<in> from_Unix ` set (map wn_start ?gone)) d =
    row_total h (\<lambda>r. own c r \<and> mn_minute r \<in> from_Unix ` set (map wn_start ?gone)) d"
    using disj(1) by (intro row_total_cong) (auto simp: own_unheld_def own_def)
  also have "\<dots> = sum_list (map (\<lambda>m. row_total h (own_at c m) d) (map wn_start ?gone))" by (rule own_total [OF gone])
  also have "\<dots> = sum_list (map (window_total f) ?gone)"
  proof -
    have "row_total h (own_at c (wn_start w)) d = window_total f w" if "w \<in> set ?gone" for w
    proof (rule exact_total [OF keys])
      show "exact c w d" using that ex by simp
      show "window_ok (co_maxSeries c) w" using that inv by (simp add: col_inv_def held_windows_def)
    qed
    then have "map ((\<lambda>m. row_total h (own_at c m) d) \<circ> wn_start) ?gone = map (window_total f) ?gone" by (intro map_cong) simp_all
    then show ?thesis by (simp only: map_map)
  qed
  finally show ?thesis using held by (simp add: accounted_def)
qed

end

definition recorded_count :: "(int \<Rightarrow> int) \<Rightarrow> FinishedRequest list \<Rightarrow> int" where
  "recorded_count g rs = sum_list (map (g \<circ> rq_Status) rs)"

definition balanced :: "FinishedRequest list \<Rightarrow> Collector \<Rightarrow> obs_db \<Rightarrow> bool" where
  "balanced rs c d \<longleftrightarrow> recorded_count (\<lambda>_. 1) rs \<le> co_lost c + accounted st_Requests mn_requests c d \<and>
     (co_lost c = 0 \<longrightarrow> accounted st_Requests mn_requests c d = recorded_count (\<lambda>_. 1) rs \<and>
        accounted st_ServerErrors mn_server_errors c d = recorded_count is_server_error rs \<and>
        accounted st_ClientErrors mn_client_errors c d = recorded_count is_client_error rs)"

lemma balanced_closed:
  assumes inv: "col_inv c" and ahead: "ahead c d" and bal: "balanced rs c d"
  shows "balanced rs (closed_at now c) d"
proof (cases "excess c = 0")
  case True
  then show ?thesis
    using bal closed_nothing_dropped(3) [OF True] by (simp add: balanced_def stored_requests.accounted_closed
        stored_server_errors.accounted_closed stored_client_errors.accounted_closed)
next
  case False
  have "row_total mn_requests (own_unheld c) d \<le> row_total mn_requests (own_unheld (closed_at now c)) d"
  proof (rule row_total_mono)
    have "from_Unix ` starts (closed_at now c) \<subseteq> from_Unix ` starts c" using starts_simps(2) by (rule image_mono)
    then show "own_unheld (closed_at now c) r" if "own_unheld c r" for r using that by (auto simp: own_unheld_def own_def)
    show "0 \<le> mn_requests r" if "r \<in> set (ob_minutes d)" "own_unheld (closed_at now c) r" for r
      using that ahead by (auto simp: own_unheld_def own_def ahead_def)
  qed
  moreover have "0 < dropped_total st_Requests c" using dropped_positive [OF inv] False by simp
  moreover have "0 \<le> co_lost c" using inv by (simp add: col_inv_def)
  ultimately show ?thesis
    using bal unfolding balanced_def accounted_def held_total_closed lost_closed by linarith
qed

lemma balanced_update:
  assumes "balanced rs c d" "start \<in> starts c" "distinct (map wn_start (held_windows c))" "\<forall>w \<in> set (held_windows c). window_ok mx w"
  shows "balanced (rs @ [r]) (update_window start (counted r c0) c) d"
  using assms(1) stored_requests.accounted_update [OF assms(3,2,4), of r c0 d]
    stored_server_errors.accounted_update [OF assms(3,2,4), of r c0 d] stored_client_errors.accounted_update [OF assms(3,2,4), of r c0 d]
  unfolding balanced_def by (simp add: recorded_count_def)

lemma balanced_record:
  assumes inv: "col_inv c" and t: "after_epoch (rq_Time r)" and ahead: "ahead c d" and bal: "balanced rs c d"
  shows "balanced (rs @ [r]) (record_in r c) d"
  using inv
proof (cases rule: Record_cases [of c r])
  case lost
  have "accounted f h (c\<lparr>co_lost := n\<rparr>) d = accounted f h c d" for f h n
    using own_unheld_cong [of "c\<lparr>co_lost := n\<rparr>" c] by (simp add: accounted_def held_total_def starts_def held_windows_def current_list_def)
  then show ?thesis using bal inv unfolding lost(2) by (auto simp: balanced_def recorded_count_def col_inv_def)
next
  case (hit start)
  show ?thesis unfolding hit(3)
    by (rule balanced_update [OF bal]) (use hit inv in \<open>auto simp: starts_def col_inv_def\<close>)
next
  case new
  let ?m = "minute_of (rq_Time r)" and ?c = "opened_at (minute_of (rq_Time r)) (rq_Time r) c"
  have m: "co_latest c < ?m" using new(2) minute_of_pos [OF t] by auto
  have "balanced rs ?c d"
    using balanced_closed [OF inv ahead bal, of "rq_Time r"] stored_requests.accounted_opened [OF ahead m] stored_server_errors.accounted_opened [OF ahead m]
      stored_client_errors.accounted_opened [OF ahead m] by (simp add: balanced_def)
  moreover have "distinct (map wn_start (held_windows ?c))" "\<forall>w \<in> set (held_windows ?c). window_ok (co_maxSeries c) w"
  proof -
    have c: "col_inv (closed_at (rq_Time r) c)" by (rule closed_at_inv [OF inv])
    moreover have "?m \<notin> starts (closed_at (rq_Time r) c)" using new(1) starts_simps(2) [of "rq_Time r" c] by (auto simp: starts_def)
    ultimately show "distinct (map wn_start (held_windows ?c))" by (auto simp: col_inv_def held_opened held_closed starts_def newWindow_def)
    show "\<forall>w \<in> set (held_windows ?c). window_ok (co_maxSeries c) w"
      using c minute_of_pos [OF t] minute_of_truncated [of "rq_Time r"] inv
      by (auto simp: col_inv_def held_opened held_closed newWindow_def window_ok_def)
  qed
  ultimately show ?thesis unfolding new(3) by (intro balanced_update) simp_all
qed

section \<open>Flushes\<close>

definition sync :: "FinishedRequest list \<Rightarrow> Collector \<Rightarrow> obs_db \<Rightarrow> bool" where
  "sync rs c d \<longleftrightarrow> col_inv c \<and> closed_late c \<and> keys_distinct d \<and> ahead c d \<and> balanced rs c d"

lemma closed_late_closed:
  assumes "closed_late c" "\<And>cur. co_current c = Some cur \<Longrightarrow> wn_start cur < minute_of now"
  shows "closed_late (closed_at now c)"
proof -
  have "wn_start w < minute_of (wn_closedAt w)" if "w \<in> set (shut now c)" for w
    using that assms by (auto simp: shut_def closed_late_def current_list_def split: option.splits)
  then show ?thesis by (auto simp: closed_late_def closed_at_def dest: in_set_dropD)
qed

lemma closed_late_update: "closed_late c \<Longrightarrow> closed_late (update_window start (counted r c0) c)"
  by (auto simp: closed_late_def update_window_def set_update_where)

lemma sync_record:
  assumes "sync rs c d" "after_epoch (rq_Time r)"
  shows "sync (rs @ [r]) (record_in r c) d"
proof -
  have inv: "col_inv c" and late: "closed_late c" and ahead: "ahead c d" and bal: "balanced rs c d" using assms(1) by (simp_all add: sync_def)
  have "closed_late (record_in r c)"
    using inv
  proof (cases rule: Record_cases [of c r])
    case lost
    then show ?thesis using late by (simp add: closed_late_def)
  next
    case (hit start)
    then show ?thesis using late closed_late_update by simp
  next
    case new
    have m: "co_latest c < minute_of (rq_Time r)" using new(2) minute_of_pos [OF assms(2)] by auto
    have "closed_late (closed_at (rq_Time r) c)" using inv m by (intro closed_late_closed [OF late]) (auto simp: col_inv_def)
    then have "closed_late (opened_at (minute_of (rq_Time r)) (rq_Time r) c)" by (simp add: closed_late_def)
    then show ?thesis unfolding new(3) by (rule closed_late_update)
  qed
  then show ?thesis
    using assms(1) record_in_inv [OF inv assms(2)] ahead_advances [OF ahead advances_record [OF inv assms(2)]]
      balanced_record [OF inv assms(2) ahead bal] by (simp add: sync_def)
qed

lemma sync_records:
  "sync rs c d \<Longrightarrow> \<forall>r \<in> set ms. after_epoch (rq_Time r) \<Longrightarrow> sync (rs @ ms) (fold record_in ms c) d"
proof (induction ms arbitrary: rs c)
  case (Cons r ms)
  then show ?case using Cons.IH [of "rs @ [r]" "record_in r c"] sync_record [of rs c d r] by simp
qed simp

lemma sync_flush_begin:
  assumes "sync rs c d" shows "sync rs (flush_begin now c) d"
proof -
  have inv: "col_inv c" and ahead: "ahead c d" and bal: "balanced rs c d" using assms by (simp_all add: sync_def)
  have "closed_late (flush_begin now c)" "balanced rs (flush_begin now c) d"
    using assms closed_late_closed [of c now] balanced_closed [OF inv ahead bal, of now] by (auto simp: flush_begin_eq [OF inv] sync_def)
  then show ?thesis
    using assms flush_begin_inv [OF inv] ahead_advances [OF ahead advances_flush_begin [OF inv]] by (simp add: sync_def)
qed

lemma balanced_put:
  "col_inv c \<Longrightarrow> set rs' \<subseteq> set (map row_of (Minutes c)) \<Longrightarrow> balanced rs c d \<Longrightarrow> balanced rs c (put_rows rs' d)"
  by (simp add: balanced_def stored_requests.accounted_put stored_server_errors.accounted_put stored_client_errors.accounted_put)

lemma sync_put: "sync rs c d \<Longrightarrow> set rs' \<subseteq> set (map row_of (Minutes c)) \<Longrightarrow> sync rs c (put_rows rs' d)"
  by (auto simp: sync_def put_rows_distinct ahead_put balanced_put)

text \<open>While the sink writes, requests that finish no earlier leave the windows of earlier minutes alone.\<close>

lemma minute_of_mono: "s \<le> t \<Longrightarrow> minute_of s \<le> minute_of t"
  by (simp add: minute_of_eq zdiv_mono1)

lemma record_keeps_old:
  assumes "col_inv c" "w \<in> set (held_windows (record_in r c))" "wn_start w < minute_of (rq_Time r)"
  shows "\<exists>w0 \<in> set (held_windows c). wn_start w0 = wn_start w \<and> wn_series w0 = wn_series w"
  using assms(1)
proof (cases rule: Record_cases [of c r])
  case lost
  then show ?thesis using assms(2) by (auto simp: held_windows_def current_list_def)
next
  case (hit start)
  then show ?thesis using assms(2,3) unfolding hit(3) held_update_window by (auto split: if_splits)
next
  case new
  then have "w \<in> set (shut (rq_Time r) c)"
    using assms(2,3) unfolding new(3) held_update_window held_opened by (auto simp: newWindow_def split: if_splits dest: in_set_dropD)
  then show ?thesis using shut_mem by metis
qed

lemma records_keep_old:
  assumes "col_inv c" "\<forall>r \<in> set ms. after_epoch (rq_Time r) \<and> now \<le> rq_Time r"
    "w \<in> set (held_windows (fold record_in ms c))" "wn_start w < minute_of now"
  shows "\<exists>w0 \<in> set (held_windows c). wn_start w0 = wn_start w \<and> wn_series w0 = wn_series w"
  using assms
proof (induction ms arbitrary: c)
  case (Cons r ms)
  have r: "after_epoch (rq_Time r)" "minute_of now \<le> minute_of (rq_Time r)" using Cons.prems(2) by (simp_all add: minute_of_mono)
  obtain w1 where w1: "w1 \<in> set (held_windows (record_in r c))" "wn_start w1 = wn_start w" "wn_series w1 = wn_series w"
    using Cons.IH [OF record_in_inv [OF Cons.prems(1) r(1)]] Cons.prems(2-4) by auto
  with record_keeps_old [OF Cons.prems(1) w1(1)] r(2) Cons.prems(4) show ?case by auto
qed auto

lemma exact_cong:
  "exact c w0 d \<Longrightarrow> wn_start w0 = wn_start w \<Longrightarrow> wn_series w0 = wn_series w \<Longrightarrow> co_instance c' = co_instance c \<Longrightarrow> exact c' w d"
  by (simp add: exact_def row_at_def minute_at_def)

lemma instance_records: "co_instance (fold record_in ms c) = co_instance c"
proof -
  have "co_instance (record_in r c) = co_instance c" for r c
  proof -
    have cl: "co_instance (closeLocked w now c) = co_instance c" for w now c by (simp add: closeLocked_def split: prod.splits)
    show ?thesis
      by (auto simp: record_in_def Record_def Let_def windowFor_def cl update_window_def split: option.splits prod.splits if_splits)
  qed
  then show ?thesis by (induction ms arbitrary: c) auto
qed

text \<open>What a flush writes, whatever faults happen.\<close>

lemma flush_writes:
  assumes inv: "col_inv c" and run: "Flush (Some store_sink) now ms (c0, w) = (err, c', w')" and c: "c = flush_begin now c0"
  shows "\<exists>n. db w' = put_rows (map row_of (take n (Minutes c))) (db w) \<and> (err = None \<longrightarrow> length (Minutes c) \<le> n)"
    "c' = (if err = None then flush_end now (held_windows c) (fold record_in ms c) else fold record_in ms c)"
proof -
  have rec: "(\<lambda>r c. fst (Record r c)) = record_in" by (simp add: record_in_def fun_eq_iff)
  show "c' = (if err = None then flush_end now (held_windows c) (fold record_in ms c) else fold record_in ms c)"
    using run unfolding Flush_def rec by (auto simp: c Let_def split: prod.splits)
  have sink: "(err, w') = (if Minutes c \<noteq> [] then store_sink (Minutes c) w else (None, w))"
    using run unfolding Flush_def by (auto simp: c Let_def split: prod.splits if_splits)
  show "\<exists>n. db w' = put_rows (map row_of (take n (Minutes c))) (db w) \<and> (err = None \<longrightarrow> length (Minutes c) \<le> n)"
  proof (cases "Minutes c = []")
    case True
    with sink show ?thesis by auto
  next
    case False
    obtain r w1 where wm: "WriteMinutes (Minutes c) w = (r, w1)" by fastforce
    with sink False have w1: "w1 = w'" "err = None \<longrightarrow> r = Inr ()" by (auto simp: store_sink_def split: sum.splits)
    from WriteMinutes_rows [OF Minutes_keys_distinct [OF inv] wm] w1 show ?thesis by auto
  qed
qed

lemma balanced_forget:
  assumes "col_inv c" "keys_distinct d" "\<And>w. w \<in> set (co_pending c) \<Longrightarrow> \<not> p w \<Longrightarrow> exact c w d" "balanced rs c d"
  shows "balanced rs (c\<lparr>co_pending := filter p (co_pending c)\<rparr>) d"
  using assms(4) stored_requests.accounted_forget [OF assms(1,2,3)] stored_server_errors.accounted_forget [OF assms(1,2,3)]
    stored_client_errors.accounted_forget [OF assms(1,2,3)] by (simp add: balanced_def)

lemma flush_end_balanced:
  assumes "col_inv c" "keys_distinct d" "balanced rs c d"
    "\<And>w. w \<in> set (co_pending c) \<Longrightarrow> wn_start w \<in> wn_start ` set ws \<Longrightarrow> wn_closedAt w \<le> now - closeGrace \<Longrightarrow> exact c w d"
  shows "balanced rs (flush_end now ws c) d"
  unfolding flush_end_def by (rule balanced_forget [OF assms(1,2) _ assms(3)]) (use assms(4) in simp)

lemma Flush_sync:
  assumes sync: "sync rs c (db w)" and ms: "\<forall>r \<in> set ms. after_epoch (rq_Time r) \<and> now \<le> rq_Time r"
    and run: "Flush (Some store_sink) now ms (c, w) = (err, c', w')"
  shows "sync (rs @ ms) c' (db w')"
proof -
  let ?c = "flush_begin now c" and ?c2 = "fold record_in ms (flush_begin now c)"
  note s1 = sync_flush_begin [OF sync, of now]
  then have inv: "col_inv ?c" by (simp add: sync_def)
  from flush_writes(1) [OF inv run refl] obtain n where
    n: "db w' = put_rows (map row_of (take n (Minutes ?c))) (db w)" "err = None \<longrightarrow> length (Minutes ?c) \<le> n" by blast
  have "set (map row_of (take n (Minutes ?c))) \<subseteq> set (map row_of (Minutes ?c))" by (auto dest: in_set_takeD)
  from sync_put [OF s1 this] have "sync rs ?c (db w')" unfolding n(1) .
  then have s2: "sync (rs @ ms) ?c2 (db w')" using ms by (intro sync_records) auto
  show ?thesis
  proof (cases "err = None")
    case False
    then show ?thesis using s2 flush_writes(2) [OF inv run refl] by auto
  next
    case True
    have ex: "exact ?c v (db w')" if "v \<in> set (held_windows ?c)" for v
      using put_exact [OF inv _ _ that, of "db w"] s1 n True by (simp add: sync_def)
    have "exact ?c2 v (db w')" if v: "v \<in> set (co_pending ?c2)" "wn_closedAt v \<le> now - closeGrace" for v
    proof -
      have "wn_start v < minute_of (wn_closedAt v)" using s2 v(1) by (simp add: sync_def closed_late_def)
      also have "\<dots> \<le> minute_of now" using v(2) by (intro minute_of_mono) (simp add: closeGrace_def)
      finally obtain v0 where "v0 \<in> set (held_windows ?c)" "wn_start v0 = wn_start v" "wn_series v0 = wn_series v"
        using records_keep_old [OF inv ms, of v] v(1) by (auto simp: held_windows_def)
      then show ?thesis using exact_cong [OF ex] instance_records by simp
    qed
    then have "balanced (rs @ ms) (flush_end now (held_windows ?c) ?c2) (db w')"
      using s2 by (intro flush_end_balanced) (auto simp: sync_def)
    moreover have "closed_late (flush_end now (held_windows ?c) ?c2)" using s2 by (auto simp: sync_def closed_late_def flush_end_def)
    ultimately show ?thesis
      using True s2 flush_writes(2) [OF inv run refl] flush_end_inv ahead_advances [OF _ advances_flush_end] by (auto simp: sync_def)
  qed
qed

context stored_counter
begin

lemma all_exact_total:
  assumes "col_inv c" "keys_distinct d" "\<And>w. w \<in> set (held_windows c) \<Longrightarrow> exact c w d"
  shows "row_total h (own c) d = accounted f h c d"
proof -
  let ?ms = "map wn_start (held_windows c)"
  have "row_total h (own c) d = row_total h (\<lambda>r. own c r \<and> mn_minute r \<in> from_Unix ` set ?ms) d + row_total h (own_unheld c) d"
    using row_total_split [of h "own c" d "\<lambda>r. mn_minute r \<in> from_Unix ` set ?ms"] by (simp add: own_unheld_def [abs_def] starts_def)
  also have "row_total h (\<lambda>r. own c r \<and> mn_minute r \<in> from_Unix ` set ?ms) d = sum_list (map (\<lambda>m. row_total h (own_at c m) d) ?ms)"
    using assms(1) by (intro own_total) (simp add: col_inv_def)
  also have "\<dots> = held_total f c"
  proof -
    have "row_total h (own_at c (wn_start w)) d = window_total f w" if "w \<in> set (held_windows c)" for w
      using that assms(1) by (intro exact_total [OF assms(2) assms(3)]) (auto simp: col_inv_def)
    then have "map ((\<lambda>m. row_total h (own_at c m) d) \<circ> wn_start) (held_windows c) = map (window_total f) (held_windows c)" by (intro map_cong) simp_all
    then show ?thesis by (simp only: map_map held_total_def)
  qed
  finally show ?thesis by (simp add: accounted_def)
qed

end

text \<open>A flush that succeeds while no request finishes leaves everything held in the store.\<close>

lemma Flush_quiet:
  assumes "col_inv c" "keys_distinct (db w)" "ahead c (db w)" "balanced rs c (db w)"
    and run: "Flush (Some store_sink) now [] (c, w) = (None, c', w')"
  shows "balanced rs c' (db w') \<and> col_inv c' \<and> keys_distinct (db w') \<and> (\<forall>v \<in> set (held_windows c'). exact c' v (db w'))"
proof -
  let ?c = "flush_begin now c"
  have inv: "col_inv ?c" and ahead: "ahead ?c (db w)" and bal: "balanced rs ?c (db w)"
    using assms flush_begin_inv ahead_advances advances_flush_begin balanced_closed by (auto simp: flush_begin_eq)
  from flush_writes(1) [OF inv run refl] have w': "db w' = put_rows (map row_of (Minutes ?c)) (db w)" by auto
  have ex: "exact ?c v (db w')" if "v \<in> set (held_windows ?c)" for v
    unfolding w' by (rule put_exact [OF inv assms(2) ahead that])
  have c': "c' = flush_end now (held_windows ?c) ?c" using flush_writes(2) [OF inv run refl] by simp
  have keys: "keys_distinct (db w')" unfolding w' by (rule put_rows_distinct [OF assms(2)])
  have "balanced rs ?c (db w')" unfolding w' by (rule balanced_put [OF inv _ bal]) simp
  then have "balanced rs c' (db w')" unfolding c' using ex by (intro flush_end_balanced [OF inv keys]) (auto simp: held_windows_def)
  moreover have "exact c' v (db w')" if "v \<in> set (held_windows c')" for v
  proof -
    have "v \<in> set (held_windows ?c)" "co_instance c' = co_instance ?c" using that unfolding c' by (auto simp: flush_end_def held_windows_def current_list_def)
    then show ?thesis using exact_cong [OF ex] by blast
  qed
  ultimately show ?thesis using keys flush_end_inv [OF inv] unfolding c' by simp
qed

end
