(* ===== verification/Collector_Run.thy ===== *)
theory Collector_Run
  imports Collector_Balance
begin

text \<open>
  A collector from its start to its stop, with the store as its sink: what the store has counted at the end, and what the
  collector holds on the way.
\<close>

section \<open>Runs\<close>

fun requests_of :: "col_event \<Rightarrow> FinishedRequest list" where
  "requests_of (Finished r) = [r]"
| "requests_of (Tick now meanwhile) = meanwhile"

text \<open>Clocks read times after 1970, and a request that finishes during a flush finishes no earlier than the flush began.\<close>

fun timely :: "col_event \<Rightarrow> bool" where
  "timely (Finished r) = after_epoch (rq_Time r)"
| "timely (Tick now meanwhile) = (\<forall>r \<in> set meanwhile. after_epoch (rq_Time r) \<and> now \<le> rq_Time r)"

definition no_rows :: "string \<Rightarrow> obs_db \<Rightarrow> bool" where
  "no_rows inst d \<longleftrightarrow> (\<forall>r \<in> set (ob_minutes d). mn_instance r \<noteq> inst)"

lemma sync_start:
  assumes "NewCollector random inst fi mx mp = Inr c" "no_rows (co_instance c) d" "keys_distinct d"
  shows "sync [] c d"
proof -
  have c: "held_windows c = []" "co_pending c = []" "co_lost c = 0" "col_inv c"
    using assms(1) by (auto simp: NewCollector_def Let_def held_windows_def current_list_def col_inv_def split: if_splits)
  have "row_total h (own_unheld c) d = 0" for h
    using assms(2) by (auto simp: row_total_def own_unheld_def own_def no_rows_def intro!: sum_list_0 cong: map_cong filter_cong)
  then have "balanced [] c d" using c by (simp add: balanced_def accounted_def held_total_def recorded_count_def)
  then show ?thesis using c assms by (auto simp: sync_def closed_late_def ahead_def no_rows_def)
qed

lemma sync_event:
  assumes "sync rs c (db w)" "timely e" "run_event (Some store_sink) e (c, w) = (c', w')"
  shows "sync (rs @ requests_of e) c' (db w')"
proof (cases e)
  case (Finished r)
  then show ?thesis using assms sync_record [of rs c "db w" r] by (auto simp: record_in_def)
next
  case (Tick now ms)
  obtain err c1 w1 where run: "Flush (Some store_sink) now ms (c, w) = (err, c1, w1)" by (metis prod.collapse)
  with Tick assms(3) have "c1 = c'" "w1 = w'" by simp_all
  with Flush_sync [OF assms(1) _ run] Tick assms(2) show ?thesis by simp
qed

lemma sync_events:
  "sync rs c (db w) \<Longrightarrow> \<forall>e \<in> set es. timely e \<Longrightarrow> fold (run_event (Some store_sink)) es (c, w) = (c', w') \<Longrightarrow>
   sync (rs @ concat (map requests_of es)) c' (db w')"
proof (induction es arbitrary: rs c w)
  case (Cons e es)
  obtain c1 w1 where e: "run_event (Some store_sink) e (c, w) = (c1, w1)" by fastforce
  from sync_event [OF Cons.prems(1) _ e] have "sync (rs @ requests_of e) c1 (db w1)" using Cons.prems(2) by simp
  from Cons.IH [OF this] show ?case using Cons.prems(2,3) e by simp
qed simp


lemma records_inv: "col_inv c \<Longrightarrow> \<forall>r \<in> set ms. after_epoch (rq_Time r) \<Longrightarrow> col_inv (fold record_in ms c)"
  by (induction ms arbitrary: c) (auto intro: record_in_inv)

lemma run_event_inv:
  assumes "col_inv c" "timely e" "run_event sink e (c, s) = (c', s')" shows "col_inv c'"
proof (cases e)
  case (Finished r)
  then show ?thesis using assms record_in_inv [of c r] by (auto simp: record_in_def)
next
  case (Tick now ms)
  have "col_inv (fold record_in ms (flush_begin now c))"
    using assms(2) Tick by (intro records_inv [OF flush_begin_inv [OF assms(1)]]) simp
  then show ?thesis
    using assms(3) Tick flush_end_inv
    by (auto simp: Flush_def Let_def record_in_def [abs_def] split: prod.splits option.splits if_splits)
qed

lemma run_events_inv:
  "col_inv c \<Longrightarrow> \<forall>e \<in> set es. timely e \<Longrightarrow> fold (run_event sink) es (c, s) = (c', s') \<Longrightarrow> col_inv c'"
proof (induction es arbitrary: c s)
  case (Cons e es)
  obtain c1 s1 where e: "run_event sink e (c, s) = (c1, s1)" by fastforce
  with Cons run_event_inv [OF Cons.prems(1) _ e] show ?case by simp
qed simp

text \<open>
  C32: Whatever is recorded and whatever the sink does, a collector holds at most \<open>maxPending\<close> closed minutes and the current
  one, no two of the same minute, each with at most \<open>maxSeries\<close> series and one more, the overflow series; in every series
  the buckets add up to the requests and the errors are no more than them.
\<close>

theorem collector_bounded:
  assumes "NewCollector random inst fi mx mp = Inr c" "\<forall>e \<in> set es. timely e" "fold (run_event sink) es (c, s) = (c', s')"
  shows "int (length (co_pending c')) \<le> co_maxPending c' \<and> distinct (map wn_start (held_windows c')) \<and>
    (\<forall>w \<in> set (held_windows c'). int (length (wn_series w)) \<le> co_maxSeries c' + 1 \<and>
       (\<forall>(k, s) \<in> set (wn_series w). stats_ok s))"
proof -
  have "col_inv c"
    using assms(1) by (auto simp: NewCollector_def Let_def held_windows_def current_list_def col_inv_def split: if_splits)
  then have "col_inv c'" using assms(2,3) by (rule run_events_inv)
  then show ?thesis by (fastforce simp: col_inv_def window_ok_def)
qed

text \<open>
  The binary search finds the documented bucket: bucket \<open>i\<close> counts the requests that took at most bound \<open>i\<close> and longer
  than bound \<open>i - 1\<close>, and the last one those slower than every bound.
\<close>

theorem bucketOf_documented:
  "bucketOf d = i \<longleftrightarrow> i \<le> length bucketBounds \<and> (i = 0 \<or> bucketBounds ! (i - 1) < d) \<and> (i = length bucketBounds \<or> d \<le> bucketBounds ! i)"
proof
  assume "bucketOf d = i"
  then have "i \<le> length bucketBounds" "\<forall>n<i. bucketBounds ! n < d" "\<forall>n\<ge>i. n < length bucketBounds \<longrightarrow> d \<le> bucketBounds ! n"
    using bucketOf_spec [of d] by auto
  moreover from this have "i = 0 \<or> i - 1 < i" "i = length bucketBounds \<or> i < length bucketBounds" by auto
  ultimately show "i \<le> length bucketBounds \<and> (i = 0 \<or> bucketBounds ! (i - 1) < d) \<and> (i = length bucketBounds \<or> d \<le> bucketBounds ! i)"
    by blast
next
  assume i: "i \<le> length bucketBounds \<and> (i = 0 \<or> bucketBounds ! (i - 1) < d) \<and> (i = length bucketBounds \<or> d \<le> bucketBounds ! i)"
  note spec = bucketOf_spec [of d]
  have "\<not> bucketOf d < i"
  proof
    assume lt: "bucketOf d < i"
    then have "bucketOf d \<le> i - 1" "i - 1 < length bucketBounds" using i by auto
    then have "d \<le> bucketBounds ! (i - 1)" using spec by blast
    with i lt show False by auto
  qed
  moreover have "\<not> i < bucketOf d"
  proof
    assume "i < bucketOf d"
    then have "bucketBounds ! i < d" "i < length bucketBounds" using spec by auto
    with i show False by auto
  qed
  ultimately show "bucketOf d = i" by simp
qed

section \<open>Witnesses\<close>

definition request_at :: "time \<Rightarrow> string \<Rightarrow> int \<Rightarrow> FinishedRequest" where
  "request_at t route status = \<lparr>rq_Time = t, rq_Method = ''GET'', rq_Route = route, rq_Status = status, rq_Duration = millisecond,
     rq_Path = [], rq_RequestID = [], rq_TraceID = []\<rparr>"

definition small_collector :: Collector where
  "small_collector = \<lparr>co_instance = ''a'', co_flushInterval = second, co_maxSeries = 1, co_maxPending = 2, co_current = None,
     co_pending = [], co_latest = 0, co_lost = 0, co_subscribers = [], co_nextSubscriber = 0\<rparr>"

definition t0 :: time where "t0 = epoch + hour"

text \<open>Three requests on two routes, two of them while the sink writes, the first write failing.\<close>

definition busy_minute :: "col_event list" where
  "busy_minute = [Finished (request_at t0 ''/a'' 200), Tick t0 [request_at t0 ''/b'' 503, request_at (t0 + minute) ''/a'' 404],
     Tick (t0 + minute) []]"

definition failing_once :: "(obs_db, unit) world" where
  "failing_once = \<lparr>db = obs_empty, faults = [Fails], others = [], ext = ()\<rparr>"

lemma small_collector_new: "NewCollector [] ''a'' second 1 2 = Inr small_collector"
  by code_simp

lemma busy_timely: "\<forall>e \<in> set busy_minute. timely e"
  by code_simp


text \<open>With \<open>maxSeries\<close> 1 a minute can hold two series.\<close>

theorem collector_bounded_witness:
  "\<exists>c'. fst (fold (run_event (None :: (unit, unit) sink option)) [Finished (request_at t0 ''/a'' 200), Finished (request_at t0 ''/b'' 200)] (small_collector, ())) = c' \<and>
     map (length \<circ> wn_series) (held_windows c') = [2] \<and> int (length (co_pending c')) \<le> co_maxPending c'"
proof -
  let ?es = "[Finished (request_at t0 ''/a'' 200), Finished (request_at t0 ''/b'' 200)]"
  let ?run = "fold (run_event (None :: (unit, unit) sink option)) ?es (small_collector, ())"
  have two: "map (length \<circ> wn_series) (held_windows (fst ?run)) = [2]" by code_simp
  have "\<forall>e \<in> set ?es. timely e" by code_simp
  from collector_bounded [where sink = "None :: (unit, unit) sink option" and s = "()", OF small_collector_new this prod.collapse [symmetric]]
  have bound: "int (length (co_pending (fst ?run))) \<le> co_maxPending (fst ?run)" by (rule conjunct1)
  show ?thesis by (rule exI [of _ "fst ?run"], intro conjI refl two bound)
qed

end
