(* ===== verification/Incidents_Pages.thy ===== *)
theory Incidents_Pages
  imports Incidents_Props
begin

text \<open>Listing incidents page by page: following the cursors lists every matching incident once, most recent first.\<close>

section \<open>Cursors\<close>

lemma digits_val_append: "digits_val acc (xs @ ys) = (case digits_val acc xs of None \<Rightarrow> None | Some a \<Rightarrow> digits_val a ys)"
  by (induction xs arbitrary: acc) (auto split: option.splits)

lemma digit_val_digit: "d < 10 \<Longrightarrow> digit_val (char_of (48 + d)) = Some (int d)"
  by (simp add: digit_val_def of_char_of)

lemma digits_val_digits: "digits_val acc (digits_of n) = Some (acc * 10 ^ length (digits_of n) + int n)"
proof (induction n arbitrary: acc rule: digits_of.induct)
  case (1 n)
  show ?case
  proof (cases "n < 10")
    case True
    then show ?thesis by (simp add: digits_of.simps [of n] digit_val_digit)
  next
    case False
    have "int n = int (n div 10) * 10 + int (n mod 10)" by (metis div_mult_mod_eq of_nat_add of_nat_mult of_nat_numeral)
    then show ?thesis
      using False 1 [of acc] by (simp add: digits_of.simps [of n] digits_val_append digit_val_digit algebra_simps)
  qed
qed

lemma digits_of_digits: "c \<in> set (digits_of n) \<Longrightarrow> 48 \<le> byte c \<and> byte c \<le> 57"
proof (induction n rule: digits_of.induct)
  case (1 n)
  have "n mod 10 < 10" by simp
  with 1 show ?case by (auto simp: digits_of.simps [of n] of_char_of split: if_splits)
qed

lemma digits_of_not_Nil [simp]: "digits_of n \<noteq> []"
  by (simp add: digits_of.simps)

lemma Atoi_FormatInt:
  assumes "0 \<le> n" "in_int64 n" shows "Atoi (FormatInt n) = Some n"
proof -
  obtain c r where ds: "digits_of (nat n) = c # r" by (cases "digits_of (nat n)") simp_all
  have "48 \<le> byte c" using digits_of_digits [of c "nat n"] ds by simp
  then have "c \<noteq> CHR ''-''" "c \<noteq> CHR ''+''" by auto
  moreover have "digits_val 0 (c # r) = Some n" using digits_val_digits [of 0 "nat n"] ds assms(1) by simp
  ultimately show ?thesis using ds assms by (simp add: FormatInt_def Atoi_def)
qed

section \<open>Pages\<close>

lemma select_page_filter:
  "select_page f before d = filter (\<lambda>i. case before of None \<Rightarrow> True | Some k \<Rightarrow> ic_ID i < k) (select_page f None d)"
  by (simp add: select_page_def rev_filter [symmetric] filter_sort filter_filter)

lemma select_page_decreasing:
  assumes "distinct (map ic_ID (ob_incidents d))"
  shows "sorted_wrt (\<lambda>i j. ic_ID j < ic_ID i) (select_page f before d)"
proof -
  let ?xs = "filter (\<lambda>i. matches f i \<and> (case before of None \<Rightarrow> True | Some k \<Rightarrow> ic_ID i < k)) (ob_incidents d)"
  have "distinct (map ic_ID (sort_key ic_ID ?xs))" using assms by (simp add: distinct_map)  (auto simp: inj_on_def distinct_map)
  then have "sorted_wrt (<) (map ic_ID (sort_key ic_ID ?xs))" by (simp add: strict_sorted_iff)
  then show ?thesis by (simp add: select_page_def sorted_wrt_rev sorted_wrt_map)
qed

text \<open>The rows below the last of a page are the rest.\<close>

lemma rest_of_page:
  assumes "sorted_wrt (\<lambda>i j. ic_ID j < ic_ID i) L" "0 < l" "l < length L"
  shows "filter (\<lambda>i. ic_ID i < ic_ID (L ! (l - 1))) L = drop l L"
proof -
  have "\<not> ic_ID i < ic_ID (L ! (l - 1))" if "i \<in> set (take l L)" for i
  proof -
    obtain n where n: "i = L ! n" "n < l" using \<open>i \<in> set (take l L)\<close> assms(3) by (auto simp: in_set_conv_nth)
    show ?thesis
    proof (cases "n = l - 1")
      case False
      with n assms(2,3) have "ic_ID (L ! (l - 1)) < ic_ID (L ! n)" using sorted_wrt_nth_less [OF assms(1), of n "l - 1"] by simp
      with n show ?thesis by simp
    qed (use n in simp)
  qed
  moreover have "ic_ID i < ic_ID (L ! (l - 1))" if "i \<in> set (drop l L)" for i
  proof -
    obtain m where "m < length L - l" "i = L ! (l + m)" using \<open>i \<in> set (drop l L)\<close> by (auto simp: in_set_conv_nth)
    then obtain n where "i = L ! n" "l \<le> n" "n < length L" by (metis le_add1 less_diff_conv2 add.commute less_diff_conv)
    then show ?thesis using sorted_wrt_nth_less [OF assms(1), of "l - 1" n] assms(2) by simp
  qed
  ultimately have "filter (\<lambda>i. ic_ID i < ic_ID (L ! (l - 1))) (take l L) = []" "filter (\<lambda>i. ic_ID i < ic_ID (L ! (l - 1))) (drop l L) = drop l L"
    by (simp_all add: filter_empty_conv filter_id_conv)
  then show ?thesis by (metis append_Nil append_take_drop_id filter_append)
qed

text \<open>The pages a client gets that follows the cursors.\<close>

fun all_pages :: "nat \<Rightarrow> IncidentFilter \<Rightarrow> (obs_db, unit) world \<Rightarrow> Incident list option" where
  "all_pages 0 f w = None"
| "all_pages (Suc n) f w =
     (case fst (Incidents f w) of
        Inl e \<Rightarrow> None
      | Inr p \<Rightarrow>
          if ip_NextCursor p = [] then Some (ip_Incidents p)
          else map_option ((@) (ip_Incidents p)) (all_pages n (f\<lparr>if_Cursor := ip_NextCursor p\<rparr>) w))"

definition ids_ok :: "obs_db \<Rightarrow> bool" where
  "ids_ok d \<longleftrightarrow> distinct (map ic_ID (ob_incidents d)) \<and> (\<forall>i \<in> set (ob_incidents d). 1 \<le> ic_ID i \<and> in_int64 (ic_ID i))"

lemma Incidents_page:
  assumes "faults w = []" "validateFilter f = None" "read_cursor (if_Cursor f) w = (Inr before, w)"
  defines "rows \<equiv> select_page f before (db w)" and "l \<equiv> page_limit (if_Limit f)"
  shows "fst (Incidents f w) = Inr (if l < length rows then \<lparr>ip_Incidents = take l rows, ip_NextCursor = FormatInt (ic_ID (rows ! (l - 1)))\<rparr>
    else \<lparr>ip_Incidents = rows, ip_NextCursor = []\<rparr>)"
proof -
  have l: "0 < l" by (simp add: l_def page_limit_def)
  then show ?thesis
    using assms(1-3) by (auto simp: Incidents_def bindC_def retC_def query_works Let_def rows_def l_def min_def nth_append)
qed

lemma select_page_cursor: "select_page (f\<lparr>if_Cursor := s\<rparr>) = select_page f" "validateFilter (f\<lparr>if_Cursor := s\<rparr>) = validateFilter f"
  by (simp_all add: select_page_def matches_def validateFilter_def fun_eq_iff)

lemma all_pages_from:
  assumes "faults w = []" "ids_ok (db w)" "validateFilter f = None" "read_cursor (if_Cursor f) w = (Inr before, w)"
    "length (select_page f before (db w)) < n"
  shows "all_pages n f w = Some (select_page f before (db w))"
  using assms(3-5)
proof (induction n arbitrary: f before)
  case (Suc n)
  define rows where "rows = select_page f before (db w)"
  define l where "l = page_limit (if_Limit f)"
  have l: "0 < l" by (simp add: l_def page_limit_def)
  note page = Incidents_page [OF assms(1) Suc.prems(1,2), folded rows_def l_def]
  show ?case
  proof (cases "l < length rows")
    case False
    with page show ?thesis by (simp add: rows_def)
  next
    case True
    let ?k = "ic_ID (rows ! (l - 1))" and ?f = "f\<lparr>if_Cursor := FormatInt (ic_ID (rows ! (l - 1)))\<rparr>"
    have "rows ! (l - 1) \<in> set rows" using True by simp
    then have k: "1 \<le> ?k" "in_int64 ?k" using assms(2) by (auto simp: rows_def select_page_def ids_ok_def)
    have "FormatInt ?k \<noteq> []" using k(1) by (simp add: FormatInt_def)
    then have cur: "read_cursor (if_Cursor ?f) w = (Inr (Some ?k), w)" using Atoi_FormatInt [of ?k] k by (simp add: read_cursor_def retC_def)
    have rest: "select_page ?f (Some ?k) (db w) = drop l rows"
    proof -
      have "select_page f (Some ?k) (db w) = filter (\<lambda>i. ic_ID i < ?k) rows"
      proof (cases before)
        case (Some b)
        have "?k < b" using \<open>rows ! (l - 1) \<in> set rows\<close> Some by (auto simp: rows_def select_page_def)
        then show ?thesis unfolding rows_def Some select_page_filter [of f "Some _"] by (auto simp: filter_filter intro: filter_cong)
      qed (simp add: rows_def select_page_filter [of f "Some _"])
      also have "\<dots> = drop l rows"
        using assms(2) by (intro rest_of_page [OF _ l True]) (simp add: rows_def select_page_decreasing ids_ok_def)
      finally show ?thesis by (simp add: select_page_cursor)
    qed
    have "all_pages n ?f w = Some (drop l rows)"
      using Suc.IH [of ?f "Some ?k"] Suc.prems cur rest l True by (simp add: select_page_cursor rows_def)
    with page True \<open>FormatInt ?k \<noteq> []\<close> show ?thesis by (simp add: rows_def)
  qed
qed simp

text \<open>Incidents are numbered from 1.\<close>

lemma ids_positive:
  assumes "inc_step\<^sup>*\<^sup>* obs_empty d" shows "\<forall>i \<in> set (ob_incidents d). 1 \<le> ic_ID i"
proof -
  have "1 \<le> ob_nextIncident d' \<and> (\<forall>i \<in> set (ob_incidents d'). 1 \<le> ic_ID i)"
    if "incident_move d d'" "1 \<le> ob_nextIncident d \<and> (\<forall>i \<in> set (ob_incidents d). 1 \<le> ic_ID i)" for d d'
    using that(1)
  proof cases
    case (changed i i' u)
    with that(2) find_incident_D [OF changed(2)] show ?thesis
      by (auto simp: obs_simps set_update_where same_incident_def split: if_splits)
  next
    case (unnoted i i' r t)
    with that(2) find_incident_D [OF unnoted(2)] show ?thesis by (auto simp: obs_simps set_update_where)
  qed (use that(2) in \<open>auto simp: obs_simps\<close>)
  note move = this
  have "1 \<le> ob_nextIncident d \<and> (\<forall>i \<in> set (ob_incidents d). 1 \<le> ic_ID i)"
    using assms
  proof (induction rule: rtranclp_induct)
    case (step d1 d2)
    from inc_step_cases [OF step(2) inc_steps_inv [OF step(1) obs_inv_empty]] show ?case
      using move [OF _ step(3)] step(3) by auto
  qed (simp add: obs_empty_def)
  then show ?thesis by blast
qed

text \<open>
  C31: Following the cursors of \<open>Incidents\<close> ends, and gives every incident that matches the filter exactly once, most
  recently opened first, whatever the page size.
\<close>

theorem incident_pages_complete:
  assumes "inc_step\<^sup>*\<^sup>* obs_empty (db w)" "faults w = []" "in_int64 (ob_nextIncident (db w))"
    and "validateFilter f = None" "if_Cursor f = []" "length (ob_incidents (db w)) < n"
  shows "\<exists>page. all_pages n f w = Some page \<and> set page = {i \<in> set (ob_incidents (db w)). matches f i} \<and>
    sorted_wrt (\<lambda>i j. ic_ID j < ic_ID i) page"
proof -
  note inv = inc_steps_inv [OF assms(1) obs_inv_empty]
  have "ids_ok (db w)"
  proof -
    have "\<forall>i \<in> set (ob_incidents (db w)). 1 \<le> ic_ID i" using assms(1) by (rule ids_positive)
    with inv assms(3) show ?thesis by (force simp: ids_ok_def obs_inv_def in_int64_def)
  qed
  moreover have "length (select_page f None (db w)) < n"
    using assms(6) le_less_trans [OF length_filter_le] by (simp add: select_page_def)
  ultimately have "all_pages n f w = Some (select_page f None (db w))"
    using assms(2,4,5) by (intro all_pages_from) (auto simp: read_cursor_def retC_def)
  moreover have "set (select_page f None (db w)) = {i \<in> set (ob_incidents (db w)). matches f i}" by (simp add: select_page_def)
  ultimately show ?thesis using select_page_decreasing [of "db w" f None] inv by (simp add: obs_inv_def)
qed

definition everything :: IncidentFilter where
  "everything = \<lparr>if_Open = False, if_Status = [], if_Severity = [], if_Source = [], if_StartedFrom = 0, if_StartedTo = 0, if_Limit = 1, if_Cursor = []\<rparr>"

theorem incident_pages_complete_witness:
  "\<exists>page. all_pages 2 everything (alone detected) = Some page \<and> set page = {i \<in> set (ob_incidents detected). matches everything i}"
proof -
  have "in_int64 (ob_nextIncident detected)" "length (ob_incidents detected) < 2" by code_simp+
  with incident_pages_complete [of "alone detected" everything 2] detected_reached show ?thesis
    by (auto simp: everything_def validateFilter_def)
qed

end
