(* ===== verification/Go_Codec.thy ===== *)
theory Go_Codec
  imports Page
begin

text \<open>
  More of the standard library that several packages call: \<open>strings.Fields\<close>, \<open>encoding/hex\<close>, the padded base64 of
  \<open>base64.StdEncoding\<close>, and HTTP headers.
\<close>

section \<open>strings.Fields\<close>

text \<open>
  The words between runs of white space. A character of more than one byte starts with a byte no other character
  contains, so that looking for the encodings of white space byte by byte finds what decoding runes does.
\<close>

function fields_from :: "string \<Rightarrow> string \<Rightarrow> string list" where
  "fields_from word [] = (if word = [] then [] else [word])"
| "fields_from word (c # s) =
     (case leading_space (c # s) of
        None \<Rightarrow> fields_from (word @ [c]) s
      | Some w \<Rightarrow> (if word = [] then [] else [word]) @ fields_from [] (drop (length w) (c # s)))"
  by pat_completeness auto
termination by (relation "measure (length \<circ> snd)") (auto dest: leading_space_shorter)

definition Fields :: "string \<Rightarrow> string list" where
  "Fields s = fields_from [] s"

text \<open>Texts in printable ASCII, where the only white space is the blank.\<close>

definition plain_byte :: "char \<Rightarrow> bool" where
  "plain_byte c \<longleftrightarrow> 32 < byte c \<and> byte c < 127"

definition plain_word :: "string \<Rightarrow> bool" where
  "plain_word s \<longleftrightarrow> s \<noteq> [] \<and> list_all plain_byte s"

lemma leading_space_plain: "plain_byte c \<Longrightarrow> leading_space (c # s) = None"
  unfolding leading_space_def find_None_iff plain_byte_def
proof (clarify)
  fix w
  assume c: "32 < byte c" "byte c < 127" and w: "w \<in> set space_seqs" "has_prefix (c # s) w"
  then have "w \<noteq> []" "hd w = c" using space_seqs_nonempty has_prefix_hd by force+
  with c space_seqs_ends [OF w(1)] show False by auto
qed

lemma leading_space_blank: "leading_space (CHR '' '' # s) = Some '' ''"
proof -
  have "take 6 space_seqs = [[CHR 0x09], [CHR 0x0A], [CHR 0x0B], [CHR 0x0C], [CHR 0x0D], '' '']" by code_simp
  then have "List.find (has_prefix (CHR '' '' # s)) (take 6 space_seqs @ drop 6 space_seqs) = Some '' ''"
    by (simp add: has_prefix_def)
  then show ?thesis by (simp add: leading_space_def)
qed

lemma fields_from_plain: "list_all plain_byte w \<Longrightarrow> fields_from acc (w @ s) = fields_from (acc @ w) s"
  by (induction w arbitrary: acc) (auto simp: leading_space_plain)

text \<open>Words joined by single blanks are found again.\<close>

fun blank_join :: "string list \<Rightarrow> string" where
  "blank_join [] = []"
| "blank_join [w] = w"
| "blank_join (w # ws) = w @ '' '' @ blank_join ws"

lemma Fields_blank_join: "list_all plain_word ws \<Longrightarrow> Fields (blank_join ws) = ws"
proof (induction ws rule: blank_join.induct)
  case (2 w)
  then show ?case using fields_from_plain [of w "[]" "[]"] by (auto simp: Fields_def plain_word_def)
next
  case (3 w v ws)
  then show ?case by (auto simp: Fields_def fields_from_plain plain_word_def leading_space_blank)
qed (simp add: Fields_def)

section \<open>encoding/hex\<close>

definition hex_digit :: "char \<Rightarrow> nat option" where
  "hex_digit c =
     (let b = byte c in
      if 48 \<le> b \<and> b \<le> 57 then Some (b - 48)
      else if 97 \<le> b \<and> b \<le> 102 then Some (b - 87)
      else if 65 \<le> b \<and> b \<le> 70 then Some (b - 55) else None)"

fun hex_DecodeString :: "string \<Rightarrow> string option" where
  "hex_DecodeString [] = Some []"
| "hex_DecodeString [c] = None"
| "hex_DecodeString (a # b # s) =
     (case (hex_digit a, hex_digit b) of
        (Some x, Some y) \<Rightarrow> map_option (Cons (char_of (16 * x + y))) (hex_DecodeString s)
      | _ \<Rightarrow> None)"

definition hex_char :: "nat \<Rightarrow> char" where
  "hex_char n = char_of (if n < 10 then n + 48 else n + 87)"

definition hex_EncodeToString :: "string \<Rightarrow> string" where
  "hex_EncodeToString s = concat (map (\<lambda>c. [hex_char (byte c div 16), hex_char (byte c mod 16)]) s)"

lemma hex_digit_char: "n < 16 \<Longrightarrow> hex_digit (hex_char n) = Some n" "n < 16 \<Longrightarrow> plain_byte (hex_char n)"
  by (auto simp: hex_digit_def hex_char_def Let_def plain_byte_def)

lemma hex_roundtrip: "hex_DecodeString (hex_EncodeToString s) = Some s"
proof (induction s)
  case (Cons c s)
  have "byte c div 16 < 16" "byte c mod 16 < 16" by (auto simp: less_mult_imp_div_less)
  with Cons show ?case by (simp add: hex_EncodeToString_def hex_digit_char)
qed (simp add: hex_EncodeToString_def)

section \<open>base64.StdEncoding\<close>

definition std_char :: "nat \<Rightarrow> char" where
  "std_char n = (if n = 62 then CHR ''+'' else if n = 63 then CHR ''/'' else url_char n)"

definition std_digit :: "char \<Rightarrow> nat option" where
  "std_digit c = (if c = CHR ''+'' then Some 62 else if c = CHR ''/'' then Some 63
     else if c = CHR ''-'' \<or> c = CHR ''_'' then None else url_digit c)"

text \<open>How many padding characters a last group of so many sextets needs.\<close>

definition padding :: "nat \<Rightarrow> string" where
  "padding n = replicate ((4 - n mod 4) mod 4) (CHR ''='')"

definition std_EncodeToString :: "string \<Rightarrow> string" where
  "std_EncodeToString s = (let ns = sextets (map byte s) in map std_char ns @ padding (length ns))"

text \<open>New lines are skipped, also between padding characters; nothing may follow the padding.\<close>

definition std_DecodeString :: "string \<Rightarrow> string option" where
  "std_DecodeString s =
     (let t = filter (\<lambda>c. byte c \<noteq> 10 \<and> byte c \<noteq> 13) s;
          body = takeWhile (\<lambda>c. c \<noteq> CHR ''='') t in
      if drop (length body) t \<noteq> padding (length body) then None
      else case all_some (map std_digit body) of
        None \<Rightarrow> None
      | Some ns \<Rightarrow> map_option (map char_of) (octets ns))"

lemma std_digit_char: "n < 64 \<Longrightarrow> std_digit (std_char n) = Some n \<and> plain_byte (std_char n) \<and> std_char n \<noteq> CHR ''=''"
proof -
  have "list_all (\<lambda>n. std_digit (std_char n) = Some n \<and> plain_byte (std_char n) \<and> std_char n \<noteq> CHR ''='') [0..<64]" by code_simp
  then show "n < 64 \<Longrightarrow> ?thesis" by (simp add: list_all_iff)
qed

lemma std_EncodeToString_plain: "list_all plain_byte (std_EncodeToString s)"
  using sextets_bound [of "map byte s"] std_digit_char
  by (auto simp: std_EncodeToString_def Let_def list_all_iff padding_def plain_byte_def)

lemma std_roundtrip: "std_DecodeString (std_EncodeToString s) = Some s"
proof -
  have byte: "\<forall>x \<in> set (map byte s). x < 256" by auto
  let ?ns = "sextets (map byte s)"
  have d: "std_digit (std_char n) = Some n" "std_char n \<noteq> CHR ''=''" if "n \<in> set ?ns" for n
    using sextets_bound [OF byte that] std_digit_char by blast+
  have "filter (\<lambda>c. byte c \<noteq> 10 \<and> byte c \<noteq> 13) (std_EncodeToString s) = std_EncodeToString s"
    using std_EncodeToString_plain [of s] by (auto simp: filter_id_conv list_all_iff plain_byte_def)
  moreover have "takeWhile (\<lambda>c. c \<noteq> CHR ''='') (std_EncodeToString s) = map std_char ?ns"
    using d(2) by (simp add: std_EncodeToString_def Let_def padding_def takeWhile_append)
  moreover have "drop (length (map std_char ?ns)) (std_EncodeToString s) = padding (length ?ns)"
    by (simp add: std_EncodeToString_def Let_def)
  moreover have "all_some (map std_digit (map std_char ?ns)) = Some ?ns"
    using all_some_map [of ?ns "std_digit \<circ> std_char" id] d(1) by simp
  ultimately show ?thesis using octets_sextets [OF byte] by (simp add: std_DecodeString_def comp_def)
qed

section \<open>HTTP headers\<close>

text \<open>A header maps canonical names to their values.\<close>

type_synonym header = "string \<Rightarrow> string list"

definition Header_Values :: "header \<Rightarrow> string \<Rightarrow> string list" where
  "Header_Values h k = h (CanonicalHeaderKey k)"

definition Header_Get :: "header \<Rightarrow> string \<Rightarrow> string" where
  "Header_Get h k = (case Header_Values h k of [] \<Rightarrow> [] | v # _ \<Rightarrow> v)"

end
