(* ===== verification/Webhook.thy ===== *)
theory Webhook
  imports Go_Codec
begin

text \<open>
  Signed webhook requests (\<open>webhook/webhook.go\<close>) and the guard that verifies them before a route's input is parsed
  (\<open>gorbital/guard/webhook.go\<close>). HMAC-SHA256 is a parameter.
\<close>

section \<open>Verifiers\<close>

definition DefaultTolerance :: duration where "DefaultTolerance = 5 * minute"
definition MinSecretBytes :: nat where "MinSecretBytes = 16"
definition MaxIDLength :: nat where "MaxIDLength = 255"

definition Base64 :: int where "Base64 = 0"
definition Hex :: int where "Hex = 1"

datatype webhook_error = ErrInvalidSignature | ErrTimestamp

datatype config_error = NoSecret | NoSignatureHeader | UnknownEncoding int | NegativeTolerance | ShortSecret nat
  | EmptySecret | BadSecret | SecretError nat config_error

text \<open>\<open>Signed\<close> is what the function writes, for an ID, a timestamp and a body.\<close>

record HMACConfig =
  hc_Secrets :: "string list"
  hc_SignatureHeader :: string
  hc_SignaturePrefix :: string
  hc_Encoding :: int
  hc_IDHeader :: string
  hc_TimestampHeader :: string
  hc_Tolerance :: duration
  hc_Signed :: "(string \<Rightarrow> string \<Rightarrow> string \<Rightarrow> string) option"

definition signedContent :: "string \<Rightarrow> string \<Rightarrow> string \<Rightarrow> string" where
  "signedContent sid timestamp body = concat (map (\<lambda>part. if part \<noteq> [] then part @ ''.'' else []) [sid, timestamp]) @ body"

fun short_secret :: "nat \<Rightarrow> string list \<Rightarrow> nat option" where
  "short_secret i [] = None"
| "short_secret i (s # ss) = (if length s < MinSecretBytes then Some (i + 1) else short_secret (i + 1) ss)"

record HMAC =
  hm_cfg :: HMACConfig

definition NewHMAC :: "HMACConfig \<Rightarrow> config_error + HMAC" where
  "NewHMAC cfg =
     (if hc_Secrets cfg = [] then Inl NoSecret
      else if hc_SignatureHeader cfg = [] then Inl NoSignatureHeader
      else if hc_Encoding cfg \<noteq> Base64 \<and> hc_Encoding cfg \<noteq> Hex then Inl (UnknownEncoding (hc_Encoding cfg))
      else if hc_Tolerance cfg < 0 then Inl NegativeTolerance
      else case short_secret 0 (hc_Secrets cfg) of
        Some i \<Rightarrow> Inl (ShortSecret i)
      | None \<Rightarrow>
          let cfg = (if hc_Tolerance cfg = 0 then cfg\<lparr>hc_Tolerance := DefaultTolerance\<rparr> else cfg);
              cfg = (if hc_Signed cfg = None then cfg\<lparr>hc_Signed := Some signedContent\<rparr> else cfg) in
          Inr \<lparr>hm_cfg = cfg\<rparr>)"

definition decode_signature :: "HMACConfig \<Rightarrow> string \<Rightarrow> string option" where
  "decode_signature c s = (if hc_Encoding c = Hex then hex_DecodeString s else std_DecodeString s)"

text \<open>The signatures in a header: the entries with the prefix that decode, in order.\<close>

definition signature_entries :: "HMACConfig \<Rightarrow> string \<Rightarrow> string list" where
  "signature_entries c signatures =
     concat (map (\<lambda>entry. case cut_prefix entry (hc_SignaturePrefix c) of
         None \<Rightarrow> []
       | Some encoded \<Rightarrow> (case decode_signature c encoded of None \<Rightarrow> [] | Some sig \<Rightarrow> [sig])) (Fields signatures))"

definition bad_id :: "string \<Rightarrow> bool" where
  "bad_id sid \<longleftrightarrow> sid = [] \<or> length sid > MaxIDLength \<or> list_ex (\<lambda>c. byte c \<in> {46, 32, 9, 13, 10}) sid"

definition check_timestamp :: "HMACConfig \<Rightarrow> time \<Rightarrow> string \<Rightarrow> webhook_error option" where
  "check_timestamp c now timestamp =
     (case Atoi timestamp of
        None \<Rightarrow> Some ErrInvalidSignature
      | Some seconds \<Rightarrow>
          if seconds \<le> 0 then Some ErrInvalidSignature
          else if from_Unix seconds < now - hc_Tolerance c \<or> from_Unix seconds > now + hc_Tolerance c then Some ErrTimestamp
          else None)"

definition Verify :: "(string \<Rightarrow> string \<Rightarrow> string) \<Rightarrow> HMAC \<Rightarrow> time \<Rightarrow> header \<Rightarrow> string \<Rightarrow> webhook_error option" where
  "Verify hmac v now h body =
     (let c = hm_cfg v;
          sid = (if hc_IDHeader c \<noteq> [] then Header_Get h (hc_IDHeader c) else []);
          signatures = Header_Get h (hc_SignatureHeader c);
          timestamp = (if hc_TimestampHeader c \<noteq> [] then Header_Get h (hc_TimestampHeader c) else []) in
      if hc_IDHeader c \<noteq> [] \<and> bad_id sid then Some ErrInvalidSignature
      else if signatures = [] then Some ErrInvalidSignature
      else case (if hc_TimestampHeader c \<noteq> [] then check_timestamp c now timestamp else None) of
        Some e \<Rightarrow> Some e
      | None \<Rightarrow>
          let expected = map (\<lambda>secret. hmac secret (the (hc_Signed c) sid timestamp body)) (hc_Secrets c) in
          if list_ex (\<lambda>sig. list_ex (\<lambda>e. sig = e) expected) (signature_entries c signatures) then None
          else Some ErrInvalidSignature)"

section \<open>Standard Webhooks\<close>

record StandardConfig =
  sc_Secrets :: "string list"
  sc_HeaderPrefix :: string
  sc_Tolerance :: duration

definition StandardSecretPrefix :: string where "StandardSecretPrefix = ''whsec_''"

definition DecodeStandardSecret :: "string \<Rightarrow> config_error + string" where
  "DecodeStandardSecret secret =
     (let encoded = (case cut_prefix secret StandardSecretPrefix of None \<Rightarrow> secret | Some r \<Rightarrow> r) in
      if encoded = [] then Inl EmptySecret
      else case std_DecodeString encoded of
        None \<Rightarrow> Inl BadSecret
      | Some key \<Rightarrow> if length key < MinSecretBytes then Inl BadSecret else Inr key)"

fun standard_keys :: "bool \<Rightarrow> nat \<Rightarrow> string list \<Rightarrow> config_error + string list" where
  "standard_keys several i [] = Inr []"
| "standard_keys several i (s # ss) =
     (case DecodeStandardSecret s of
        Inl err \<Rightarrow> Inl (if several then SecretError (i + 1) err else err)
      | Inr key \<Rightarrow> map_sum id (Cons key) (standard_keys several (i + 1) ss))"

definition NewStandard :: "StandardConfig \<Rightarrow> config_error + HMAC" where
  "NewStandard cfg =
     (if sc_Secrets cfg = [] then Inl NoSecret
      else case standard_keys (length (sc_Secrets cfg) > 1) 0 (sc_Secrets cfg) of
        Inl err \<Rightarrow> Inl err
      | Inr keys \<Rightarrow>
          let prefix = (if sc_HeaderPrefix cfg = [] then ''webhook-'' else sc_HeaderPrefix cfg) in
          NewHMAC \<lparr>hc_Secrets = keys, hc_SignatureHeader = prefix @ ''signature'', hc_SignaturePrefix = ''v1,'', hc_Encoding = Base64,
            hc_IDHeader = prefix @ ''id'', hc_TimestampHeader = prefix @ ''timestamp'', hc_Tolerance = sc_Tolerance cfg, hc_Signed = None\<rparr>)"

section \<open>The guard\<close>

text \<open>
  A request body as the server reads it: its bytes, then its end or an error. \<open>io.ReadAll\<close> of an \<open>io.LimitReader\<close> never
  reaches the error when the limit comes first.
\<close>

datatype read_error = MaxBytesError | ReadError

type_synonym body = "string \<times> read_error option"

definition read_limited :: "int \<Rightarrow> body \<Rightarrow> string \<times> read_error option" where
  "read_limited limit b = (if int (length (fst b)) \<ge> limit then (take (nat limit) (fst b), None) else b)"

datatype 'e refusal = RequestTooLarge | UnreadableBody | InvalidWebhookSignature | OtherError 'e

text \<open>A verifier's error wraps \<open>ErrInvalidSignature\<close> or is one of its own.\<close>

type_synonym 'e verifier = "header \<Rightarrow> string \<Rightarrow> (webhook_error + 'e) option"

definition DefaultWebhookBodyLimit :: int where "DefaultWebhookBodyLimit = 2 ^ 20"

text \<open>The check refuses the request or gives the handler the body it reads.\<close>

definition webhook_check :: "'e verifier \<Rightarrow> int \<Rightarrow> header \<Rightarrow> int \<Rightarrow> body \<Rightarrow> 'e refusal + string" where
  "webhook_check v limit h contentLength b =
     (if contentLength > limit then Inl RequestTooLarge
      else case read_limited (limit + 1) b of
        (body, Some MaxBytesError) \<Rightarrow> Inl RequestTooLarge
      | (body, Some ReadError) \<Rightarrow> Inl UnreadableBody
      | (body, None) \<Rightarrow>
          if int (length body) > limit then Inl RequestTooLarge
          else case v h body of
            None \<Rightarrow> Inr body
          | Some (Inl _) \<Rightarrow> Inl InvalidWebhookSignature
          | Some (Inr e) \<Rightarrow> Inl (OtherError e))"

definition Webhook_guard_err :: "'e verifier option \<Rightarrow> int \<Rightarrow> bool" where
  "Webhook_guard_err v limit \<longleftrightarrow> v = None \<or> limit < 1"

definition hmac_verifier :: "(string \<Rightarrow> string \<Rightarrow> string) \<Rightarrow> HMAC \<Rightarrow> time \<Rightarrow> 'e verifier" where
  "hmac_verifier hmac v now h body = map_option Inl (Verify hmac v now h body)"

end
