(* ===== verification/Webhook_Props.thy ===== *)
theory Webhook_Props
  imports Webhook
begin

text \<open>
  What verification means. The guard relies on its verifier through the locale \<open>webhook_verifier\<close>; for HMAC signatures the
  law is that some secret and some entry of the header agree on the signed content, which tells the ID, the timestamp and
  the body apart.
\<close>

section \<open>The interface of a verifier\<close>

locale webhook_verifier =
  fixes verify :: "'e verifier" and authentic :: "header \<Rightarrow> string \<Rightarrow> bool"
  assumes accepts: "verify h body = None \<longleftrightarrow> authentic h body"
begin

lemma check_passes:
  assumes "webhook_check verify limit h n b = Inr body"
  shows "b = (body, None) \<and> int (length body) \<le> limit \<and> authentic h body"
proof -
  have "n \<le> limit" using assms by (auto simp: webhook_check_def split: if_splits)
  moreover obtain r where r: "read_limited (limit + 1) b = (body, None)" "verify h body = None" "int (length body) \<le> limit"
    using assms by (auto simp: webhook_check_def split: if_splits prod.splits option.splits read_error.splits sum.splits)
  ultimately show ?thesis using accepts by (auto simp: read_limited_def split: if_splits)
qed

lemma check_lets_through:
  assumes "authentic h body" "int (length body) \<le> limit" "n \<le> limit"
  shows "webhook_check verify limit h n (body, None) = Inr body"
proof -
  have "verify h body = None" using assms(1) accepts by blast
  with assms(2,3) show ?thesis by (simp add: webhook_check_def read_limited_def)
qed

end

text \<open>What an accepted request has: well-formed headers, a fresh timestamp and a signature of its content.\<close>

definition request_id :: "HMAC \<Rightarrow> header \<Rightarrow> string" where
  "request_id v h = (if hc_IDHeader (hm_cfg v) \<noteq> [] then Header_Get h (hc_IDHeader (hm_cfg v)) else [])"

definition request_timestamp :: "HMAC \<Rightarrow> header \<Rightarrow> string" where
  "request_timestamp v h = (if hc_TimestampHeader (hm_cfg v) \<noteq> [] then Header_Get h (hc_TimestampHeader (hm_cfg v)) else [])"

definition signatures :: "HMAC \<Rightarrow> header \<Rightarrow> string set" where
  "signatures v h = set (signature_entries (hm_cfg v) (Header_Get h (hc_SignatureHeader (hm_cfg v))))"

definition fresh :: "HMAC \<Rightarrow> time \<Rightarrow> string \<Rightarrow> bool" where
  "fresh v now t \<longleftrightarrow> (\<exists>s. Atoi t = Some s \<and> 0 < s \<and> \<bar>from_Unix s - now\<bar> \<le> hc_Tolerance (hm_cfg v))"

definition signed_by :: "(string \<Rightarrow> string \<Rightarrow> string) \<Rightarrow> HMAC \<Rightarrow> time \<Rightarrow> header \<Rightarrow> string \<Rightarrow> bool" where
  "signed_by hmac v now h body \<longleftrightarrow>
     (hc_IDHeader (hm_cfg v) \<noteq> [] \<longrightarrow> \<not> bad_id (request_id v h)) \<and>
     (hc_TimestampHeader (hm_cfg v) \<noteq> [] \<longrightarrow> fresh v now (request_timestamp v h)) \<and>
     (\<exists>k \<in> set (hc_Secrets (hm_cfg v)). hmac k (the (hc_Signed (hm_cfg v)) (request_id v h) (request_timestamp v h) body) \<in> signatures v h)"

lemma check_timestamp_None: "check_timestamp (hm_cfg v) now t = None \<longleftrightarrow> fresh v now t"
  by (auto simp: check_timestamp_def fresh_def split: option.splits)

lemma Fields_Nil [simp]: "Fields [] = []"
  by (simp add: Fields_def)

lemma Verify_iff: "Verify hmac v now h body = None \<longleftrightarrow> signed_by hmac v now h body"
proof (cases "Header_Get h (hc_SignatureHeader (hm_cfg v)) = []")
  case True
  then show ?thesis by (auto simp: Verify_def signed_by_def Let_def signatures_def signature_entries_def)
next
  case False
  then show ?thesis
    by (auto simp: Verify_def signed_by_def Let_def signatures_def list_ex_iff request_id_def request_timestamp_def
        check_timestamp_None [symmetric] split: option.splits if_splits)
qed

interpretation hmac_signatures: webhook_verifier "hmac_verifier hmac v now" "signed_by hmac v now" for hmac v now
  by unfold_locales (simp add: hmac_verifier_def Verify_iff)

section \<open>The signed content\<close>

text \<open>Neither the ID nor a timestamp has a dot, so that the content has one reading.\<close>

lemma digits_val_chars: "digits_val acc s = Some n \<Longrightarrow> c \<in> set s \<Longrightarrow> 48 \<le> byte c \<and> byte c \<le> 57"
  by (induction s arbitrary: acc) (auto simp: digit_val_def split: option.splits if_splits)

lemma Atoi_chars:
  assumes "Atoi s = Some n" "c \<in> set s" shows "byte c \<in> {43, 45} \<or> 48 \<le> byte c \<and> byte c \<le> 57"
proof (cases s)
  case (Cons a r)
  then have "digits_val 0 r \<noteq> None \<and> a \<in> {CHR ''-'', CHR ''+''} \<or> digits_val 0 s \<noteq> None"
    using assms(1) by (auto simp: Atoi_def Let_def split: if_splits option.splits)
  with Cons assms(2) digits_val_chars show ?thesis by fastforce
qed (use assms(2) in simp)

lemma Atoi_no_dot: "Atoi s = Some n \<Longrightarrow> CHR ''.'' \<notin> set s"
  using Atoi_chars [of s n "CHR ''.''"] by auto

lemma bad_id_dot: "\<not> bad_id s \<Longrightarrow> s \<noteq> [] \<and> CHR ''.'' \<notin> set s"
  by (auto simp: bad_id_def list_ex_iff)

lemma before_first: "x \<notin> set a \<Longrightarrow> x \<notin> set b \<Longrightarrow> a @ x # r = b @ x # s \<longleftrightarrow> a = b \<and> r = s"
  by (induction a arbitrary: b; case_tac b; auto)

section \<open>Standard Webhooks\<close>

lemma short_secret_None: "short_secret i ss = None \<longleftrightarrow> (\<forall>s \<in> set ss. MinSecretBytes \<le> length s)"
  by (induction ss arbitrary: i) auto

lemma NewStandard_cfg:
  assumes "NewStandard cfg = Inr v"
  defines "p \<equiv> if sc_HeaderPrefix cfg = [] then ''webhook-'' else sc_HeaderPrefix cfg"
  shows "hc_SignatureHeader (hm_cfg v) = p @ ''signature''" "hc_SignaturePrefix (hm_cfg v) = ''v1,''" "hc_Encoding (hm_cfg v) = Base64"
    "hc_IDHeader (hm_cfg v) = p @ ''id''" "hc_TimestampHeader (hm_cfg v) = p @ ''timestamp''" "hc_Signed (hm_cfg v) = Some signedContent"
    "0 < hc_Tolerance (hm_cfg v)"
  using assms by (auto simp: NewStandard_def NewHMAC_def Let_def DefaultTolerance_def split: if_splits sum.splits option.splits)

lemma standard_names:
  assumes "NewStandard cfg = Inr v"
  shows "hc_IDHeader (hm_cfg v) \<noteq> []" "hc_TimestampHeader (hm_cfg v) \<noteq> []"
  using NewStandard_cfg(4,5) [OF assms] by simp_all

lemma signedContent_full: "i \<noteq> [] \<Longrightarrow> t \<noteq> [] \<Longrightarrow> signedContent i t b = i @ CHR ''.'' # t @ CHR ''.'' # b"
  by (simp add: signedContent_def)

text \<open>
  C34: A request that the guard lets through to a route is one its sender signed. Suppose whoever has none of the secrets can
  only present signatures of deliveries that were sent (the delivery's ID and timestamp have no dot). Then the request's
  ID, its timestamp and exactly the bytes the handler reads are those of one of these deliveries; the timestamp is within
  the tolerance of the receiver's clock, and the body within the limit.
\<close>

theorem webhook_authentic:
  assumes "NewStandard cfg = Inr v" "webhook_check (hmac_verifier hmac v now) limit h n b = Inr body"
    and unforgeable: "\<And>k content. k \<in> set (hc_Secrets (hm_cfg v)) \<Longrightarrow> hmac k content \<in> signatures v h \<Longrightarrow>
      \<exists>i t m. (i, t, m) \<in> sent \<and> content = i @ ''.'' @ t @ ''.'' @ m"
    and dots: "\<And>i t m. (i, t, m) \<in> sent \<Longrightarrow> CHR ''.'' \<notin> set i \<and> CHR ''.'' \<notin> set t"
  shows "(request_id v h, request_timestamp v h, body) \<in> sent \<and> fresh v now (request_timestamp v h) \<and>
    b = (body, None) \<and> int (length body) \<le> limit"
proof -
  note ok = hmac_signatures.check_passes [OF assms(2)] and names = standard_names [OF assms(1)]
  let ?i = "request_id v h" and ?t = "request_timestamp v h"
  from ok names have s: "\<not> bad_id ?i" "fresh v now ?t" by (simp_all add: signed_by_def)
  then have nd: "?i \<noteq> []" "CHR ''.'' \<notin> set ?i" "?t \<noteq> []" "CHR ''.'' \<notin> set ?t"
    using bad_id_dot Atoi_no_dot by (auto simp: fresh_def Atoi_def)
  obtain k where k: "k \<in> set (hc_Secrets (hm_cfg v))" "hmac k (signedContent ?i ?t body) \<in> signatures v h"
    using ok NewStandard_cfg(6) [OF assms(1)] by (auto simp: signed_by_def)
  from unforgeable [OF this] obtain i t m where d: "(i, t, m) \<in> sent" "signedContent ?i ?t body = i @ ''.'' @ t @ ''.'' @ m" by blast
  then have "?i = i \<and> ?t = t \<and> body = m"
    using nd dots [OF d(1)] by (simp add: signedContent_full before_first)
  with d(1) s(2) ok show ?thesis by simp
qed

text \<open>
  C35: A delivery signed with one of the secrets is accepted while its timestamp is within the tolerance, wherever its entry
  stands in the signature header; so during a rotation the deliveries of either secret pass.
\<close>

theorem webhook_accepts:
  assumes "NewStandard cfg = Inr v" "k \<in> set (hc_Secrets (hm_cfg v))" "\<not> bad_id i" "fresh v now t"
    and "Header_Get h (hc_IDHeader (hm_cfg v)) = i" "Header_Get h (hc_TimestampHeader (hm_cfg v)) = t"
    and "Header_Get h (hc_SignatureHeader (hm_cfg v)) =
      blank_join (before @ [''v1,'' @ std_EncodeToString (hmac k (i @ ''.'' @ t @ ''.'' @ body))] @ after)"
    and "list_all plain_word before" "list_all plain_word after" "int (length body) \<le> limit"
  shows "webhook_check (hmac_verifier hmac v now) limit h (int (length body)) (body, None) = Inr body"
proof (rule hmac_signatures.check_lets_through)
  note cfg = NewStandard_cfg [OF assms(1)] and names = standard_names [OF assms(1)]
  let ?content = "i @ ''.'' @ t @ ''.'' @ body"
  let ?entry = "''v1,'' @ std_EncodeToString (hmac k ?content)"
  have "list_all plain_byte ?entry" using std_EncodeToString_plain by (simp add: plain_byte_def)
  then have "Fields (Header_Get h (hc_SignatureHeader (hm_cfg v))) = before @ [?entry] @ after"
    unfolding assms(7) using assms(8,9) by (intro Fields_blank_join) (simp add: plain_word_def)
  then have "hmac k ?content \<in> signatures v h"
    using cfg(2,3) std_roundtrip
    by (simp add: signatures_def signature_entries_def decode_signature_def Base64_def Hex_def cut_prefix_append [of "''v1,''", simplified])
  moreover have "i \<noteq> []" "t \<noteq> []" using assms(3,4) by (auto simp: bad_id_def fresh_def Atoi_def)
  moreover have "request_id v h = i" "request_timestamp v h = t"
    using names assms(5,6) by (simp_all add: request_id_def request_timestamp_def)
  ultimately show "signed_by hmac v now h body"
    using assms(2-4) cfg(6) by (auto simp: signed_by_def signedContent_full)
qed (use assms(10) in auto)

lemma replay_window:
  assumes "signed_by hmac v now1 h b1" "signed_by hmac v now2 h b2" "hc_TimestampHeader (hm_cfg v) \<noteq> []"
  shows "\<bar>now1 - now2\<bar> \<le> 2 * hc_Tolerance (hm_cfg v)"
  using assms by (auto simp: signed_by_def fresh_def)

section \<open>A signed_delivery\<close>

text \<open>Two secrets during a rotation; the delivery is signed with the second one. The code is a plain concatenation.\<close>

definition plain_mac :: "string \<Rightarrow> string \<Rightarrow> string" where
  "plain_mac k content = k @ content"

definition new_key :: string where "new_key = ''0123456789abcdef''"

definition rotation :: StandardConfig where
  "rotation = \<lparr>sc_Secrets = [''whsec_'' @ std_EncodeToString ''fedcba9876543210'', std_EncodeToString new_key], sc_HeaderPrefix = [], sc_Tolerance = 0\<rparr>"

definition rotating :: HMAC where
  "rotating = \<lparr>hm_cfg = \<lparr>hc_Secrets = [''fedcba9876543210'', new_key], hc_SignatureHeader = ''webhook-signature'', hc_SignaturePrefix = ''v1,'',
     hc_Encoding = Base64, hc_IDHeader = ''webhook-id'', hc_TimestampHeader = ''webhook-timestamp'', hc_Tolerance = DefaultTolerance,
     hc_Signed = Some signedContent\<rparr>\<rparr>"

definition signed_delivery :: header where
  "signed_delivery k = (if k = ''Webhook-Id'' then [''msg_1''] else if k = ''Webhook-Timestamp'' then [''1000'']
     else if k = ''Webhook-Signature'' then [''v1a,ignored v1,'' @ std_EncodeToString (plain_mac new_key ''msg_1.1000.{}'')] else [])"

definition receipt :: time where "receipt = from_Unix 1000 + 3 * second"

lemma rotating_new: "NewStandard rotation = Inr rotating"
proof -
  have "standard_keys True 0 (sc_Secrets rotation) = Inr [''fedcba9876543210'', new_key]" by code_simp
  then show ?thesis
    by (simp add: NewStandard_def NewHMAC_def rotating_def rotation_def Let_def Base64_def MinSecretBytes_def new_key_def)
qed

lemma delivery_headers:
  "Header_Get signed_delivery ''webhook-id'' = ''msg_1''" "Header_Get signed_delivery ''webhook-timestamp'' = ''1000''"
  "Header_Get signed_delivery ''webhook-signature'' = ''v1a,ignored v1,'' @ std_EncodeToString (plain_mac new_key ''msg_1.1000.{}'')"
  by code_simp+

lemma delivery_fresh: "fresh rotating receipt ''1000''"
proof -
  have "Atoi ''1000'' = Some 1000" by code_simp
  then show ?thesis by (simp add: fresh_def receipt_def rotating_def DefaultTolerance_def)
qed

theorem webhook_accepts_witness:
  "webhook_check (hmac_verifier plain_mac rotating receipt :: unit verifier) DefaultWebhookBodyLimit signed_delivery 2 (''{}'', None) = Inr ''{}''"
proof -
  have "\<not> bad_id ''msg_1''" by code_simp
  moreover have "list_all plain_word [''v1a,ignored'']" by code_simp
  ultimately show ?thesis
    using webhook_accepts [OF rotating_new, of new_key "''msg_1''" receipt "''1000''" signed_delivery "[''v1a,ignored'']" plain_mac "''{}''" "[]" DefaultWebhookBodyLimit]
      delivery_headers delivery_fresh
    by (simp add: rotating_def DefaultWebhookBodyLimit_def)
qed

lemma delivery_signatures: "signatures rotating signed_delivery = {plain_mac new_key ''msg_1.1000.{}''}"
proof -
  let ?entry = "''v1,'' @ std_EncodeToString (plain_mac new_key ''msg_1.1000.{}'')"
  have "list_all plain_word [''v1a,ignored'', ?entry]" by code_simp
  from Fields_blank_join [OF this]
  have "Fields (Header_Get signed_delivery ''webhook-signature'') = [''v1a,ignored'', ?entry]"
    unfolding delivery_headers by simp
  then show ?thesis
    using std_roundtrip
    by (simp add: signatures_def signature_entries_def rotating_def decode_signature_def Base64_def Hex_def cut_prefix_def has_prefix_def)
qed

lemma delivery_signed: "signed_by plain_mac rotating receipt signed_delivery ''{}''"
proof -
  have "\<not> bad_id ''msg_1''" by code_simp
  moreover have "request_id rotating signed_delivery = ''msg_1''" "request_timestamp rotating signed_delivery = ''1000''"
    using delivery_headers by (simp_all add: request_id_def request_timestamp_def rotating_def)
  ultimately show ?thesis
    using delivery_fresh by (simp add: signed_by_def delivery_signatures) (simp add: rotating_def signedContent_def plain_mac_def)
qed

theorem webhook_authentic_witness:
  "(request_id rotating signed_delivery, request_timestamp rotating signed_delivery, ''{}'') \<in> {(''msg_1'', ''1000'', ''{}'')} \<and>
    fresh rotating receipt (request_timestamp rotating signed_delivery)"
proof -
  have "webhook_check (hmac_verifier plain_mac rotating receipt :: unit verifier) DefaultWebhookBodyLimit signed_delivery 2 (''{}'', None) = Inr ''{}''"
    by (rule hmac_signatures.check_lets_through [OF delivery_signed]) (simp_all add: DefaultWebhookBodyLimit_def)
  note through = webhook_authentic [OF rotating_new this, of "{(''msg_1'', ''1000'', ''{}'')}"]
  have "\<exists>i t m. (i, t, m) \<in> {(''msg_1'', ''1000'', ''{}'')} \<and> content = i @ ''.'' @ t @ ''.'' @ m"
    if "k \<in> set (hc_Secrets (hm_cfg rotating))" "plain_mac k content \<in> signatures rotating signed_delivery" for k content
  proof -
    have "k = ''fedcba9876543210'' \<or> k = ''0123456789abcdef''" using that(1) by (simp add: rotating_def new_key_def)
    with that(2) show ?thesis unfolding delivery_signatures by (auto simp: plain_mac_def new_key_def)
  qed
  then have "(request_id rotating signed_delivery, request_timestamp rotating signed_delivery, ''{}'') \<in> {(''msg_1'', ''1000'', ''{}'')} \<and>
      fresh rotating receipt (request_timestamp rotating signed_delivery) \<and> (''{}'', None) = (''{}'', None :: read_error option) \<and>
      int (length ''{}'') \<le> DefaultWebhookBodyLimit"
    by (rule through) auto
  then show ?thesis by blast
qed

end
