(* ===== verification/Netip.thy ===== *)
theory Netip
  imports Go_Codec "HOL-Library.Word"
begin

text \<open>
  IP addresses and ranges as \<open>net/netip\<close> has them: addresses of 32 and 128 bits, the latter with an optional zone, their
  texts, and prefixes. Parsing follows the package's parsers step by step; an error is \<open>None\<close>.
\<close>

unbundle bit_operations_syntax

section \<open>Addresses\<close>

datatype Addr = V4 "32 word" | V6 "128 word" string

definition BitLen :: "Addr \<Rightarrow> int" where
  "BitLen a = (case a of V4 _ \<Rightarrow> 32 | V6 _ _ \<Rightarrow> 128)"

definition Zone :: "Addr \<Rightarrow> string" where
  "Zone a = (case a of V4 _ \<Rightarrow> [] | V6 _ z \<Rightarrow> z)"

definition WithZone :: "Addr \<Rightarrow> string \<Rightarrow> Addr" where
  "WithZone a z = (case a of V4 x \<Rightarrow> V4 x | V6 x _ \<Rightarrow> V6 x z)"

definition Is4 :: "Addr \<Rightarrow> bool" where
  "Is4 a = (case a of V4 _ \<Rightarrow> True | V6 _ _ \<Rightarrow> False)"

definition Is4In6 :: "Addr \<Rightarrow> bool" where
  "Is4In6 a = (case a of V4 _ \<Rightarrow> False | V6 x _ \<Rightarrow> drop_bit 32 x = 0xFFFF)"

definition Unmap :: "Addr \<Rightarrow> Addr" where
  "Unmap a = (case a of V4 x \<Rightarrow> V4 x | V6 x z \<Rightarrow> if Is4In6 a then V4 (ucast x) else a)"

section \<open>Parsing\<close>

fun ipv4_fields :: "int \<Rightarrow> nat \<Rightarrow> int list \<Rightarrow> string \<Rightarrow> int list option" where
  "ipv4_fields val digLen octs [] = (if length octs < 3 then None else Some (octs @ [val]))"
| "ipv4_fields val digLen octs (c # s) =
     (case digit_val c of
        Some d \<Rightarrow>
          if digLen = 1 \<and> val = 0 then None
          else let val = val * 10 + d in
            if val > 255 then None else ipv4_fields val (digLen + 1) octs s
      | None \<Rightarrow>
          if c \<noteq> CHR ''.'' then None
          else if digLen = 0 \<or> s = [] then None
          else if length octs = 3 then None
          else ipv4_fields 0 0 (octs @ [val]) s)"

definition number :: "int \<Rightarrow> int list \<Rightarrow> int" where
  "number base ds = foldl (\<lambda>n d. n * base + d) 0 ds"

definition parseIPv4 :: "string \<Rightarrow> Addr option" where
  "parseIPv4 s = map_option (\<lambda>fs. V4 (word_of_int (number 256 fs))) (ipv4_fields 0 0 [] s)"

definition is_hex :: "char \<Rightarrow> bool" where
  "is_hex c \<longleftrightarrow> hex_digit c \<noteq> None"

text \<open>The groups read so far, where the ellipsis stood among them, and what is left of the text.\<close>

function ipv6_groups :: "int list \<Rightarrow> nat option \<Rightarrow> string \<Rightarrow> (int list \<times> nat option \<times> string) option" where
  "ipv6_groups gs ellipsis s =
     (if length gs \<ge> 8 then Some (gs, ellipsis, s)
      else
        let ds = takeWhile is_hex s; r = drop (length ds) s in
        if length ds > 4 \<or> ds = [] then None
        else if r \<noteq> [] \<and> hd r = CHR ''.'' then
          (if ellipsis = None \<and> length gs \<noteq> 6 \<or> length gs + 2 > 8 then None
           else map_option (\<lambda>fs. (gs @ [number 256 (take 2 fs), number 256 (drop 2 fs)], ellipsis, [])) (ipv4_fields 0 0 [] s))
        else
          let gs = gs @ [number 16 (map (int \<circ> the \<circ> hex_digit) ds)] in
          if r = [] then Some (gs, ellipsis, [])
          else if hd r \<noteq> CHR '':'' \<or> tl r = [] then None
          else if hd (tl r) = CHR '':'' then
            (if ellipsis \<noteq> None then None
             else if tl (tl r) = [] then Some (gs, Some (length gs), [])
             else ipv6_groups gs (Some (length gs)) (tl (tl r)))
          else ipv6_groups gs ellipsis (tl r))"
  by pat_completeness auto
termination by (relation "measure (\<lambda>(gs, e, s). length s)") auto

declare ipv6_groups.simps [simp del]

definition expand_ellipsis :: "int list \<times> nat option \<times> string \<Rightarrow> int list option" where
  "expand_ellipsis r =
     (case r of (gs, ellipsis, s) \<Rightarrow>
        if s \<noteq> [] then None
        else if length gs < 8 then map_option (\<lambda>e. take e gs @ replicate (8 - length gs) 0 @ drop e gs) ellipsis
        else if ellipsis \<noteq> None then None else Some gs)"

definition parseIPv6 :: "string \<Rightarrow> Addr option" where
  "parseIPv6 t =
     (case cut_at (CHR ''%'') t of (s, zone, found) \<Rightarrow>
        if found \<and> zone = [] then None
        else if take 2 s = ''::'' \<and> length s = 2 then Some (V6 0 zone)
        else map_option (\<lambda>gs. V6 (word_of_int (number 65536 gs)) zone)
          (Option.bind (if take 2 s = ''::'' then ipv6_groups [] (Some 0) (drop 2 s) else ipv6_groups [] None s) expand_ellipsis))"

definition ParseAddr :: "string \<Rightarrow> Addr option" where
  "ParseAddr s =
     (case List.find (\<lambda>c. c \<in> set ''.:%'') s of
        None \<Rightarrow> None
      | Some c \<Rightarrow> if c = CHR ''.'' then parseIPv4 s else if c = CHR '':'' then parseIPv6 s else None)"

text \<open>The parts before and after the last occurrence of a byte.\<close>

definition cut_last :: "char \<Rightarrow> string \<Rightarrow> (string \<times> string) option" where
  "cut_last c s = (case cut_at c (rev s) of (b, a, found) \<Rightarrow> if found then Some (rev a, rev b) else None)"

text \<open>\<open>strconv.ParseUint\<close> of a port.\<close>

definition parse_port :: "string \<Rightarrow> int option" where
  "parse_port s = (if s = [] then None else case digits_val 0 s of None \<Rightarrow> None | Some n \<Rightarrow> if n < 65536 then Some n else None)"

definition ParseAddrPort :: "string \<Rightarrow> (Addr \<times> int) option" where
  "ParseAddrPort s =
     (case cut_last (CHR '':'') s of
        None \<Rightarrow> None
      | Some (ip, port) \<Rightarrow>
          if ip = [] \<or> port = [] then None
          else if hd ip = CHR ''['' \<and> (length ip < 2 \<or> last ip \<noteq> CHR '']'') then None
          else
            let v6 = (hd ip = CHR ''['');
                ip = (if v6 then butlast (tl ip) else ip) in
            case parse_port port of
              None \<Rightarrow> None
            | Some p \<Rightarrow>
                (case ParseAddr ip of
                   None \<Rightarrow> None
                 | Some a \<Rightarrow> if v6 = Is4 a then None else Some (a, p)))"

section \<open>Texts\<close>

definition dec_char :: "int \<Rightarrow> char" where
  "dec_char d = char_of (nat d + 48)"

definition dec_text :: "int \<Rightarrow> string" where
  "dec_text n = (if n \<ge> 100 then [dec_char (n div 100)] else []) @ (if n \<ge> 10 then [dec_char (n div 10 mod 10)] else []) @ [dec_char (n mod 10)]"

definition octets_of :: "32 word \<Rightarrow> int list" where
  "octets_of x = map (\<lambda>i. uint x div 256 ^ i mod 256) [3, 2, 1, 0]"

definition groups_of :: "128 word \<Rightarrow> int list" where
  "groups_of x = map (\<lambda>i. uint x div 65536 ^ i mod 65536) [7, 6, 5, 4, 3, 2, 1, 0]"

fun join_on :: "char \<Rightarrow> string list \<Rightarrow> string" where
  "join_on c [] = []"
| "join_on c [s] = s"
| "join_on c (s # ss) = s @ c # join_on c ss"

text \<open>Groups are written in hexadecimal without leading zeros.\<close>

definition hex_text :: "int \<Rightarrow> string" where
  "hex_text n = (if n \<ge> 4096 then [hex_char (nat (n div 4096))] else []) @ (if n \<ge> 256 then [hex_char (nat (n div 256 mod 16))] else []) @
     (if n \<ge> 16 then [hex_char (nat (n div 16 mod 16))] else []) @ [hex_char (nat (n mod 16))]"

text \<open>The first longest run of at least two zero groups: where it starts and ends.\<close>

definition zero_run :: "int list \<Rightarrow> nat \<Rightarrow> nat" where
  "zero_run gs i = length (takeWhile (\<lambda>g. g = 0) (drop i gs))"

definition longest_zeros :: "int list \<Rightarrow> (nat \<times> nat) option" where
  "longest_zeros gs =
     fold (\<lambda>i best. let l = zero_run gs i in
       if l \<ge> 2 \<and> (case best of None \<Rightarrow> True | Some (a, b) \<Rightarrow> l > b - a) then Some (i, i + l) else best) [0..<length gs] None"

definition string6 :: "int list \<Rightarrow> string" where
  "string6 gs =
     (case longest_zeros gs of
        None \<Rightarrow> join_on (CHR '':'') (map hex_text gs)
      | Some (a, b) \<Rightarrow> join_on (CHR '':'') (map hex_text (take a gs)) @ ''::'' @ join_on (CHR '':'') (map hex_text (drop b gs)))"

definition string4 :: "32 word \<Rightarrow> string" where
  "string4 x = join_on (CHR ''.'') (map dec_text (octets_of x))"

definition with_zone_text :: "string \<Rightarrow> string \<Rightarrow> string" where
  "with_zone_text s z = (if z = [] then s else s @ ''%'' @ z)"

definition Addr_String :: "Addr \<Rightarrow> string" where
  "Addr_String a =
     (case a of
        V4 x \<Rightarrow> string4 x
      | V6 x z \<Rightarrow> with_zone_text (if Is4In6 a then ''::ffff:'' @ string4 (ucast x) else string6 (groups_of x)) z)"

definition JoinHostPort :: "string \<Rightarrow> string \<Rightarrow> string" where
  "JoinHostPort host port = (if CHR '':'' \<in> set host then ''['' @ host @ '']:'' @ port else host @ '':'' @ port)"

section \<open>Prefixes\<close>

text \<open>An invalid prefix has -1 bits.\<close>

record Prefix =
  pf_Addr :: Addr
  pf_Bits :: int

definition PrefixFrom :: "Addr \<Rightarrow> int \<Rightarrow> Prefix" where
  "PrefixFrom a bits = \<lparr>pf_Addr = WithZone a [], pf_Bits = (if 0 \<le> bits \<and> bits \<le> BitLen a then bits else -1)\<rparr>"

definition IsValid :: "Prefix \<Rightarrow> bool" where
  "IsValid p \<longleftrightarrow> pf_Bits p \<ge> 0"

definition mask6 :: "nat \<Rightarrow> 128 word" where
  "mask6 n = push_bit (128 - n) (mask n)"

definition Masked :: "Prefix \<Rightarrow> Prefix" where
  "Masked p =
     (if IsValid p
      then p\<lparr>pf_Addr := (case pf_Addr p of
          V4 x \<Rightarrow> V4 (x AND push_bit (32 - nat (pf_Bits p)) (mask (nat (pf_Bits p))))
        | V6 x z \<Rightarrow> V6 (x AND mask6 (nat (pf_Bits p))) z)\<rparr>
      else p)"

definition Contains :: "Prefix \<Rightarrow> Addr \<Rightarrow> bool" where
  "Contains p a \<longleftrightarrow> IsValid p \<and> Zone a = [] \<and>
     (case (pf_Addr p, a) of
        (V4 x, V4 y) \<Rightarrow> drop_bit (32 - nat (pf_Bits p)) (y XOR x) = 0
      | (V6 x _, V6 y _) \<Rightarrow> (y XOR x) AND mask6 (nat (pf_Bits p)) = 0
      | _ \<Rightarrow> False)"

definition ParsePrefix :: "string \<Rightarrow> Prefix option" where
  "ParsePrefix s =
     (case cut_last (CHR ''/'') s of
        None \<Rightarrow> None
      | Some (ip, bits) \<Rightarrow>
          (case ParseAddr ip of
             None \<Rightarrow> None
           | Some a \<Rightarrow>
               if Zone a \<noteq> [] then None
               else if length bits > 1 \<and> (byte (hd bits) < 49 \<or> byte (hd bits) > 57) then None
               else case Atoi bits of
                 None \<Rightarrow> None
               | Some n \<Rightarrow> if n < 0 \<or> n > BitLen a then None else Some (PrefixFrom a n)))"

end
