(* ===== verification/Httpx.thy ===== *)
theory Httpx
  imports Netip Audit_Events
begin

text \<open>
  Middleware that decides by where a request comes from (\<open>httpx/trusted_proxies.go\<close>, \<open>httpx/ipfilter\<close>) or by its headers and
  the server's state (\<open>httpx/middleware.go\<close>, \<open>httpx/maintenance.go\<close>), and the mapping of errors to problems
  (\<open>httpx/problem.go\<close>). A handler gets the request and the response headers set so far and gives the reply.
  \<open>url.Parse\<close>, \<open>http.StatusText\<close> and the whole seconds of a floating-point duration are parameters.
\<close>

section \<open>Requests, replies and handlers\<close>

text \<open>The context's request ID and the request's body, up to where it can be read, are fields of the request.\<close>

record http_request =
  ht_Method :: string
  ht_Path :: string
  ht_RemoteAddr :: string
  ht_Header :: header
  ht_ContentLength :: int
  ht_Body :: string
  ht_Cut :: bool
  ht_RequestID :: string

record Problem =
  pb_Title :: string
  pb_Status :: int
  pb_Code :: string
  pb_Detail :: string
  pb_RequestID :: string

datatype reply_body = Bytes string | ProblemBody Problem

record reply =
  rp_Status :: int
  rp_Header :: header
  rp_Body :: reply_body

type_synonym http_handler = "http_request \<Rightarrow> header \<Rightarrow> reply"
type_synonym middleware = "http_handler \<Rightarrow> http_handler"

definition Header_Set :: "string \<Rightarrow> string \<Rightarrow> header \<Rightarrow> header" where
  "Header_Set k v h = h(CanonicalHeaderKey k := [v])"

definition Header_Add :: "string \<Rightarrow> string \<Rightarrow> header \<Rightarrow> header" where
  "Header_Add k v h = h(CanonicalHeaderKey k := h (CanonicalHeaderKey k) @ [v])"

definition Chain :: "http_handler \<Rightarrow> middleware list \<Rightarrow> http_handler" where
  "Chain h ms = foldr (\<lambda>m h. m h) ms h"

definition NewProblem :: "(int \<Rightarrow> string) \<Rightarrow> int \<Rightarrow> string \<Rightarrow> string \<Rightarrow> Problem" where
  "NewProblem statusText status code detail =
     \<lparr>pb_Title = statusText status, pb_Status = status, pb_Code = code, pb_Detail = detail, pb_RequestID = []\<rparr>"

definition WriteProblem :: "http_request \<Rightarrow> header \<Rightarrow> Problem \<Rightarrow> reply" where
  "WriteProblem r h p =
     (let p = (if pb_RequestID p = [] then p\<lparr>pb_RequestID := ht_RequestID r\<rparr> else p) in
      \<lparr>rp_Status = pb_Status p,
       rp_Header = Header_Set ''Cache-Control'' ''no-store'' (Header_Set ''Content-Type'' ''application/problem+json'' h),
       rp_Body = ProblemBody p\<rparr>)"

section \<open>Trusted proxies\<close>

datatype range_error = ErrTrustAll string | InvalidRange | MixedFamilies | NotARange string

definition canonicalPrefix :: "Prefix \<Rightarrow> range_error + Prefix" where
  "canonicalPrefix p =
     (if \<not> IsValid p then Inl InvalidRange
      else if Is4In6 (pf_Addr p) \<and> pf_Bits p < 96 then Inl MixedFamilies
      else Inr (Masked (if Is4In6 (pf_Addr p) then PrefixFrom (Unmap (pf_Addr p)) (pf_Bits p - 96) else p)))"

fun canonicalPrefixes :: "Prefix list \<Rightarrow> Prefix list" where
  "canonicalPrefixes [] = []"
| "canonicalPrefixes (p # ps) = (case canonicalPrefix p of Inl _ \<Rightarrow> canonicalPrefixes ps | Inr c \<Rightarrow> c # canonicalPrefixes ps)"

text \<open>One item of a list: a range, or an address as the range of itself.\<close>

definition parse_item :: "string \<Rightarrow> Prefix option" where
  "parse_item item =
     (case ParsePrefix item of
        Some p \<Rightarrow> Some p
      | None \<Rightarrow>
          (case ParseAddr item of
             None \<Rightarrow> None
           | Some a \<Rightarrow> if Zone a \<noteq> [] then None else Some (PrefixFrom a (BitLen a))))"

fun trusted_items :: "string list \<Rightarrow> range_error + Prefix list" where
  "trusted_items [] = Inr []"
| "trusted_items (item # items) =
     (let item = TrimSpace item in
      if item = [] then trusted_items items
      else case parse_item item of
        None \<Rightarrow> Inl (NotARange item)
      | Some p \<Rightarrow>
          (case canonicalPrefix p of
             Inl err \<Rightarrow> Inl err
           | Inr p \<Rightarrow> if pf_Bits p = 0 then Inl (ErrTrustAll item) else map_sum (\<lambda>e. e) (Cons p) (trusted_items items)))"

definition ParseTrustedProxies :: "string \<Rightarrow> range_error + Prefix list" where
  "ParseTrustedProxies list = trusted_items (split_on (CHR '','') list)"

definition remoteAddr :: "string \<Rightarrow> Addr option" where
  "remoteAddr s =
     (case ParseAddrPort s of
        Some (a, _) \<Rightarrow> Some (Unmap a)
      | None \<Rightarrow> map_option Unmap (ParseAddr s))"

definition isTrusted :: "Addr \<Rightarrow> Prefix list \<Rightarrow> bool" where
  "isTrusted a trusted \<longleftrightarrow> list_ex (\<lambda>p. Contains p a) trusted"

text \<open>The hops are walked from the last to the first; \<open>last_untrusted\<close> gets them in that order.\<close>

fun last_untrusted :: "Prefix list \<Rightarrow> string list \<Rightarrow> Addr option" where
  "last_untrusted trusted [] = None"
| "last_untrusted trusted (hop # hops) =
     (case ParseAddr (TrimSpace hop) of
        None \<Rightarrow> None
      | Some a \<Rightarrow> let a = Unmap a in if isTrusted a trusted then last_untrusted trusted hops else Some a)"

definition forwarded_hops :: "http_request \<Rightarrow> string list" where
  "forwarded_hops r = concat (map (split_on (CHR '','')) (Header_Values (ht_Header r) ''X-Forwarded-For''))"

definition forwardedClient :: "http_request \<Rightarrow> Prefix list \<Rightarrow> Addr option" where
  "forwardedClient r trusted =
     (case remoteAddr (ht_RemoteAddr r) of
        None \<Rightarrow> None
      | Some peer \<Rightarrow> if isTrusted peer trusted then last_untrusted trusted (rev (forwarded_hops r)) else None)"

definition TrustedProxies :: "Prefix list \<Rightarrow> middleware" where
  "TrustedProxies trusted next =
     (let trusted = canonicalPrefixes trusted in
      if trusted = [] then next
      else (\<lambda>r. case forwardedClient r trusted of
        None \<Rightarrow> next r
      | Some client \<Rightarrow> next (r\<lparr>ht_RemoteAddr := JoinHostPort (Addr_String client) ''0''\<rparr>)))"

definition fromTrusted :: "http_request \<Rightarrow> Prefix list \<Rightarrow> bool" where
  "fromTrusted r trusted = (case remoteAddr (ht_RemoteAddr r) of None \<Rightarrow> False | Some a \<Rightarrow> isTrusted a trusted)"

section \<open>Request IDs\<close>

definition requestid_Header :: string where "requestid_Header = ''X-Request-ID''"

definition requestid_New :: "string \<Rightarrow> string" where
  "requestid_New random = ''req_'' @ hex_EncodeToString random"

definition RequestIDFrom :: "string \<Rightarrow> Prefix list \<Rightarrow> middleware" where
  "RequestIDFrom random trusted next r h =
     (let rid = Header_Get (ht_Header r) requestid_Header;
          rid = (if \<not> Valid_request_id rid \<or> \<not> fromTrusted r trusted then requestid_New random else rid) in
      next (r\<lparr>ht_RequestID := rid\<rparr>) (Header_Set requestid_Header rid h))"

section \<open>Allowed and denied addresses\<close>

datatype filter_error = FilterRange range_error | ErrDenyAll Prefix | NeverMatches Prefix Prefix

definition ip_canonicalPrefix :: "Prefix \<Rightarrow> range_error + Prefix" where
  "ip_canonicalPrefix p =
     (if \<not> IsValid p then Inl InvalidRange
      else if Is4In6 (pf_Addr p) then
        (if pf_Bits p < 96 then Inl MixedFamilies else Inr (Masked (PrefixFrom (Unmap (pf_Addr p)) (pf_Bits p - 96))))
      else Inr (Masked p))"

fun range_items :: "string list \<Rightarrow> range_error + Prefix list" where
  "range_items [] = Inr []"
| "range_items (item # items) =
     (let item = TrimSpace item in
      if item = [] then range_items items
      else case parse_item item of
        None \<Rightarrow> Inl (NotARange item)
      | Some p \<Rightarrow>
          (case ip_canonicalPrefix p of
             Inl err \<Rightarrow> Inl err
           | Inr p \<Rightarrow> map_sum (\<lambda>e. e) (Cons p) (range_items items)))"

definition ParsePrefixes :: "string \<Rightarrow> range_error + Prefix list" where
  "ParsePrefixes list = range_items (split_on (CHR '','') list)"

fun ip_canonicalPrefixes :: "Prefix list \<Rightarrow> range_error + Prefix list" where
  "ip_canonicalPrefixes [] = Inr []"
| "ip_canonicalPrefixes (p # ps) =
     (case ip_canonicalPrefix p of Inl err \<Rightarrow> Inl err | Inr c \<Rightarrow> map_sum (\<lambda>e. e) (Cons c) (ip_canonicalPrefixes ps))"

definition ip_contains :: "Prefix list \<Rightarrow> Addr \<Rightarrow> bool" where
  "ip_contains ranges a \<longleftrightarrow> list_ex (\<lambda>p. Contains p a) ranges"

text \<open>The first problem with the deny ranges, in the order the loops find it.\<close>

fun deny_error :: "Prefix list \<Rightarrow> Prefix list \<Rightarrow> filter_error option" where
  "deny_error allow [] = None"
| "deny_error allow (d # deny) =
     (if pf_Bits d = 0 then Some (ErrDenyAll d)
      else case List.find (\<lambda>a. pf_Bits d \<le> pf_Bits a \<and> Contains d (pf_Addr a)) allow of
        Some a \<Rightarrow> Some (NeverMatches a d)
      | None \<Rightarrow> deny_error allow deny)"

definition ip_refused :: "Prefix list \<Rightarrow> Prefix list \<Rightarrow> string \<Rightarrow> bool" where
  "ip_refused allow deny remote =
     (case remoteAddr remote of
        None \<Rightarrow> True
      | Some a \<Rightarrow> let a = WithZone a [] in ip_contains deny a \<or> allow \<noteq> [] \<and> \<not> ip_contains allow a)"

definition ipfilter_New :: "(int \<Rightarrow> string) \<Rightarrow> Prefix list \<Rightarrow> Prefix list \<Rightarrow> filter_error + middleware" where
  "ipfilter_New statusText allow deny =
     (case ip_canonicalPrefixes allow of
        Inl err \<Rightarrow> Inl (FilterRange err)
      | Inr allow \<Rightarrow>
          (case ip_canonicalPrefixes deny of
             Inl err \<Rightarrow> Inl (FilterRange err)
           | Inr deny \<Rightarrow>
               (case deny_error allow deny of
                  Some err \<Rightarrow> Inl err
                | None \<Rightarrow> Inr (\<lambda>next.
                    if allow = [] \<and> deny = [] then next
                    else (\<lambda>r h. if ip_refused allow deny (ht_RemoteAddr r)
                      then WriteProblem r h (NewProblem statusText 403 ''ip_not_allowed'' ''requests from this network address are not allowed'')
                      else next r h)))))"

section \<open>Maintenance\<close>

text \<open>The options as the values they have when the request arrives; a missing one is \<open>None\<close>.\<close>

record MaintenanceOptions =
  mo_Enabled :: "bool option"
  mo_Message :: "string option"
  mo_RetryAfter :: "duration option"
  mo_Open :: "string list"

definition DefaultMaintenanceMessage :: string where
  "DefaultMaintenanceMessage = ''the service is down for maintenance; try again later''"

definition maintenanceOpen :: "string list \<Rightarrow> string \<Rightarrow> bool" where
  "maintenanceOpen open path \<longleftrightarrow> list_ex (\<lambda>p. path = p \<or> (p \<noteq> [] \<and> last p = CHR ''/'' \<and> has_prefix path p)) open"

text \<open>A duration over a second: the quotient of nanoseconds rounds toward zero.\<close>

definition Maintenance :: "(int \<Rightarrow> string) \<Rightarrow> MaintenanceOptions \<Rightarrow> middleware" where
  "Maintenance statusText opts next =
     (if mo_Enabled opts = None then next
      else (\<lambda>r h.
        if mo_Enabled opts \<noteq> Some True \<or> maintenanceOpen (mo_Open opts) (ht_Path r) then next r h
        else
          let message = (case mo_Message opts of None \<Rightarrow> [] | Some m \<Rightarrow> m);
              message = (if message = [] then DefaultMaintenanceMessage else message);
              seconds = (case mo_RetryAfter opts of None \<Rightarrow> 0 | Some d \<Rightarrow> if d < 0 then - (- d div second) else d div second) in
          WriteProblem r (if seconds > 0 then Header_Set ''Retry-After'' (FormatInt seconds) h else h)
            (NewProblem statusText 503 ''maintenance'' message)))"

section \<open>Cross-origin requests\<close>

record CORSOptions =
  cors_AllowedOrigins :: "string list"
  cors_AllowedMethods :: "string list"
  cors_AllowedHeaders :: "string list"
  cors_ExposedHeaders :: "string list"
  cors_AllowCredentials :: bool
  cors_MaxAge :: duration

text \<open>What \<open>validOrigin\<close> reads of a parsed URL: its scheme and host, and whether it has anything else.\<close>

record parsed_url =
  pu_Scheme :: string
  pu_Host :: string
  pu_HasUser :: bool
  pu_Opaque :: string
  pu_RawPath :: string
  pu_Path :: string
  pu_ForceQuery :: bool
  pu_RawQuery :: string
  pu_Fragment :: string

definition validOrigin :: "(string \<Rightarrow> parsed_url option) \<Rightarrow> string \<Rightarrow> bool" where
  "validOrigin url_Parse origin =
     (case url_Parse origin of
        None \<Rightarrow> False
      | Some u \<Rightarrow> (pu_Scheme u = ''https'' \<or> pu_Scheme u = ''http'') \<and> pu_Host u \<noteq> [] \<and> \<not> pu_HasUser u \<and> pu_Opaque u = [] \<and>
          pu_RawPath u = [] \<and> pu_Path u = [] \<and> \<not> pu_ForceQuery u \<and> pu_RawQuery u = [] \<and> pu_Fragment u = [] \<and>
          pu_Scheme u @ ''://'' @ pu_Host u = origin)"

datatype cors_error = WildcardWithCredentials | BadOrigin string

definition orDefault :: "'a list \<Rightarrow> 'a list \<Rightarrow> 'a list" where
  "orDefault v def = (if v = [] then def else v)"

fun comma_join :: "string list \<Rightarrow> string" where
  "comma_join [] = []"
| "comma_join [s] = s"
| "comma_join (s # ss) = s @ '', '' @ comma_join ss"

definition cors_allowed :: "CORSOptions \<Rightarrow> string \<Rightarrow> bool" where
  "cors_allowed opts origin \<longleftrightarrow> origin \<noteq> [] \<and> (origin \<in> set (cors_AllowedOrigins opts) \<or> ''*'' \<in> set (cors_AllowedOrigins opts))"

definition cors_preflight :: "(duration \<Rightarrow> string) \<Rightarrow> CORSOptions \<Rightarrow> header \<Rightarrow> reply" where
  "cors_preflight secondsText opts h =
     (let maxAge = (if cors_MaxAge opts \<le> 0 then 10 * minute else cors_MaxAge opts);
          h = Header_Add ''Vary'' ''Access-Control-Request-Headers'' (Header_Add ''Vary'' ''Access-Control-Request-Method'' h);
          h = Header_Set ''Access-Control-Allow-Methods''
                (comma_join (orDefault (cors_AllowedMethods opts) [''GET'', ''POST'', ''PUT'', ''PATCH'', ''DELETE''])) h;
          h = Header_Set ''Access-Control-Allow-Headers''
                (comma_join (orDefault (cors_AllowedHeaders opts) [''Authorization'', ''Content-Type'', requestid_Header])) h in
      \<lparr>rp_Status = 204, rp_Header = Header_Set ''Access-Control-Max-Age'' (secondsText maxAge) h, rp_Body = Bytes []\<rparr>)"

definition CORS :: "(string \<Rightarrow> parsed_url option) \<Rightarrow> (duration \<Rightarrow> string) \<Rightarrow> CORSOptions \<Rightarrow> cors_error + middleware" where
  "CORS url_Parse secondsText opts =
     (if cors_AllowCredentials opts \<and> ''*'' \<in> set (cors_AllowedOrigins opts) then Inl WildcardWithCredentials
      else case List.find (\<lambda>o'. o' \<noteq> ''*'' \<and> \<not> validOrigin url_Parse o') (cors_AllowedOrigins opts) of
        Some o' \<Rightarrow> Inl (BadOrigin o')
      | None \<Rightarrow> Inr (\<lambda>next r h.
          let origin = Header_Get (ht_Header r) ''Origin'';
              h = Header_Add ''Vary'' ''Origin'' h in
          if \<not> cors_allowed opts origin then next r h
          else
            let h = Header_Set ''Access-Control-Allow-Origin'' origin h;
                h = (if cors_AllowCredentials opts then Header_Set ''Access-Control-Allow-Credentials'' ''true'' h else h) in
            if ht_Method r = ''OPTIONS'' \<and> Header_Get (ht_Header r) ''Access-Control-Request-Method'' \<noteq> []
            then cors_preflight secondsText opts h
            else next r (Header_Set ''Access-Control-Expose-Headers''
              (comma_join (orDefault (cors_ExposedHeaders opts) [requestid_Header, ''Retry-After''])) h)))"

section \<open>Body limits\<close>

text \<open>\<open>http.MaxBytesReader\<close> gives the first \<open>n\<close> bytes of a longer body, then an error.\<close>

definition BodyLimit :: "(int \<Rightarrow> string) \<Rightarrow> int \<Rightarrow> middleware" where
  "BodyLimit statusText n next r h =
     (if ht_ContentLength r > n
      then WriteProblem r h (NewProblem statusText 413 ''request_too_large'' (''request body must not exceed '' @ FormatInt n @ '' bytes''))
      else next (if int (length (ht_Body r)) > n then r\<lparr>ht_Body := take (nat n) (ht_Body r), ht_Cut := True\<rparr> else r) h)"

section \<open>Errors and problems\<close>

text \<open>
  A Go error as \<open>errors.Is\<close> and \<open>errors.As\<close> see it: a value with an identity and a message, perhaps a problem itself, that
  wraps other errors. \<open>Is\<close> and \<open>As\<close> search the tree in preorder.
\<close>

datatype go_err = GoErr (ge_id: nat) (ge_text: string) (ge_problem: "Problem option") (ge_wraps: "go_err list")

fun errors_Is :: "go_err \<Rightarrow> nat \<Rightarrow> bool" where
  "errors_Is (GoErr i t p ws) target \<longleftrightarrow> i = target \<or> list_ex (\<lambda>w. errors_Is w target) ws"

fun errors_As :: "go_err \<Rightarrow> Problem option" where
  "errors_As (GoErr i t p ws) =
     (case p of Some p \<Rightarrow> Some p | None \<Rightarrow> fold (\<lambda>w r. case r of Some q \<Rightarrow> Some q | None \<Rightarrow> errors_As w) ws None)"

record Mapping =
  mp_Err :: "go_err option"
  mp_Status :: int
  mp_Code :: string
  mp_Detail :: string

datatype mapper_error = NilError | NotAnErrorStatus | BadCode | DuplicateMapping | StatusConflict

text \<open>\<open>codePattern\<close>: words of small letters and digits joined by underscores, the first starting with a letter.\<close>

definition code_char :: "char \<Rightarrow> bool" where
  "code_char c \<longleftrightarrow> 97 \<le> byte c \<and> byte c \<le> 122 \<or> 48 \<le> byte c \<and> byte c \<le> 57"

definition codePattern :: "string \<Rightarrow> bool" where
  "codePattern s \<longleftrightarrow> list_all (\<lambda>w. w \<noteq> [] \<and> list_all code_char w) (split_on (CHR ''_'') s) \<and>
     (case s of [] \<Rightarrow> False | c # _ \<Rightarrow> 97 \<le> byte c \<and> byte c \<le> 122)"

fun existing_error :: "go_err \<Rightarrow> Mapping \<Rightarrow> Mapping list \<Rightarrow> mapper_error option" where
  "existing_error e mp [] = None"
| "existing_error e mp (existing # ms) =
     (if (case mp_Err existing of None \<Rightarrow> False | Some x \<Rightarrow> errors_Is x (ge_id e)) then Some DuplicateMapping
      else if mp_Code existing = mp_Code mp \<and> mp_Status existing \<noteq> mp_Status mp then Some StatusConflict
      else existing_error e mp ms)"

definition mapping_error :: "Mapping \<Rightarrow> Mapping list \<Rightarrow> mapper_error option" where
  "mapping_error mp ms =
     (case mp_Err mp of
        None \<Rightarrow> Some NilError
      | Some e \<Rightarrow>
          if mp_Status mp < 400 \<or> mp_Status mp > 599 then Some NotAnErrorStatus
          else if \<not> codePattern (mp_Code mp) then Some BadCode
          else existing_error e mp ms)"

text \<open>The mappings before a bad one stay registered.\<close>

fun Mapper_Add :: "Mapping list \<Rightarrow> Mapping list \<Rightarrow> mapper_error option \<times> Mapping list" where
  "Mapper_Add [] ms = (None, ms)"
| "Mapper_Add (mp # mps) ms = (case mapping_error mp ms of Some e \<Rightarrow> (Some e, ms) | None \<Rightarrow> Mapper_Add mps (ms @ [mp]))"

definition NewMapper :: "Mapping list \<Rightarrow> mapper_error + Mapping list" where
  "NewMapper mps = (case Mapper_Add mps [] of (Some e, _) \<Rightarrow> Inl e | (None, ms) \<Rightarrow> Inr ms)"

definition Match :: "(int \<Rightarrow> string) \<Rightarrow> Mapping list \<Rightarrow> go_err \<Rightarrow> Problem option" where
  "Match statusText ms err =
     (case errors_As err of
        Some p \<Rightarrow> Some p
      | None \<Rightarrow>
          map_option (\<lambda>mp. NewProblem statusText (mp_Status mp) (mp_Code mp)
              (if mp_Detail mp = [] then (case mp_Err mp of None \<Rightarrow> [] | Some e \<Rightarrow> ge_text e) else mp_Detail mp))
            (List.find (\<lambda>mp. case mp_Err mp of None \<Rightarrow> False | Some e \<Rightarrow> errors_Is err (ge_id e)) ms))"

definition Mapper_Problem :: "(int \<Rightarrow> string) \<Rightarrow> Mapping list \<Rightarrow> go_err \<Rightarrow> Problem" where
  "Mapper_Problem statusText ms err =
     (case Match statusText ms err of
        Some p \<Rightarrow> p
      | None \<Rightarrow> NewProblem statusText 500 ''internal_error'' ''an internal error occurred'')"

definition Mapper_Write :: "(int \<Rightarrow> string) \<Rightarrow> Mapping list \<Rightarrow> http_request \<Rightarrow> header \<Rightarrow> go_err \<Rightarrow> reply" where
  "Mapper_Write statusText ms r h err = WriteProblem r h (Mapper_Problem statusText ms err)"

definition DefaultCode :: "int \<Rightarrow> string" where
  "DefaultCode status =
     (if status = 400 then ''bad_request'' else if status = 401 then ''unauthorized'' else if status = 403 then ''forbidden''
      else if status = 404 then ''not_found'' else if status = 405 then ''method_not_allowed'' else if status = 409 then ''conflict''
      else if status = 413 then ''request_too_large'' else if status = 422 then ''validation_failed'' else if status = 429 then ''rate_limited''
      else if status = 503 then ''unavailable'' else if status \<ge> 500 then ''internal_error'' else ''error'')"

end
