(* ===== verification/Netip_Text.thy ===== *)
theory Netip_Text
  imports Netip
begin

text \<open>
  The text of an address is read back as that address, and so is the host and port made of it: \<open>netip.Addr.String\<close>,
  \<open>net.JoinHostPort\<close>, \<open>netip.ParseAddr\<close> and \<open>netip.ParseAddrPort\<close> fit together.
\<close>

section \<open>Digits\<close>

lemma number_snoc [simp]: "number base (ds @ [d]) = number base ds * base + d"
  by (simp add: number_def)

lemma number_digits:
  assumes "0 < base"
  shows "number base (map (\<lambda>i. u div base ^ i mod base) (rev [0..<n])) = u mod base ^ n"
proof (induction n arbitrary: u)
  case 0
  then show ?case by (simp add: number_def)
next
  case (Suc n)
  have "rev [0..<Suc n] = map Suc (rev [0..<n]) @ [0]"
    by (simp only: upt_conv_Cons rev_map [symmetric] map_Suc_upt rev.simps)
  then have "number base (map (\<lambda>i. u div base ^ i mod base) (rev [0..<Suc n])) =
    number base (map (\<lambda>i. u div base div base ^ i mod base) (rev [0..<n])) * base + u mod base"
    using assms by (simp add: comp_def zdiv_zmult2_eq flip: rev_map)
  also have "\<dots> = u mod base ^ Suc n"
    using assms by (simp add: Suc zmod_zmult2_eq mult.commute)
  finally show ?case .
qed

lemma octets_number: "number 256 (octets_of x) = uint x"
proof -
  have "octets_of x = map (\<lambda>i. uint x div 256 ^ i mod 256) (rev [0..<4])" by (simp add: octets_of_def numeral_eq_Suc)
  then show ?thesis using uint_lt2p [of x] by (simp add: number_digits)
qed

lemma groups_number: "number 65536 (groups_of x) = uint x"
proof -
  have "groups_of x = map (\<lambda>i. uint x div 65536 ^ i mod 65536) (rev [0..<8])" by (simp add: groups_of_def numeral_eq_Suc)
  then show ?thesis using uint_lt2p [of x] by (simp add: number_digits)
qed

section \<open>Version 4\<close>

lemma digit_val_dec: "0 \<le> d \<Longrightarrow> d < 10 \<Longrightarrow> digit_val (dec_char d) = Some d"
  by (auto simp: digit_val_def dec_char_def)

lemma ipv4_fields_dec:
  assumes "0 \<le> n" "n < 256"
  shows "ipv4_fields 0 0 fs (dec_text n @ s) = ipv4_fields n (length (dec_text n)) fs s"
proof -
  consider "n < 10" | "10 \<le> n" "n < 100" | "100 \<le> n" by linarith
  then show ?thesis
  proof cases
    case 1
    with assms show ?thesis by (simp add: dec_text_def digit_val_dec)
  next
    case 2
    with assms have "0 < n div 10" "n div 10 < 10" by auto
    with 2 assms show ?thesis by (simp add: dec_text_def digit_val_dec)
  next
    case 3
    with assms have "0 < n div 100" "n div 100 < 10" "n div 10 \<le> 255" by auto
    moreover have "n div 100 = n div 10 div 10" using zdiv_zmult2_eq [of 10 n 10] by simp
    ultimately have "0 < n div 100" "n div 100 < 10" "\<not> 255 < n div 10" "n div 10 mod 10 + n div 100 * 10 = n div 10" by (simp_all add: mod_div_decomp)
    with 3 assms show ?thesis by (simp add: dec_text_def digit_val_dec algebra_simps Let_def)
  qed
qed

lemma dec_text_ne [simp]: "dec_text n \<noteq> []"
  by (simp add: dec_text_def)

lemma ipv4_fields_text:
  assumes "\<forall>n \<in> set ns. 0 \<le> n \<and> n < 256" "ns \<noteq> []" "length fs + length ns = 4"
  shows "ipv4_fields 0 0 fs (join_on (CHR ''.'') (map dec_text ns)) = Some (fs @ ns)"
  using assms
proof (induction ns arbitrary: fs rule: induct_list012)
  case (2 n)
  then show ?case using ipv4_fields_dec [of n fs "[]"] by simp
next
  case (3 n m ns)
  have "join_on (CHR ''.'') (map dec_text (m # ns)) \<noteq> []" by (cases ns) simp_all
  then show ?case using 3 by (simp add: ipv4_fields_dec digit_val_def)
qed simp

lemma octets_range: "n \<in> set (octets_of x) \<Longrightarrow> 0 \<le> n \<and> n < 256"
  by (auto simp: octets_of_def)

lemma parse_string4: "parseIPv4 (string4 x) = Some (V4 x)"
proof -
  have "length (octets_of x) = 4" by (simp add: octets_of_def)
  moreover from this have "octets_of x \<noteq> []" by force
  ultimately have "ipv4_fields 0 0 [] (string4 x) = Some (octets_of x)"
    unfolding string4_def using octets_range ipv4_fields_text [of "octets_of x" "[]"] by simp
  then show ?thesis by (simp add: parseIPv4_def octets_number)
qed

section \<open>Version 6\<close>

lemma hex_digit_nat: "0 \<le> d \<Longrightarrow> d < 16 \<Longrightarrow> hex_digit (hex_char (nat d)) = Some (nat d)"
  by (simp add: hex_digit_char)

lemma hex_text_ok:
  assumes "0 \<le> n" "n < 65536"
  shows "\<forall>c \<in> set (hex_text n). is_hex c" "hex_text n \<noteq> []" "length (hex_text n) \<le> 4"
    "number 16 (map (int \<circ> the \<circ> hex_digit) (hex_text n)) = n"
proof -
  have lt: "n div 4096 < 16" "0 \<le> n div 4096" using assms by auto
  show "\<forall>c \<in> set (hex_text n). is_hex c"
    using lt by (auto simp: hex_text_def hex_digit_nat is_hex_def)
  have "n div 4096 = n div 256 div 16" "n div 256 = n div 16 div 16"
    using zdiv_zmult2_eq [of 16 n 256] zdiv_zmult2_eq [of 16 n 16] by simp_all
  then have dec: "n div 4096 * 16 + n div 256 mod 16 = n div 256" "n div 256 * 16 + n div 16 mod 16 = n div 16" "n div 16 * 16 + n mod 16 = n"
    by (simp_all add: div_mod_decomp)
  have d: "int (the (hex_digit (hex_char (nat k)))) = k" if "0 \<le> k" "k < 16" for k
    using that by (simp add: hex_digit_nat)
  consider "n < 16" | "16 \<le> n" "n < 256" | "256 \<le> n" "n < 4096" | "4096 \<le> n" by linarith
  then show "number 16 (map (int \<circ> the \<circ> hex_digit) (hex_text n)) = n"
  proof cases
    case 1
    with assms show ?thesis by (simp add: hex_text_def d number_def)
  next
    case 2
    then have "n div 16 mod 16 = n div 16" using assms by auto
    with 2 dec show ?thesis by (simp add: hex_text_def d number_def)
  next
    case 3
    then have "n div 256 mod 16 = n div 256" using assms by auto
    with 3 dec show ?thesis by (simp add: hex_text_def d number_def)
  next
    case 4
    with dec lt show ?thesis by (simp add: hex_text_def d number_def)
  qed
qed (simp_all add: hex_text_def)

lemma hex_span:
  assumes "0 \<le> n" "n < 65536" "r = [] \<or> \<not> is_hex (hd r)"
  shows "takeWhile is_hex (hex_text n @ r) = hex_text n"
  using hex_text_ok(1) [OF assms(1,2)] assms(3) by (cases r) (auto simp: takeWhile_append)

text \<open>One round of the loop, by what follows the group.\<close>

lemma groups_last:
  assumes "0 \<le> g" "g < 65536" "length gs < 8"
  shows "ipv6_groups gs e (hex_text g) = Some (gs @ [g], e, [])"
  unfolding ipv6_groups.simps [of gs e "hex_text g"]
  using hex_text_ok [OF assms(1,2)] assms(3) by (simp add: Let_def takeWhile_eq_all_conv [THEN iffD2])

lemma groups_colon:
  assumes "0 \<le> g" "g < 65536" "length gs < 8" "r \<noteq> []" "hd r \<noteq> CHR '':''"
  shows "ipv6_groups gs e (hex_text g @ CHR '':'' # r) = ipv6_groups (gs @ [g]) e r"
proof -
  have "\<not> is_hex (CHR '':'')" by code_simp
  then show ?thesis
    unfolding ipv6_groups.simps [of gs e "hex_text g @ CHR '':'' # r"]
    using hex_text_ok [OF assms(1,2)] hex_span [OF assms(1,2), of "CHR '':'' # r"] assms(3-5) by (simp add: Let_def)
qed

lemma groups_ellipsis:
  assumes "0 \<le> g" "g < 65536" "length gs < 8"
  shows "ipv6_groups gs None (hex_text g @ CHR '':'' # CHR '':'' # r) =
    (if r = [] then Some (gs @ [g], Some (length gs + 1), []) else ipv6_groups (gs @ [g]) (Some (length gs + 1)) r)"
proof -
  have "\<not> is_hex (CHR '':'')" by code_simp
  then show ?thesis
    unfolding ipv6_groups.simps [of gs None "hex_text g @ CHR '':'' # CHR '':'' # r"]
    using hex_text_ok [OF assms(1,2)] hex_span [OF assms(1,2), of "CHR '':'' # CHR '':'' # r"] assms(3) by (simp add: Let_def)
qed

definition group_list :: "int list \<Rightarrow> bool" where
  "group_list gs \<longleftrightarrow> (\<forall>g \<in> set gs. 0 \<le> g \<and> g < 65536)"

abbreviation join_groups :: "int list \<Rightarrow> string" where
  "join_groups gs \<equiv> join_on (CHR '':'') (map hex_text gs)"

lemma hex_text_hd: "0 \<le> g \<Longrightarrow> g < 65536 \<Longrightarrow> hex_text g \<noteq> [] \<and> hd (hex_text g) \<noteq> CHR '':''"
proof -
  assume g: "0 \<le> g" "g < 65536"
  have "\<not> is_hex (CHR '':'')" by code_simp
  with hex_text_ok(1,2) [OF g] show ?thesis by (metis list.set_sel(1))
qed

lemma join_groups_hd:
  assumes "group_list gs" "gs \<noteq> []"
  shows "join_groups gs \<noteq> []" "hd (join_groups gs @ s) \<noteq> CHR '':''"
proof -
  from assms(2) obtain g r where gs: "gs = g # r" by (cases gs) auto
  then obtain t where "join_groups gs = hex_text g @ t" by (cases r) auto
  with hex_text_hd [of g] assms(1) gs show "join_groups gs \<noteq> []" "hd (join_groups gs @ s) \<noteq> CHR '':''"
    by (auto simp: group_list_def)
qed

lemma join_on_Cons: "ss \<noteq> [] \<Longrightarrow> join_on c (s # ss) = s @ c # join_on c ss"
  by (cases ss) auto

lemma groups_join:
  assumes "group_list hs" "hs \<noteq> []" "length gs + length hs \<le> 8"
  shows "ipv6_groups gs e (join_groups hs) = Some (gs @ hs, e, [])"
  using assms
proof (induction hs arbitrary: gs)
  case (Cons g hs)
  then have g: "0 \<le> g" "g < 65536" "group_list hs" "length gs < 8" by (auto simp: group_list_def)
  show ?case
  proof (cases "hs = []")
    case True
    then show ?thesis using groups_last [OF g(1,2,4)] by simp
  next
    case False
    then show ?thesis
      using Cons.IH [of "gs @ [g]"] Cons.prems g join_groups_hd(1) [OF g(3) False] join_groups_hd(2) [OF g(3) False, of "[]"] groups_colon [OF g(1,2,4)]
      by (simp add: join_on_Cons)
  qed
qed simp

lemma groups_pre_post:
  assumes "group_list pre" "group_list post" "pre \<noteq> []" "length gs + length pre + length post \<le> 8"
  shows "ipv6_groups gs None (join_groups pre @ ''::'' @ join_groups post) = Some (gs @ pre @ post, Some (length gs + length pre), [])"
  using assms
proof (induction pre arbitrary: gs)
  case (Cons g pre)
  then have g: "0 \<le> g" "g < 65536" "group_list pre" "length gs < 8" by (auto simp: group_list_def)
  show ?case
  proof (cases "pre = []")
    case True
    show ?thesis
    proof (cases "post = []")
      case False
      then show ?thesis
        using True Cons.prems groups_ellipsis [OF g(1,2,4), of "join_groups post"] join_groups_hd(1) [OF Cons.prems(2) False]
          groups_join [OF Cons.prems(2) False, of "gs @ [g]"] by simp
    qed (use True groups_ellipsis [OF g(1,2,4), of "[]"] in simp)
  next
    case False
    then show ?thesis
      using Cons.IH [of "gs @ [g]"] Cons.prems g join_groups_hd [OF g(3) False] groups_colon [OF g(1,2,4)]
      by (simp add: join_on_Cons)
  qed
qed simp

section \<open>The ellipsis\<close>

lemma zero_run_split: "take i gs @ replicate (zero_run gs i) 0 @ drop (i + zero_run gs i) gs = gs"
proof -
  have "takeWhile (\<lambda>g. g = 0) (drop i gs) = replicate (zero_run gs i) 0"
    unfolding zero_run_def by (rule replicate_length_same [symmetric]) (auto dest: set_takeWhileD)
  then have "drop i gs = replicate (zero_run gs i) 0 @ drop (zero_run gs i) (drop i gs)"
    unfolding zero_run_def by (metis append_take_drop_id takeWhile_eq_take)
  then show ?thesis by (metis add.commute append_take_drop_id drop_drop)
qed

lemma longest_zeros_run: "longest_zeros gs = Some (a, b) \<Longrightarrow> b = a + zero_run gs a \<and> 2 \<le> zero_run gs a"
proof -
  have "fold (\<lambda>i best. let l = zero_run gs i in
       if l \<ge> 2 \<and> (case best of None \<Rightarrow> True | Some (a, b) \<Rightarrow> l > b - a) then Some (i, i + l) else best) is best = Some (a, b) \<Longrightarrow>
    (best = Some (a, b) \<longrightarrow> b = a + zero_run gs a \<and> 2 \<le> zero_run gs a) \<Longrightarrow>
    (\<And>a b. best = Some (a, b) \<Longrightarrow> b = a + zero_run gs a \<and> 2 \<le> zero_run gs a) \<Longrightarrow> b = a + zero_run gs a \<and> 2 \<le> zero_run gs a" for "is" best
  proof (induction "is" arbitrary: best)
    case (Cons i "is")
    show ?case
      using Cons.prems(1) by (simp only: fold_Cons o_apply) (rule Cons.IH, assumption, auto simp: Let_def dest: Cons.prems(3) split: if_splits)
  qed auto
  then show "longest_zeros gs = Some (a, b) \<Longrightarrow> ?thesis" unfolding longest_zeros_def by blast
qed

lemma longest_zeros_split:
  assumes "longest_zeros gs = Some (a, b)"
  shows "take a gs @ replicate (b - a) 0 @ drop b gs = gs" "2 \<le> b - a" "a < b"
  using longest_zeros_run [OF assms] zero_run_split [of a gs] by auto

lemma expand_zeros:
  assumes "pre @ replicate n 0 @ post = gs" "length gs = 8" "0 < n"
  shows "expand_ellipsis (pre @ post, Some (length pre), []) = Some gs"
proof -
  have "length pre + n + length post = 8" using assms(1,2) by (metis length_append length_replicate add.assoc)
  with assms(1,3) show ?thesis by (auto simp: expand_ellipsis_def)
qed

lemma number_zeros: "number base (replicate n 0) = 0"
  unfolding number_def by (induction n) auto

text \<open>The groups that parsing an address's text finds.\<close>

definition read_groups :: "string \<Rightarrow> int list option" where
  "read_groups s = Option.bind (if take 2 s = ''::'' then ipv6_groups [] (Some 0) (drop 2 s) else ipv6_groups [] None s) expand_ellipsis"

lemma not_colons: "group_list gs \<Longrightarrow> gs \<noteq> [] \<Longrightarrow> take 2 (join_groups gs @ s) \<noteq> ''::''"
  using join_groups_hd(1) [of gs] join_groups_hd(2) [of gs s] by (cases "join_groups gs @ s") auto

lemma read_string6:
  assumes "group_list gs" "length gs = 8"
  shows "string6 gs = ''::'' \<and> gs = replicate 8 0 \<or> string6 gs \<noteq> ''::'' \<and> read_groups (string6 gs) = Some gs"
proof (cases "longest_zeros gs")
  case None
  have "gs \<noteq> []" using assms(2) by auto
  with None not_colons [OF assms(1) this, of "[]"] groups_join [OF assms(1) this, of "[]" None] assms(2) show ?thesis
    by (auto simp: string6_def read_groups_def expand_ellipsis_def)
next
  case (Some ab)
  then obtain a b where ab: "longest_zeros gs = Some (a, b)" by (cases ab) auto
  define pre post where "pre = take a gs" and "post = drop b gs"
  note split = longest_zeros_split [OF ab, folded pre_def post_def]
  have gl: "group_list pre" "group_list post" using assms(1) by (auto simp: group_list_def pre_def post_def dest: in_set_takeD in_set_dropD)
  have len: "length pre + length post \<le> 8" using arg_cong [OF split(1), of length] assms(2) by simp
  have str: "string6 gs = join_groups pre @ ''::'' @ join_groups post" using ab by (simp add: string6_def pre_def post_def)
  have expand: "expand_ellipsis (pre @ post, Some (length pre), []) = Some gs" using expand_zeros [OF split(1) assms(2)] split(3) by simp
  show ?thesis
  proof (cases "pre = []")
    case True
    show ?thesis
    proof (cases "post = []")
      case True
      then have "replicate (b - a) 0 = gs" using split(1) \<open>pre = []\<close> by simp
      with assms(2) have "gs = replicate 8 0" by auto
      with True \<open>pre = []\<close> str show ?thesis by simp
    next
      case False
      with \<open>pre = []\<close> str join_groups_hd(1) [OF gl(2) False] groups_join [OF gl(2) False, of "[]" "Some 0"] len expand show ?thesis
        by (simp add: read_groups_def)
    qed
  next
    case False
    have "take 2 (string6 gs) \<noteq> ''::''" unfolding str by (rule not_colons [OF gl(1) False])
    moreover from this have "string6 gs \<noteq> ''::''" by force
    moreover have "ipv6_groups [] None (string6 gs) = Some (pre @ post, Some (length pre), [])"
      unfolding str using groups_pre_post [OF gl False, of "[]"] len by simp
    ultimately show ?thesis using expand by (simp add: read_groups_def)
  qed
qed

section \<open>Round trips\<close>

text \<open>Which bytes a text has.\<close>

lemma dec_text_chars: "0 \<le> n \<Longrightarrow> n < 256 \<Longrightarrow> c \<in> set (dec_text n) \<Longrightarrow> 48 \<le> byte c \<and> byte c \<le> 57"
  by (auto simp: dec_text_def dec_char_def split: if_splits)

lemma join_on_chars: "c \<in> set (join_on d ss) \<Longrightarrow> c = d \<or> (\<exists>s \<in> set ss. c \<in> set s)"
  by (induction d ss rule: join_on.induct) auto

lemma string4_chars: "c \<in> set (string4 x) \<Longrightarrow> c = CHR ''.'' \<or> 48 \<le> byte c \<and> byte c \<le> 57"
proof -
  assume "c \<in> set (string4 x)"
  then have "c = CHR ''.'' \<or> (\<exists>n \<in> set (octets_of x). c \<in> set (dec_text n))"
    unfolding string4_def using join_on_chars [of c "CHR ''.''" "map dec_text (octets_of x)"] by simp
  then show ?thesis using dec_text_chars octets_range by blast
qed

lemma string4_dot: "CHR ''.'' \<in> set (string4 x)"
  by (simp add: string4_def octets_of_def)

lemma is_hex_chars: "is_hex c \<Longrightarrow> c \<notin> set ''.:%[''"
  by (auto simp: is_hex_def hex_digit_def Let_def)

lemma group_list_groups: "group_list (groups_of x)"
  by (auto simp: group_list_def groups_of_def)

lemma string6_chars:
  assumes "group_list gs" "c \<in> set (string6 gs)"
  shows "c = CHR '':'' \<or> is_hex c"
proof -
  have "c = CHR '':'' \<or> (\<exists>g \<in> set gs. c \<in> set (hex_text g))"
    using assms(2) by (auto simp: string6_def split: option.splits dest!: join_on_chars) (blast dest: in_set_takeD in_set_dropD)+
  with assms(1) hex_text_ok(1) show ?thesis by (auto simp: group_list_def)
qed

lemma string6_colon: "length gs = 8 \<Longrightarrow> CHR '':'' \<in> set (string6 gs)"
proof -
  assume "length gs = 8"
  then obtain a b r where "gs = a # b # r" by (auto simp: numeral_eq_Suc length_Suc_conv)
  then show ?thesis by (auto simp: string6_def join_on_Cons split: option.splits)
qed

lemma find_first: "c \<in> set s \<Longrightarrow> P c \<Longrightarrow> \<forall>d \<in> set s. P d \<longrightarrow> d = c \<Longrightarrow> List.find P s = Some c"
proof (induction s)
  case (Cons a s)
  show ?case
  proof (cases "P a")
    case True
    then have "a = c" using Cons.prems(3) by (meson list.set_intros(1))
    then show ?thesis using True by simp
  next
    case False
    then have "c \<in> set s" "\<forall>d \<in> set s. P d \<longrightarrow> d = c" using Cons.prems by (metis set_ConsD, metis list.set_intros(2))
    then have "List.find P s = Some c" using Cons.IH Cons.prems(2) by blast
    then show ?thesis using False by simp
  qed
qed simp

lemma find_before: "List.find P s = Some c \<Longrightarrow> List.find P (s @ t) = Some c"
  by (induction s) auto

lemma cut_zone: "CHR ''%'' \<notin> set s \<Longrightarrow> cut_at (CHR ''%'') (with_zone_text s z) = (s, z, z \<noteq> [])"
  using cut_at_join [of "CHR ''%''" s z] by (auto simp: with_zone_text_def cut_at_def dropWhile_eq_Nil_conv takeWhile_eq_all_conv)

text \<open>An address as the middleware writes it: one that is not a mapped address of version 4.\<close>

lemma ParseAddr_String:
  assumes "\<not> Is4In6 a" shows "ParseAddr (Addr_String a) = Some a"
proof (cases a)
  case (V4 x)
  have "List.find (\<lambda>c. c \<in> set ''.:%'') (string4 x) = Some (CHR ''.'')"
    using string4_dot [of x] string4_chars [of "CHR '':''" x] string4_chars [of "CHR ''%''" x]
    by (intro find_first) auto
  then show ?thesis using V4 parse_string4 by (simp add: ParseAddr_def Addr_String_def)
next
  case (V6 x z)
  let ?s = "string6 (groups_of x)"
  have chars: "c \<in> set ?s \<Longrightarrow> c = CHR '':'' \<or> c \<notin> set ''.:%[''" for c
    using string6_chars [OF group_list_groups] is_hex_chars by blast
  have len: "length (groups_of x) = 8" by (simp add: groups_of_def)
  have "List.find (\<lambda>c. c \<in> set ''.:%'') ?s = Some (CHR '':'')"
    using string6_colon [OF len] chars by (intro find_first) auto
  then have "List.find (\<lambda>c. c \<in> set ''.:%'') (with_zone_text ?s z) = Some (CHR '':'')"
    by (simp add: with_zone_text_def find_before)
  moreover have "cut_at (CHR ''%'') (with_zone_text ?s z) = (?s, z, z \<noteq> [])" using chars by (intro cut_zone) auto
  moreover have "take 2 ?s = ''::'' \<and> length ?s = 2 \<longleftrightarrow> ?s = ''::''" by (auto simp: take_Suc numeral_2_eq_2 length_Suc_conv)
  moreover have "?s = ''::'' \<and> x = 0 \<or> ?s \<noteq> ''::'' \<and> read_groups ?s = Some (groups_of x)"
  proof -
    have "x = 0" if "groups_of x = replicate 8 0"
      using groups_number [of x] number_zeros [of 65536 8] that by (simp add: uint_0_iff)
    with read_string6 [OF group_list_groups len] show ?thesis by blast
  qed
  ultimately have "ParseAddr (with_zone_text ?s z) = Some (V6 x z)"
    using groups_number [of x] by (auto simp: ParseAddr_def parseIPv6_def read_groups_def [symmetric])
  then show ?thesis using V6 assms by (simp add: Addr_String_def)
qed

lemma cut_last_join: "c \<notin> set b \<Longrightarrow> cut_last c (a @ c # b) = Some (a, b)"
  using cut_at_join [of c "rev b" "rev a"] by (simp add: cut_last_def)

theorem ParseAddrPort_JoinHostPort:
  assumes "\<not> Is4In6 a" shows "ParseAddrPort (JoinHostPort (Addr_String a) ''0'') = Some (a, 0)"
proof -
  have port: "parse_port ''0'' = Some 0" by code_simp
  show ?thesis
  proof (cases a)
    case (V4 x)
    have chars: "CHR '':'' \<notin> set (string4 x)" "CHR ''['' \<notin> set (string4 x)" "string4 x \<noteq> []"
      using string4_chars string4_dot [of x] by fastforce+
    then have "hd (string4 x) \<noteq> CHR ''[''" by (metis hd_in_set)
    with V4 chars port ParseAddr_String [OF assms] show ?thesis
      by (simp add: JoinHostPort_def Addr_String_def ParseAddrPort_def cut_last_join Is4_def)
  next
    case (V6 x z)
    have "CHR '':'' \<in> set (Addr_String a)"
      using V6 assms string6_colon [of "groups_of x"] by (simp add: Addr_String_def with_zone_text_def groups_of_def)
    moreover have "cut_last (CHR '':'') ((''['' @ Addr_String a @ '']'') @ CHR '':'' # ''0'') = Some (''['' @ Addr_String a @ '']'', ''0'')"
      by (rule cut_last_join) simp
    ultimately show ?thesis using V6 port ParseAddr_String [OF assms]
      by (simp add: JoinHostPort_def ParseAddrPort_def Is4_def)
  qed
qed

end
