(* ===== verification/Netip_Props.thy ===== *)
theory Netip_Props
  imports Netip_Text
begin

text \<open>
  What a prefix contains, as intervals of numbers; masking; and mapped addresses of version 4.
\<close>

section \<open>Ranges of words\<close>

text \<open>Two words agree in their first bits when they are in the same block of numbers.\<close>

definition same_block :: "nat \<Rightarrow> 'a::len word \<Rightarrow> 'a word \<Rightarrow> bool" where
  "same_block n x y \<longleftrightarrow> uint x div 2 ^ (LENGTH('a) - n) = uint y div 2 ^ (LENGTH('a) - n)"

lemma same_block_bits: "same_block n (x :: 'a::len word) y \<longleftrightarrow> (\<forall>i < LENGTH('a). LENGTH('a) - n \<le> i \<longrightarrow> bit x i = bit y i)"
proof -
  let ?k = "LENGTH('a) - n"
  have "same_block n x y \<longleftrightarrow> drop_bit ?k (uint x) = drop_bit ?k (uint y)" by (simp add: same_block_def drop_bit_eq_div)
  also have "\<dots> \<longleftrightarrow> (\<forall>i. bit (uint x) (?k + i) = bit (uint y) (?k + i))" by (simp add: bit_eq_iff bit_drop_bit_eq)
  also have "\<dots> \<longleftrightarrow> (\<forall>i. ?k \<le> i \<longrightarrow> bit (uint x) i = bit (uint y) i)" by (metis le_add1 le_add_diff_inverse)
  also have "\<dots> \<longleftrightarrow> (\<forall>i < LENGTH('a). ?k \<le> i \<longrightarrow> bit x i = bit y i)" by (auto simp: bit_uint_iff)
  finally show ?thesis .
qed

lemma xor_zero: "a XOR b = 0 \<longleftrightarrow> a = (b :: 'a::len word)"
  by (auto simp: bit_eq_iff bit_simps)

lemma xor_block4: "drop_bit (32 - n) (y XOR x) = 0 \<longleftrightarrow> same_block n x (y :: 32 word)"
proof -
  have "drop_bit (32 - n) (y XOR x) = 0 \<longleftrightarrow> uint (drop_bit (32 - n) x) = uint (drop_bit (32 - n) y)"
    by (simp add: xor_zero) (metis word_uint_eqI)
  moreover have "uint (drop_bit (32 - n) w) = uint w div 2 ^ (32 - n)" for w :: "32 word"
  proof -
    have "uint (drop_bit (32 - n) w) = drop_bit (32 - n) (take_bit LENGTH(32) (uint w))" by (rule unsigned_drop_bit_eq)
    also have "take_bit LENGTH(32) (uint w) = uint w" using uint_lt2p [of w] by (intro take_bit_int_eq_self) simp_all
    finally show ?thesis unfolding drop_bit_eq_div [of _ "uint w"] .
  qed
  ultimately show ?thesis by (simp only: same_block_def) simp
qed

lemma bit_mask6: "bit (mask6 n) i \<longleftrightarrow> i < 128 \<and> 128 - n \<le> i" if "n \<le> 128"
  using that by (auto simp: mask6_def bit_push_bit_iff bit_mask_iff)

lemma xor_block6: "(y XOR x) AND mask6 n = 0 \<longleftrightarrow> same_block n x (y :: 128 word)" if "n \<le> 128"
  unfolding same_block_bits using that
  by (auto simp: bit_eq_iff bit_and_iff bit_xor_iff bit_mask6)

section \<open>Prefixes\<close>

text \<open>A prefix as \<open>netip\<close> builds them: no zone, and at most as many bits as its address has.\<close>

definition wf_prefix :: "Prefix \<Rightarrow> bool" where
  "wf_prefix p \<longleftrightarrow> Zone (pf_Addr p) = [] \<and> -1 \<le> pf_Bits p \<and> pf_Bits p \<le> BitLen (pf_Addr p)"

text \<open>The addresses a range means: those of its family, without a zone, in the block of its address.\<close>

definition in_range :: "Prefix \<Rightarrow> Addr \<Rightarrow> bool" where
  "in_range p a \<longleftrightarrow> 0 \<le> pf_Bits p \<and>
     (case (pf_Addr p, a) of
        (V4 x, V4 y) \<Rightarrow> same_block (nat (pf_Bits p)) x y
      | (V6 x _, V6 y z) \<Rightarrow> z = [] \<and> same_block (nat (pf_Bits p)) x y
      | _ \<Rightarrow> False)"

lemma wf_PrefixFrom [simp]: "wf_prefix (PrefixFrom a n)"
  by (cases a) (auto simp: wf_prefix_def PrefixFrom_def Zone_def WithZone_def BitLen_def)

lemma Contains_in_range: "wf_prefix p \<Longrightarrow> Contains p a \<longleftrightarrow> in_range p a"
  by (cases "pf_Addr p"; cases a)
    (auto simp: Contains_def in_range_def IsValid_def Zone_def wf_prefix_def BitLen_def xor_block4 xor_block6 simp del: drop_bit_xor)

lemma Masked_simps [simp]: "pf_Bits (Masked p) = pf_Bits p" "BitLen (pf_Addr (Masked p)) = BitLen (pf_Addr p)"
  "Zone (pf_Addr (Masked p)) = Zone (pf_Addr p)"
  by (auto simp: Masked_def BitLen_def Zone_def split: Addr.splits)

lemma wf_Masked [simp]: "wf_prefix (Masked p) \<longleftrightarrow> wf_prefix p"
  by (simp add: wf_prefix_def)

lemma same_block_mask:
  "n \<le> 32 \<Longrightarrow> same_block n (x AND push_bit (32 - n) (mask n)) y \<longleftrightarrow> same_block n (x :: 32 word) y"
  "n \<le> 128 \<Longrightarrow> same_block n (w AND mask6 n) v \<longleftrightarrow> same_block n (w :: 128 word) v"
  unfolding same_block_bits by (auto simp: bit_and_iff bit_mask6 bit_push_bit_iff bit_mask_iff)

lemma in_range_Masked: "wf_prefix p \<Longrightarrow> in_range (Masked p) a \<longleftrightarrow> in_range p a"
  by (cases "pf_Addr p"; cases a) (auto simp: in_range_def Masked_def IsValid_def wf_prefix_def BitLen_def same_block_mask)

lemma Masked_idem [simp]: "Masked (Masked p) = Masked p"
  by (cases "pf_Addr p") (auto simp: Masked_def IsValid_def and.assoc)

text \<open>A range with at least one bit leaves out half of its family.\<close>

lemma other_half:
  assumes "wf_prefix p" "0 < pf_Bits p"
  shows "\<exists>a. BitLen a = BitLen (pf_Addr p) \<and> \<not> Contains p a"
proof (cases "pf_Addr p")
  case (V4 x)
  have "bit (NOT x) 31 \<noteq> bit x 31" by (simp add: bit_not_iff)
  then have "\<not> same_block (nat (pf_Bits p)) x (NOT x)"
    unfolding same_block_bits using assms(2) by (auto intro!: exI [of _ 31])
  with V4 assms(1) show ?thesis by (intro exI [of _ "V4 (NOT x)"]) (simp add: Contains_in_range in_range_def BitLen_def)
next
  case (V6 x z)
  have "bit (NOT x) 127 \<noteq> bit x 127" by (simp add: bit_not_iff)
  then have "\<not> same_block (nat (pf_Bits p)) x (NOT x)"
    unfolding same_block_bits using assms(2) by (auto intro!: exI [of _ 127])
  with V6 assms(1) show ?thesis by (intro exI [of _ "V6 (NOT x) []"]) (simp add: Contains_in_range in_range_def BitLen_def)
qed

section \<open>Mapped addresses\<close>

definition mapped :: "32 word \<Rightarrow> 128 word" where
  "mapped y = push_bit 32 0xFFFF OR ucast y"

lemma bit_FFFF: "bit (0xFFFF :: 128 word) i \<longleftrightarrow> i < 16"
proof -
  have "(0xFFFF :: 128 word) = mask 16" by (simp add: mask_eq_exp_minus_1)
  then show ?thesis by (simp only: bit_mask_iff) auto
qed

lemma bit_mapped: "bit (mapped y) i \<longleftrightarrow> (if i < 32 then bit y i else i < 48)"
  unfolding mapped_def bit_or_iff bit_push_bit_iff bit_FFFF bit_ucast_iff by (auto dest: bit_imp_le_length)

lemma Is4In6_bits: "Is4In6 (V6 x z) \<longleftrightarrow> (\<forall>i < 128. 32 \<le> i \<longrightarrow> bit x i = (i < 48))"
proof -
  have "Is4In6 (V6 x z) \<longleftrightarrow> (\<forall>i. bit x (32 + i) = (i < 16))"
  proof -
    have "drop_bit 32 x = 0xFFFF \<longleftrightarrow> (\<forall>i. bit (drop_bit 32 x) i = bit (0xFFFF :: 128 word) i)" by (metis bit_eqI)
    then show ?thesis unfolding bit_FFFF bit_drop_bit_eq by (simp add: Is4In6_def)
  qed
  also have "\<dots> \<longleftrightarrow> (\<forall>i < 128. 32 \<le> i \<longrightarrow> bit x i = (i < 48))"
  proof
    assume l: "\<forall>i. bit x (32 + i) = (i < 16)"
    show "\<forall>i < 128. 32 \<le> i \<longrightarrow> bit x i = (i < 48)"
    proof (intro allI impI)
      fix i :: nat assume "i < 128" "32 \<le> i"
      then show "bit x i = (i < 48)" using l [rule_format, of "i - 32"] by auto
    qed
  next
    assume r: "\<forall>i < 128. 32 \<le> i \<longrightarrow> bit x i = (i < 48)"
    show "\<forall>i. bit x (32 + i) = (i < 16)"
    proof
      fix i
      show "bit x (32 + i) = (i < 16)" using r [rule_format, of "32 + i"] bit_imp_le_length [of x "32 + i"] by (cases "32 + i < 128") auto
    qed
  qed
  finally show ?thesis .
qed

lemma mapped_ucast: "Is4In6 (V6 x z) \<Longrightarrow> mapped (ucast x) = x"
  unfolding Is4In6_bits by (auto simp: bit_eq_iff bit_mapped bit_ucast_iff dest: bit_imp_le_length)

lemma Unmap_not_mapped [simp]: "\<not> Is4In6 (Unmap a)"
  by (cases a) (auto simp: Unmap_def Is4In6_def)

lemma Unmap_id: "\<not> Is4In6 a \<Longrightarrow> Unmap a = a"
  by (cases a) (auto simp: Unmap_def)

lemma WithZone_mapped: "Is4In6 (WithZone a z) \<longleftrightarrow> Is4In6 a"
  by (cases a) (auto simp: Is4In6_def WithZone_def)

text \<open>The block of a mapped range, without its first 96 bits.\<close>

lemma same_block_mapped:
  assumes "Is4In6 (V6 x z)" "96 \<le> n" "n \<le> 128"
  shows "same_block (n - 96) (ucast x :: 32 word) y \<longleftrightarrow> same_block n x (mapped y)"
proof
  assume l: "same_block (n - 96) (ucast x :: 32 word) y"
  show "same_block n x (mapped y)"
    unfolding same_block_bits
  proof (intro allI impI)
    fix i assume i: "i < LENGTH(128)" "LENGTH(128) - n \<le> i"
    show "bit x i = bit (mapped y) i"
    proof (cases "i < 32")
      case True
      then have "bit (ucast x :: 32 word) i = bit y i"
        using l i(2) assms(2,3) by (simp add: same_block_bits)
      with True show ?thesis by (simp add: bit_mapped bit_ucast_iff)
    next
      case False
      then show ?thesis using assms(1) i(1) unfolding Is4In6_bits by (simp add: bit_mapped)
    qed
  qed
next
  assume r: "same_block n x (mapped y)"
  show "same_block (n - 96) (ucast x :: 32 word) y"
    unfolding same_block_bits
  proof (intro allI impI)
    fix i assume i: "i < LENGTH(32)" "LENGTH(32) - (n - 96) \<le> i"
    then have "bit x i = bit (mapped y) i" using r assms(2,3) by (simp add: same_block_bits)
    with i(1) show "bit (ucast x :: 32 word) i = bit y i" by (simp add: bit_mapped bit_ucast_iff)
  qed
qed

text \<open>Masking makes no range a mapped one.\<close>

lemma Masked_not_mapped:
  assumes "wf_prefix p" "\<not> Is4In6 (pf_Addr p)" "IsValid p"
  shows "\<not> Is4In6 (pf_Addr (Masked p))"
proof (cases "pf_Addr p")
  case (V4 x)
  then show ?thesis by (simp add: Masked_def Is4In6_def)
next
  case (V6 x z)
  let ?n = "nat (pf_Bits p)"
  have n: "?n \<le> 128" using assms(1) V6 by (simp add: wf_prefix_def BitLen_def nat_le_iff)
  have "\<not> Is4In6 (V6 (x AND mask6 ?n) z)"
  proof
    assume m: "Is4In6 (V6 (x AND mask6 ?n) z)"
    then have "bit (x AND mask6 ?n) 32" unfolding Is4In6_bits by simp
    then have "128 - ?n \<le> 32" using n by (simp add: bit_and_iff bit_mask6)
    then have "96 \<le> ?n" by linarith
    then have "Is4In6 (V6 x z)" using m n unfolding Is4In6_bits by (auto simp: bit_and_iff bit_mask6)
    with assms(2) V6 show False by simp
  qed
  with V6 assms(3) show ?thesis by (simp add: Masked_def)
qed

end
