(* ===== verification/Httpx_Props.thy ===== *)
theory Httpx_Props
  imports Httpx Netip_Props
begin

text \<open>
  What the middleware guarantees: a client behind trusted proxies cannot choose the address others see, the address
  filter decides by the ranges as they were written, request IDs are safe to log, and credentials are shared with listed
  origins only.
\<close>

lemma map_sum_Inr: "map_sum f g x = Inr y \<longleftrightarrow> (\<exists>z. x = Inr z \<and> y = g z)"
  by (cases x) auto

section \<open>Ranges as written\<close>

lemma canonical_same: "canonicalPrefix p = ip_canonicalPrefix p"
  by (simp add: canonicalPrefix_def ip_canonicalPrefix_def)

text \<open>What a range written by an operator means for an address as it is compared: a mapped range means its addresses of version 4.\<close>

definition written_range :: "Prefix \<Rightarrow> Addr \<Rightarrow> bool" where
  "written_range p a \<longleftrightarrow>
     (if Is4In6 (pf_Addr p) then (case a of V4 y \<Rightarrow> in_range p (V6 (mapped y) []) | V6 _ _ \<Rightarrow> False) else in_range p a)"

lemma canonicalPrefix_Inr:
  assumes "canonicalPrefix p = Inr c" "wf_prefix p"
  shows "wf_prefix c" "Contains c a \<longleftrightarrow> written_range p a" "canonicalPrefix c = Inr c" "0 \<le> pf_Bits c"
    "pf_Bits c = 0 \<longleftrightarrow> pf_Bits p = (if Is4In6 (pf_Addr p) then 96 else 0)"
proof -
  let ?m = "Is4In6 (pf_Addr p)"
  let ?q = "if ?m then PrefixFrom (Unmap (pf_Addr p)) (pf_Bits p - 96) else p"
  have p: "IsValid p" "?m \<longrightarrow> 96 \<le> pf_Bits p" and c: "c = Masked ?q" using assms(1) by (auto simp: canonicalPrefix_def split: if_splits)
  have m: "\<exists>x. pf_Addr p = V6 x [] \<and> ?q = \<lparr>pf_Addr = V4 (ucast x), pf_Bits = pf_Bits p - 96\<rparr>" if ?m
  proof (cases "pf_Addr p")
    case (V6 x z)
    then show ?thesis using that assms(2) p
      by (auto simp: PrefixFrom_def Unmap_def WithZone_def BitLen_def wf_prefix_def Zone_def)
  qed (use that in \<open>simp add: Is4In6_def\<close>)
  have q: "wf_prefix ?q" "IsValid ?q" "\<not> Is4In6 (pf_Addr ?q)"
  proof -
    show "wf_prefix ?q" using assms(2) by simp
    show "IsValid ?q" using p m by (cases ?m) (auto simp: IsValid_def)
    show "\<not> Is4In6 (pf_Addr ?q)" using m by (cases ?m) (auto simp: Is4In6_def)
  qed
  then show wf: "wf_prefix c" by (simp add: c)
  show "0 \<le> pf_Bits c" using q(2) by (simp add: c IsValid_def)
  show "pf_Bits c = 0 \<longleftrightarrow> pf_Bits p = (if ?m then 96 else 0)" using m by (cases ?m) (auto simp: c)
  have "\<not> Is4In6 (pf_Addr c)" "IsValid c" using Masked_not_mapped [OF q(1,3,2)] q(2) by (simp_all add: c IsValid_def)
  then show "canonicalPrefix c = Inr c" unfolding canonicalPrefix_def by (simp add: c)
  have "Contains c a \<longleftrightarrow> in_range ?q a" unfolding Contains_in_range [OF wf] by (simp add: c in_range_Masked [OF q(1)])
  also have "\<dots> \<longleftrightarrow> written_range p a"
  proof (cases ?m)
    case True
    then obtain x where x: "pf_Addr p = V6 x []" "?q = \<lparr>pf_Addr = V4 (ucast x), pf_Bits = pf_Bits p - 96\<rparr>" using m by blast
    have n: "96 \<le> nat (pf_Bits p)" "nat (pf_Bits p) \<le> 128" "nat (pf_Bits p - 96) = nat (pf_Bits p) - 96"
      using p True assms(2) x(1) by (auto simp: wf_prefix_def BitLen_def nat_le_iff)
    have "Is4In6 (V6 x [])" using True x(1) by simp
    note blocks = same_block_mapped [OF this n(1,2)]
    show ?thesis unfolding x(2) written_range_def using True x(1) p n(3)
      by (cases a) (auto simp: in_range_def blocks IsValid_def)
  qed (simp add: written_range_def)
  finally show "Contains c a \<longleftrightarrow> written_range p a" .
qed

lemma canonicalPrefixes_id: "list_all (\<lambda>p. canonicalPrefix p = Inr p) ps \<Longrightarrow> canonicalPrefixes ps = ps"
  by (induction ps) auto

lemma ParsePrefix_wf: "ParsePrefix s = Some p \<Longrightarrow> wf_prefix p"
  by (auto simp: ParsePrefix_def split: option.splits prod.splits if_splits)

lemma parse_item_wf: "parse_item s = Some p \<Longrightarrow> wf_prefix p"
  using ParsePrefix_wf by (auto simp: parse_item_def split: option.splits if_splits)

lemma trusted_items_sound:
  "trusted_items items = Inr ps \<Longrightarrow> list_all (\<lambda>p. wf_prefix p \<and> canonicalPrefix p = Inr p \<and> 0 < pf_Bits p) ps"
proof (induction items arbitrary: ps)
  case (Cons item items)
  show ?case
  proof (cases "TrimSpace item = []")
    case False
    then obtain q c qs where "parse_item (TrimSpace item) = Some q" "canonicalPrefix q = Inr c" "pf_Bits c \<noteq> 0"
      "trusted_items items = Inr qs" "ps = c # qs"
      using Cons.prems by (auto simp: Let_def map_sum_Inr split: option.splits sum.splits if_splits)
    then show ?thesis using Cons.IH parse_item_wf canonicalPrefix_Inr [of q c] by auto
  qed (use Cons in simp)
qed simp

section \<open>The forwarded client\<close>

lemma last_untrusted_walk:
  assumes "\<forall>hop \<in> set chain. \<exists>b. ParseAddr (TrimSpace hop) = Some b \<and> isTrusted (Unmap b) trusted"
  shows "last_untrusted trusted (chain @ hops) = last_untrusted trusted hops"
  using assms by (induction chain) auto

lemma remoteAddr_JoinHostPort: "\<not> Is4In6 a \<Longrightarrow> remoteAddr (JoinHostPort (Addr_String a) ''0'') = Some a"
  using ParseAddrPort_JoinHostPort [of a] by (simp add: remoteAddr_def Unmap_id)

text \<open>
  C33: Clients cannot choose the address the service sees. For a request whose peer is trusted and whose last hops are
  trusted proxies, the next handler sees the address of the hop before them, whatever stands to the left of it in the
  header; reading the new \<open>RemoteAddr\<close> gives exactly that address. A request from another peer is passed on as it is.
\<close>

theorem trusted_client:
  assumes "ParseTrustedProxies list = Inr trusted" "remoteAddr (ht_RemoteAddr r) = Some peer" "isTrusted peer trusted"
    and "forwarded_hops r = spoofed @ [hop] @ chain" "ParseAddr (TrimSpace hop) = Some a" "\<not> isTrusted (Unmap a) trusted"
    and "\<forall>hop \<in> set chain. \<exists>b. ParseAddr (TrimSpace hop) = Some b \<and> isTrusted (Unmap b) trusted"
    and "remoteAddr (ht_RemoteAddr outsider) = Some other" "\<not> isTrusted other trusted"
  shows "(\<exists>addr. TrustedProxies trusted next r h = next (r\<lparr>ht_RemoteAddr := addr\<rparr>) h \<and> remoteAddr addr = Some (Unmap a)) \<and>
    TrustedProxies trusted next outsider h = next outsider h"
proof -
  have "list_all (\<lambda>p. canonicalPrefix p = Inr p) trusted"
    using trusted_items_sound [of "split_on (CHR '','') list" trusted] assms(1) by (auto simp: ParseTrustedProxies_def list_all_iff)
  then have canon: "canonicalPrefixes trusted = trusted" by (rule canonicalPrefixes_id)
  have "trusted \<noteq> []" using assms(3) by (auto simp: isTrusted_def)
  have "last_untrusted trusted (rev (forwarded_hops r)) = Some (Unmap a)"
    unfolding assms(4) using last_untrusted_walk [of "rev chain" trusted "hop # rev spoofed"] assms(5-7) by simp
  then have "forwardedClient r trusted = Some (Unmap a)" using assms(2,3) by (simp add: forwardedClient_def)
  moreover have "forwardedClient outsider trusted = None" using assms(8,9) by (simp add: forwardedClient_def)
  ultimately show ?thesis
    using canon \<open>trusted \<noteq> []\<close> remoteAddr_JoinHostPort [of "Unmap a"] by (auto simp: TrustedProxies_def)
qed

text \<open>
  C37: A list of trusted proxies that is accepted trusts no whole family: every range in it leaves out addresses of its
  family, also when it was written in IPv6 form.
\<close>

theorem proxies_never_trust_all:
  assumes "ParseTrustedProxies list = Inr trusted" "p \<in> set trusted"
  shows "\<exists>a. BitLen a = BitLen (pf_Addr p) \<and> \<not> Contains p a"
proof -
  have "wf_prefix p" "0 < pf_Bits p"
    using trusted_items_sound [of "split_on (CHR '','') list" trusted] assms by (auto simp: ParseTrustedProxies_def list_all_iff)
  then show ?thesis by (rule other_half)
qed

section \<open>The address filter\<close>

lemma ip_canonicalPrefixes_Inr:
  "ip_canonicalPrefixes ps = Inr cs \<Longrightarrow> list_all wf_prefix ps \<Longrightarrow>
    (ip_contains cs a \<longleftrightarrow> (\<exists>p \<in> set ps. written_range p a)) \<and> (cs = [] \<longleftrightarrow> ps = [])"
proof (induction ps arbitrary: cs)
  case (Cons p ps)
  then obtain c ds where c: "ip_canonicalPrefix p = Inr c" "ip_canonicalPrefixes ps = Inr ds" "cs = c # ds"
    by (auto simp: map_sum_Inr split: sum.splits)
  have "Contains c a \<longleftrightarrow> written_range p a" using canonicalPrefix_Inr(2) [of p c a] c(1) Cons.prems(2) by (simp add: canonical_same)
  with Cons.IH [OF c(2)] Cons.prems(2) c(3) show ?case by (simp add: ip_contains_def)
qed (simp add: ip_contains_def)

text \<open>The filter's decision over the ranges as they were given.\<close>

definition address_served :: "Prefix list \<Rightarrow> Prefix list \<Rightarrow> Addr \<Rightarrow> bool" where
  "address_served allow deny a \<longleftrightarrow> (\<forall>p \<in> set deny. \<not> written_range p a) \<and> (allow = [] \<or> (\<exists>p \<in> set allow. written_range p a))"

text \<open>
  C36: The filter serves exactly the documented addresses: a request passes if and only if its \<open>RemoteAddr\<close> is an address in
  no deny range and, when there are allow ranges, in one of them, as they were written (a mapped range means its
  addresses of version 4; zones are ignored); any other request gets the 403 problem.
\<close>

theorem ipfilter_decides:
  assumes "ipfilter_New statusText allow deny = Inr mw" "list_all wf_prefix (allow @ deny)" "allow @ deny \<noteq> []"
  shows "mw next r h = (if \<exists>a. remoteAddr (ht_RemoteAddr r) = Some a \<and> address_served allow deny (WithZone a []) then next r h
    else WriteProblem r h (NewProblem statusText 403 ''ip_not_allowed'' ''requests from this network address are not allowed''))"
proof -
  from assms(1) obtain al de where c: "ip_canonicalPrefixes allow = Inr al" "ip_canonicalPrefixes deny = Inr de"
    and mw: "mw = (\<lambda>next. if al = [] \<and> de = [] then next else (\<lambda>r h. if ip_refused al de (ht_RemoteAddr r)
      then WriteProblem r h (NewProblem statusText 403 ''ip_not_allowed'' ''requests from this network address are not allowed'') else next r h))"
    by (auto simp: ipfilter_New_def split: sum.splits option.splits)
  note al = ip_canonicalPrefixes_Inr [OF c(1)] and de = ip_canonicalPrefixes_Inr [OF c(2)]
  have "ip_refused al de (ht_RemoteAddr r) \<longleftrightarrow>
    \<not> (\<exists>a. remoteAddr (ht_RemoteAddr r) = Some a \<and> address_served allow deny (WithZone a []))"
    using al de assms(2) by (cases "remoteAddr (ht_RemoteAddr r)") (auto simp: ip_refused_def address_served_def Let_def)
  moreover have "\<not> (al = [] \<and> de = [])" using al de assms(2,3) by auto
  ultimately show ?thesis unfolding mw by auto
qed

section \<open>Request IDs\<close>

lemma hex_char_valid: "n < 16 \<Longrightarrow> 48 \<le> byte (hex_char n) \<and> byte (hex_char n) \<le> 57 \<or> 97 \<le> byte (hex_char n) \<and> byte (hex_char n) \<le> 102"
  by (auto simp: hex_char_def)

lemma New_valid: "length random = 8 \<Longrightarrow> Valid_request_id (requestid_New random)"
proof -
  assume l: "length random = 8"
  have "length (hex_EncodeToString s) = 2 * length s" for s by (induction s) (simp_all add: hex_EncodeToString_def)
  moreover have "48 \<le> byte c \<and> byte c \<le> 57 \<or> 97 \<le> byte c \<and> byte c \<le> 102" if c: "c \<in> set (hex_EncodeToString random)" for c
  proof -
    from c obtain b where "c = hex_char (byte b div 16) \<or> c = hex_char (byte b mod 16)" by (auto simp: hex_EncodeToString_def)
    moreover have "byte b div 16 < 16" "byte b mod 16 < 16" by (auto simp: less_mult_imp_div_less)
    ultimately show ?thesis using hex_char_valid by blast
  qed
  ultimately show ?thesis using l by (fastforce simp: Valid_request_id_def requestid_New_def MaxLength_def id_char_def list_all_iff Let_def)
qed

text \<open>
  The request ID that handlers, logs and audit events see is always one of the accepted form, and it is the one the client
  sent only when the request comes from a trusted address.
\<close>

theorem request_id_safe:
  assumes "length random = 8"
  shows "\<exists>rid. RequestIDFrom random trusted next r h = next (r\<lparr>ht_RequestID := rid\<rparr>) (Header_Set requestid_Header rid h) \<and>
    Valid_request_id rid \<and> (rid = requestid_New random \<or> fromTrusted r trusted \<and> rid = Header_Get (ht_Header r) requestid_Header)"
  using New_valid [OF assms] by (auto simp: RequestIDFrom_def Let_def)

section \<open>Cross-origin requests\<close>

lemma cors_names:
  "CanonicalHeaderKey ''Access-Control-Allow-Origin'' = ''Access-Control-Allow-Origin''"
  "CanonicalHeaderKey ''Access-Control-Allow-Credentials'' = ''Access-Control-Allow-Credentials''"
  "CanonicalHeaderKey ''Access-Control-Allow-Methods'' = ''Access-Control-Allow-Methods''"
  "CanonicalHeaderKey ''Access-Control-Allow-Headers'' = ''Access-Control-Allow-Headers''"
  "CanonicalHeaderKey ''Access-Control-Max-Age'' = ''Access-Control-Max-Age''"
  "CanonicalHeaderKey ''Access-Control-Expose-Headers'' = ''Access-Control-Expose-Headers''" "CanonicalHeaderKey ''Vary'' = ''Vary''"
  by code_simp+

lemma find_none: "List.find P xs = None \<Longrightarrow> x \<in> set xs \<Longrightarrow> \<not> P x"
  by (auto simp: find_None_iff)

text \<open>
  C38: With a handler that leaves these headers alone, a reply names the caller's origin exactly when that origin is allowed,
  and lets it use credentials only when the origin is itself on the list, as a valid origin: a wildcard never shares
  credentials.
\<close>

theorem cors_credentials:
  assumes "CORS url_Parse secondsText opts = Inr mw"
    and "\<And>r h. rp_Header (next r h) ''Access-Control-Allow-Origin'' = h ''Access-Control-Allow-Origin''"
    and "\<And>r h. rp_Header (next r h) ''Access-Control-Allow-Credentials'' = h ''Access-Control-Allow-Credentials''"
    and "h ''Access-Control-Allow-Origin'' = []" "h ''Access-Control-Allow-Credentials'' = []"
    and "origin = Header_Get (ht_Header r) ''Origin''"
  shows "rp_Header (mw next r h) ''Access-Control-Allow-Origin'' = (if cors_allowed opts origin then [origin] else []) \<and>
    (rp_Header (mw next r h) ''Access-Control-Allow-Credentials'' \<noteq> [] \<longrightarrow>
       origin \<noteq> ''*'' \<and> origin \<in> set (cors_AllowedOrigins opts) \<and> validOrigin url_Parse origin)"
proof (cases "cors_allowed opts origin")
  case False
  then show ?thesis
    using assms by (auto simp: CORS_def Let_def Header_Add_def cors_names split: if_splits option.splits)
next
  case True
  have "\<not> (cors_AllowCredentials opts \<and> ''*'' \<in> set (cors_AllowedOrigins opts))"
    and none: "List.find (\<lambda>o'. o' \<noteq> ''*'' \<and> \<not> validOrigin url_Parse o') (cors_AllowedOrigins opts) = None"
    using assms(1) by (auto simp: CORS_def split: if_splits option.splits)
  then have ok: "cors_AllowCredentials opts \<longrightarrow> origin \<noteq> ''*'' \<and> origin \<in> set (cors_AllowedOrigins opts) \<and> validOrigin url_Parse origin"
    using True find_none [OF none, of origin] by (auto simp: cors_allowed_def)
  show ?thesis
    using assms True ok
    by (auto simp: CORS_def Let_def Header_Add_def Header_Set_def cors_names cors_preflight_def split: if_splits option.splits)
qed

section \<open>Errors and problems\<close>

text \<open>Registered mappings: error statuses, well-formed codes, and one status for each code.\<close>

definition mapper_ok :: "Mapping list \<Rightarrow> bool" where
  "mapper_ok ms \<longleftrightarrow> (\<forall>mp \<in> set ms. mp_Err mp \<noteq> None \<and> 400 \<le> mp_Status mp \<and> mp_Status mp \<le> 599 \<and> codePattern (mp_Code mp)) \<and>
     (\<forall>m \<in> set ms. \<forall>n \<in> set ms. mp_Code m = mp_Code n \<longrightarrow> mp_Status m = mp_Status n)"

lemma existing_error_None:
  "existing_error e mp ms = None \<Longrightarrow> m \<in> set ms \<Longrightarrow> mp_Code m = mp_Code mp \<Longrightarrow> mp_Status m = mp_Status mp"
  by (induction ms) (auto split: if_splits)

lemma Mapper_Add_ok: "mapper_ok ms \<Longrightarrow> Mapper_Add mps ms = (err, ms') \<Longrightarrow> mapper_ok ms'"
proof (induction mps arbitrary: ms)
  case (Cons mp mps)
  show ?case
  proof (cases "mapping_error mp ms")
    case None
    then obtain e where e: "mp_Err mp = Some e" "existing_error e mp ms = None" "400 \<le> mp_Status mp" "mp_Status mp \<le> 599" "codePattern (mp_Code mp)"
      by (auto simp: mapping_error_def split: option.splits if_splits)
    then have "mapper_ok (ms @ [mp])"
    proof -
      have "mp_Status m = mp_Status n" if mn: "m \<in> set (ms @ [mp])" "n \<in> set (ms @ [mp])" "mp_Code m = mp_Code n" for m n
      proof -
        consider "m \<in> set ms" "n \<in> set ms" | "m \<in> set ms" "n = mp" | "m = mp" "n \<in> set ms" | "m = n" using mn(1,2) by auto
        then show ?thesis
        proof cases
          case 1
          then show ?thesis using Cons.prems(1) mn(3) unfolding mapper_ok_def by blast
        next
          case 2
          then show ?thesis using existing_error_None [OF e(2), of m] mn(3) by simp
        next
          case 3
          then show ?thesis using existing_error_None [OF e(2), of n] mn(3) by simp
        qed simp
      qed
      moreover have "\<forall>m \<in> set ms. mp_Err m \<noteq> None \<and> 400 \<le> mp_Status m \<and> mp_Status m \<le> 599 \<and> codePattern (mp_Code m)"
        using Cons.prems(1) unfolding mapper_ok_def by blast
      then have "\<forall>m \<in> set (ms @ [mp]). mp_Err m \<noteq> None \<and> 400 \<le> mp_Status m \<and> mp_Status m \<le> 599 \<and> codePattern (mp_Code m)"
        using e by auto
      ultimately show ?thesis unfolding mapper_ok_def by blast
    qed
    with None Cons show ?thesis by simp
  qed (use Cons.prems in simp)
qed simp

lemma Match_mapping:
  assumes "errors_As e = None" "Match statusText ms e = Some p"
  shows "\<exists>m \<in> set ms. pb_Status p = mp_Status m \<and> pb_Code p = mp_Code m"
proof -
  let ?find = "List.find (\<lambda>mp. case mp_Err mp of None \<Rightarrow> False | Some x \<Rightarrow> errors_Is e (ge_id x)) ms"
  show ?thesis
  proof (cases ?find)
    case (Some m)
    then have "m \<in> set ms" by (auto simp: find_Some_iff)
    moreover have "pb_Status p = mp_Status m" "pb_Code p = mp_Code m" using assms Some by (auto simp: Match_def NewProblem_def)
    ultimately show ?thesis by blast
  qed (use assms in \<open>simp add: Match_def\<close>)
qed

text \<open>
  C39: Codes are stable. Whatever is added to a mapper, and whether or not adding fails, each error is answered with an error
  status; two errors that are no problems themselves and are answered with the same mapped code are answered with the
  same status; and an error without a mapping reveals nothing of its text.
\<close>

theorem problems_stable:
  assumes "NewMapper first = Inr ms0" "Mapper_Add later ms0 = (err, ms)" "errors_As e = None" "errors_As e' = None"
    and "Match statusText ms e = Some p" "Match statusText ms e' = Some p'" "pb_Code p = pb_Code p'"
    and "Match statusText ms unknown = None"
  shows "pb_Status p = pb_Status p' \<and> 400 \<le> pb_Status p \<and> pb_Status p \<le> 599 \<and> codePattern (pb_Code p) \<and>
    Mapper_Problem statusText ms unknown = NewProblem statusText 500 ''internal_error'' ''an internal error occurred''"
proof -
  have "mapper_ok []" by (simp add: mapper_ok_def)
  then have "mapper_ok ms0" using assms(1) Mapper_Add_ok [of "[]" first] by (auto simp: NewMapper_def split: prod.splits option.splits)
  then have ok: "mapper_ok ms" using assms(2) Mapper_Add_ok by blast
  obtain m where m: "m \<in> set ms" "pb_Status p = mp_Status m" "pb_Code p = mp_Code m"
    using Match_mapping [OF assms(3,5)] by blast
  obtain n where n: "n \<in> set ms" "pb_Status p' = mp_Status n" "pb_Code p' = mp_Code n"
    using Match_mapping [OF assms(4,6)] by blast
  have "mp_Code m = mp_Code n" using m(3) n(3) assms(7) by simp
  then have "mp_Status m = mp_Status n" by (rule ok [unfolded mapper_ok_def, THEN conjunct2, rule_format, OF m(1) n(1)])
  moreover have "400 \<le> mp_Status m" "mp_Status m \<le> 599" "codePattern (mp_Code m)" using ok m(1) unfolding mapper_ok_def by blast+
  ultimately show ?thesis using m n assms(8) by (simp add: Mapper_Problem_def)
qed

section \<open>A service behind a proxy\<close>

text \<open>A load balancer in 10.0.0.0/8 appends the peer it saw to what the client sent; addresses outside the office are refused.\<close>

definition forwarded :: http_request where
  "forwarded = \<lparr>ht_Method = ''GET'', ht_Path = ''/'', ht_RemoteAddr = ''10.0.0.2:4711'',
     ht_Header = (\<lambda>k. if k = ''X-Forwarded-For'' then [''10.9.9.9,192.0.2.7'', ''10.0.0.3''] else if k = ''Origin'' then [''https://a.example''] else []),
     ht_ContentLength = 0, ht_Body = [], ht_Cut = False, ht_RequestID = []\<rparr>"

definition direct :: http_request where
  "direct = forwarded\<lparr>ht_RemoteAddr := ''198.51.100.7:80''\<rparr>"

definition echo :: http_handler where
  "echo r h = \<lparr>rp_Status = 200, rp_Header = h, rp_Body = Bytes (ht_RemoteAddr r)\<rparr>"

definition ten :: Prefix where "ten = \<lparr>pf_Addr = V4 0x0A000000, pf_Bits = 8\<rparr>"

lemma ten_trusted: "ParseTrustedProxies ''10.1.2.3/8'' = Inr [ten]"
proof -
  have "TrimSpace ''10.1.2.3/8'' = ''10.1.2.3/8''" by (rule TrimSpace_plain; simp)
  moreover have "split_on (CHR '','') ''10.1.2.3/8'' = [''10.1.2.3/8'']" by code_simp
  moreover have "parse_item ''10.1.2.3/8'' = Some \<lparr>pf_Addr = V4 0x0A010203, pf_Bits = 8\<rparr>" by code_simp
  moreover have "canonicalPrefix \<lparr>pf_Addr = V4 0x0A010203, pf_Bits = 8\<rparr> = Inr ten" by code_simp
  ultimately show ?thesis by (simp add: ParseTrustedProxies_def) (simp add: ten_def)
qed

lemma forwarded_peers: "remoteAddr ''10.0.0.2:4711'' = Some (V4 0x0A000002)" "remoteAddr ''198.51.100.7:80'' = Some (V4 0xC6336407)"
  by code_simp+

lemma forwarded_hop_addrs: "ParseAddr (TrimSpace ''192.0.2.7'') = Some (V4 0xC0000207)" "ParseAddr (TrimSpace ''10.0.0.3'') = Some (V4 0x0A000003)"
proof -
  have "TrimSpace ''192.0.2.7'' = ''192.0.2.7''" "TrimSpace ''10.0.0.3'' = ''10.0.0.3''" by (rule TrimSpace_plain; simp)+
  moreover have "ParseAddr ''192.0.2.7'' = Some (V4 0xC0000207)" "ParseAddr ''10.0.0.3'' = Some (V4 0x0A000003)" by code_simp+
  ultimately show "ParseAddr (TrimSpace ''192.0.2.7'') = Some (V4 0xC0000207)" "ParseAddr (TrimSpace ''10.0.0.3'') = Some (V4 0x0A000003)"
    by simp_all
qed

lemma in_ten: "isTrusted (V4 0x0A000002) [ten]" "isTrusted (V4 0x0A000003) [ten]"
  "\<not> isTrusted (V4 0xC0000207) [ten]" "\<not> isTrusted (V4 0xC6336407) [ten]"
  by code_simp+

lemma hops_forwarded: "forwarded_hops forwarded = [''10.9.9.9''] @ [''192.0.2.7''] @ [''10.0.0.3'']"
  by code_simp

theorem trusted_client_witness:
  "(\<exists>addr. TrustedProxies [ten] echo forwarded (\<lambda>_. []) = echo (forwarded\<lparr>ht_RemoteAddr := addr\<rparr>) (\<lambda>_. []) \<and> remoteAddr addr = Some (V4 0xC0000207)) \<and>
    TrustedProxies [ten] echo direct (\<lambda>_. []) = echo direct (\<lambda>_. [])"
proof -
  have "ht_RemoteAddr forwarded = ''10.0.0.2:4711''" "ht_RemoteAddr direct = ''198.51.100.7:80''" by (simp_all add: forwarded_def direct_def)
  then show ?thesis
    using trusted_client [OF ten_trusted _ in_ten(1) hops_forwarded forwarded_hop_addrs(1) _ _ _ in_ten(4), of direct echo "\<lambda>_. []"]
      forwarded_peers forwarded_hop_addrs(2) in_ten(2,3) by (simp add: Unmap_def)
qed

theorem proxies_never_trust_all_witness: "\<exists>a. BitLen a = 32 \<and> \<not> Contains ten a"
  using proxies_never_trust_all [OF ten_trusted, of ten] by (simp add: ten_def BitLen_def)

lemma office_filter: "\<exists>mw. ipfilter_New (\<lambda>_. []) [ten] [] = Inr mw"
proof -
  have "ip_canonicalPrefixes [ten] = Inr [ten]" by code_simp
  then show ?thesis by (simp add: ipfilter_New_def)
qed

lemma outside_office: "\<not> address_served [ten] [] (V4 0xC6336407)"
  by (simp add: address_served_def written_range_def ten_def Is4In6_def in_range_def same_block_def)

theorem ipfilter_decides_witness: "\<exists>mw. ipfilter_New (\<lambda>_. []) [ten] [] = Inr mw \<and> rp_Status (mw echo direct (\<lambda>_. [])) = 403"
proof -
  obtain mw where mw: "ipfilter_New (\<lambda>_. []) [ten] [] = Inr mw" using office_filter by blast
  have "wf_prefix ten" by (simp add: wf_prefix_def ten_def Zone_def BitLen_def)
  then have "mw echo direct (\<lambda>_. []) = WriteProblem direct (\<lambda>_. []) (NewProblem (\<lambda>_. []) 403 ''ip_not_allowed'' ''requests from this network address are not allowed'')"
    using ipfilter_decides [OF mw, of echo direct "\<lambda>_. []"] forwarded_peers(2) outside_office by (simp add: direct_def WithZone_def)
  with mw show ?thesis by (auto simp: WriteProblem_def NewProblem_def)
qed

theorem request_id_safe_witness:
  "\<exists>rid. RequestIDFrom ''01234567'' [ten] echo forwarded (\<lambda>_. []) = echo (forwarded\<lparr>ht_RequestID := rid\<rparr>) (Header_Set requestid_Header rid (\<lambda>_. [])) \<and>
    Valid_request_id rid"
  using request_id_safe [of "''01234567''" "[ten]" echo forwarded "\<lambda>_. []"] by auto

text \<open>One origin with credentials; the parser knows that one.\<close>

definition one_origin :: CORSOptions where
  "one_origin = \<lparr>cors_AllowedOrigins = [''https://a.example''], cors_AllowedMethods = [], cors_AllowedHeaders = [], cors_ExposedHeaders = [],
     cors_AllowCredentials = True, cors_MaxAge = 0\<rparr>"

definition knows_one :: "string \<Rightarrow> parsed_url option" where
  "knows_one s = (if s = ''https://a.example'' then Some \<lparr>pu_Scheme = ''https'', pu_Host = ''a.example'', pu_HasUser = False, pu_Opaque = [],
     pu_RawPath = [], pu_Path = [], pu_ForceQuery = False, pu_RawQuery = [], pu_Fragment = []\<rparr> else None)"

theorem cors_credentials_witness:
  "\<exists>mw. CORS knows_one (\<lambda>_. []) one_origin = Inr mw \<and> rp_Header (mw echo forwarded (\<lambda>_. [])) ''Access-Control-Allow-Origin'' = [''https://a.example'']"
proof -
  have "validOrigin knows_one ''https://a.example''" by code_simp
  then obtain mw where mw: "CORS knows_one (\<lambda>_. []) one_origin = Inr mw" by (auto simp: CORS_def one_origin_def)
  have "Header_Get (ht_Header forwarded) ''Origin'' = ''https://a.example''" by code_simp
  then have "rp_Header (mw echo forwarded (\<lambda>_. [])) ''Access-Control-Allow-Origin'' = [''https://a.example'']"
    using cors_credentials [OF mw, of echo "\<lambda>_. []" "''https://a.example''" forwarded]
    by (simp add: echo_def cors_allowed_def one_origin_def)
  with mw show ?thesis by blast
qed

definition taken :: Mapping where
  "taken = \<lparr>mp_Err = Some (GoErr 1 ''name taken'' None []), mp_Status = 409, mp_Code = ''name_taken'', mp_Detail = []\<rparr>"

theorem problems_stable_witness:
  "Mapper_Problem (\<lambda>_. []) [taken] (GoErr 7 ''secret'' None []) = NewProblem (\<lambda>_. []) 500 ''internal_error'' ''an internal error occurred''"
proof -
  let ?e = "GoErr 9 ''create project'' None [GoErr 1 ''name taken'' None []]"
  have "NewMapper [taken] = Inr [taken]" by code_simp
  moreover have "Mapper_Add [] [taken] = (None, [taken])" by simp
  moreover have "Match (\<lambda>_. []) [taken] ?e = Some (NewProblem (\<lambda>_. []) 409 ''name_taken'' ''name taken'')"
    "Match (\<lambda>_. []) [taken] (GoErr 7 ''secret'' None []) = None" "errors_As ?e = None" by (simp_all add: Match_def taken_def)
  ultimately show ?thesis
    using problems_stable [of "[taken]" "[taken]" "[]" None "[taken]" ?e ?e "\<lambda>_. []" _ _ "GoErr 7 ''secret'' None []"] by blast
qed

end
