(* ===== verification/Streams.thy ===== *)
theory Streams
  imports Prelude
begin

text \<open>
  Bounds on long-lived responses (\<open>modules/observability/streams.go\<close>): how many streams run on an instance, how many one
  subject holds, and what ends them. Every method holds the mutex, so that a history is a sequence of whole calls, of
  timers that fire and of callers that go away.
\<close>

section \<open>Streams\<close>

datatype end_cause = Canceled | ErrStreamExpired | ErrStreamsClosed | CallerGone

text \<open>One stream: its subject, whether its \<open>done\<close> function has run, and why its context has ended, if it has.\<close>

record stream =
  sr_subject :: string
  sr_done :: bool
  sr_cause :: "end_cause option"

record Streams =
  sm_maxTotal :: int
  sm_maxPerSubject :: int
  sm_maxDuration :: duration
  sm_total :: int
  sm_bySubject :: "string \<rightharpoonup> int"
  sm_closed :: bool
  sm_cancels :: "nat set"
  sm_streams :: "stream list"

datatype streams_error = ErrTooManyStreams | StreamsClosed | BadLimits

definition NewStreams :: "int \<Rightarrow> int \<Rightarrow> duration \<Rightarrow> streams_error + Streams" where
  "NewStreams maxTotal maxPerSubject maxDuration =
     (if maxTotal < 1 \<or> maxPerSubject < 1 \<or> maxDuration \<le> 0 then Inl BadLimits
      else Inr \<lparr>sm_maxTotal = maxTotal, sm_maxPerSubject = maxPerSubject, sm_maxDuration = maxDuration, sm_total = 0,
                sm_bySubject = Map.empty, sm_closed = False, sm_cancels = {}, sm_streams = []\<rparr>)"

definition subject_count :: "Streams \<Rightarrow> string \<Rightarrow> int" where
  "subject_count s subject = (case sm_bySubject s subject of None \<Rightarrow> 0 | Some n \<Rightarrow> n)"

text \<open>A context ends once; later causes change nothing.\<close>

definition cancel :: "end_cause \<Rightarrow> nat \<Rightarrow> stream list \<Rightarrow> stream list" where
  "cancel cause k ss = (if k < length ss \<and> sr_cause (ss ! k) = None then ss[k := (ss ! k)\<lparr>sr_cause := Some cause\<rparr>] else ss)"

text \<open>\<open>Open\<close> gives the new stream's key; \<open>parent\<close> is why the caller's context has already ended, if it has.\<close>

definition Streams_Open :: "end_cause option \<Rightarrow> string \<Rightarrow> Streams \<Rightarrow> (streams_error + nat) \<times> Streams" where
  "Streams_Open parent subject s =
     (if sm_closed s then (Inl StreamsClosed, s)
      else if sm_total s \<ge> sm_maxTotal s \<or> subject_count s subject \<ge> sm_maxPerSubject s then (Inl ErrTooManyStreams, s)
      else
        let k = length (sm_streams s) in
        (Inr k, s\<lparr>sm_total := sm_total s + 1, sm_bySubject := (sm_bySubject s)(subject \<mapsto> subject_count s subject + 1),
                  sm_cancels := insert k (sm_cancels s),
                  sm_streams := sm_streams s @ [\<lparr>sr_subject = subject, sr_done = False, sr_cause = parent\<rparr>]\<rparr>))"

text \<open>The \<open>done\<close> function of a stream, which does its work once.\<close>

definition Streams_done :: "nat \<Rightarrow> Streams \<Rightarrow> Streams" where
  "Streams_done k s =
     (if k < length (sm_streams s) \<and> \<not> sr_done (sm_streams s ! k) then
        let subject = sr_subject (sm_streams s ! k);
            n = subject_count s subject - 1;
            ss = cancel Canceled k (sm_streams s) in
        s\<lparr>sm_streams := ss[k := (ss ! k)\<lparr>sr_done := True\<rparr>], sm_cancels := sm_cancels s - {k}, sm_total := sm_total s - 1,
          sm_bySubject := (if n \<le> 0 then (sm_bySubject s)(subject := None) else (sm_bySubject s)(subject \<mapsto> n))\<rparr>
      else s)"

definition Streams_Close :: "Streams \<Rightarrow> Streams" where
  "Streams_Close s = s\<lparr>sm_closed := True,
     sm_streams := map (\<lambda>k. if k \<in> sm_cancels s \<and> sr_cause (sm_streams s ! k) = None
       then (sm_streams s ! k)\<lparr>sr_cause := Some ErrStreamsClosed\<rparr> else sm_streams s ! k) [0..<length (sm_streams s)]\<rparr>"

definition Streams_Count :: "Streams \<Rightarrow> int" where
  "Streams_Count s = sm_total s"

text \<open>A stream's timer fires, or its caller's context ends.\<close>

definition stream_ends :: "end_cause \<Rightarrow> nat \<Rightarrow> Streams \<Rightarrow> Streams" where
  "stream_ends cause k s = s\<lparr>sm_streams := cancel cause k (sm_streams s)\<rparr>"

inductive streams_step :: "Streams \<Rightarrow> Streams \<Rightarrow> bool" where
  step_open: "streams_step s (snd (Streams_Open parent subject s))"
| step_done: "streams_step s (Streams_done k s)"
| step_close: "streams_step s (Streams_Close s)"
| step_ends: "cause \<in> {ErrStreamExpired, CallerGone} \<Longrightarrow> streams_step s (stream_ends cause k s)"

section \<open>The books\<close>

definition running :: "Streams \<Rightarrow> nat set" where
  "running s = {k. k < length (sm_streams s) \<and> \<not> sr_done (sm_streams s ! k)}"

definition running_for :: "string \<Rightarrow> Streams \<Rightarrow> nat set" where
  "running_for subject s = {k \<in> running s. sr_subject (sm_streams s ! k) = subject}"

definition streams_inv :: "Streams \<Rightarrow> bool" where
  "streams_inv s \<longleftrightarrow> sm_cancels s = running s \<and> sm_total s = int (card (running s)) \<and>
     (\<forall>subject. subject_count s subject = int (card (running_for subject s)) \<and> int (card (running_for subject s)) \<le> sm_maxPerSubject s) \<and>
     sm_total s \<le> sm_maxTotal s \<and>
     (\<forall>k < length (sm_streams s). k \<notin> running s \<or> sm_closed s \<longrightarrow> sr_cause (sm_streams s ! k) \<noteq> None)"

lemma finite_running [simp]: "finite (running s)" "finite (running_for subject s)"
  by (auto simp: running_def running_for_def)

lemma NewStreams_inv: "NewStreams t p d = Inr s \<Longrightarrow> streams_inv s \<and> sm_maxTotal s = t \<and> sm_maxPerSubject s = p"
  by (auto simp: NewStreams_def streams_inv_def running_def running_for_def subject_count_def split: if_splits)

lemma cancel_simps [simp]:
  "length (cancel c k ss) = length ss" "sr_done (cancel c k ss ! i) = sr_done (ss ! i)" "sr_subject (cancel c k ss ! i) = sr_subject (ss ! i)"
  "sr_cause (ss ! i) \<noteq> None \<Longrightarrow> sr_cause (cancel c k ss ! i) = sr_cause (ss ! i)"
  by (auto simp: cancel_def nth_list_update)

lemma cancel_ends: "k < length ss \<Longrightarrow> sr_cause (cancel c k ss ! k) \<noteq> None"
  by (auto simp: cancel_def)

lemma Open_inv:
  assumes "streams_inv s" shows "streams_inv (snd (Streams_Open parent subject s))"
proof (cases "sm_closed s \<or> sm_total s \<ge> sm_maxTotal s \<or> subject_count s subject \<ge> sm_maxPerSubject s")
  case False
  let ?k = "length (sm_streams s)" and ?s = "snd (Streams_Open parent subject s)"
  have s: "sm_streams ?s = sm_streams s @ [\<lparr>sr_subject = subject, sr_done = False, sr_cause = parent\<rparr>]" "sm_total ?s = sm_total s + 1"
    "sm_bySubject ?s = (sm_bySubject s)(subject \<mapsto> subject_count s subject + 1)" "sm_cancels ?s = insert ?k (sm_cancels s)"
    "sm_closed ?s = sm_closed s" "sm_maxTotal ?s = sm_maxTotal s" "sm_maxPerSubject ?s = sm_maxPerSubject s"
    using False by (auto simp: Streams_Open_def Let_def)
  have r: "running ?s = insert ?k (running s)" by (auto simp: running_def s nth_append less_Suc_eq)
  have rf: "running_for u ?s = (if u = subject then insert ?k (running_for u s) else running_for u s)" for u
    by (auto simp: running_for_def r s nth_append) (auto simp: running_def)
  have fresh: "?k \<notin> running s" "?k \<notin> running_for u s" for u by (auto simp: running_def running_for_def)
  have sc: "subject_count ?s u = (if u = subject then subject_count s u + 1 else subject_count s u)" for u
    by (simp add: subject_count_def s)
  show ?thesis
    using assms False fresh by (auto simp: streams_inv_def r rf sc s nth_append less_Suc_eq)
qed (use assms in \<open>auto simp: Streams_Open_def\<close>)

lemma done_inv:
  assumes "streams_inv s" shows "streams_inv (Streams_done k s)"
proof (cases "k \<in> running s")
  case True
  let ?s = "Streams_done k s" and ?u = "sr_subject (sm_streams s ! k)"
  have k: "k < length (sm_streams s)" "\<not> sr_done (sm_streams s ! k)" using True by (auto simp: running_def)
  have s: "sm_total ?s = sm_total s - 1" "sm_cancels ?s = sm_cancels s - {k}" "sm_closed ?s = sm_closed s" "sm_maxTotal ?s = sm_maxTotal s"
    "sm_maxPerSubject ?s = sm_maxPerSubject s" "length (sm_streams ?s) = length (sm_streams s)"
    "sm_bySubject ?s = (if subject_count s ?u \<le> 1 then (sm_bySubject s)(?u := None) else (sm_bySubject s)(?u \<mapsto> subject_count s ?u - 1))"
    using k by (auto simp: Streams_done_def Let_def)
  have at: "sr_done (sm_streams ?s ! i) \<longleftrightarrow> i = k \<or> sr_done (sm_streams s ! i)" "sr_subject (sm_streams ?s ! i) = sr_subject (sm_streams s ! i)"
    "sr_cause (sm_streams s ! i) \<noteq> None \<or> i = k \<Longrightarrow> sr_cause (sm_streams ?s ! i) \<noteq> None" if "i < length (sm_streams s)" for i
    using k that cancel_ends [of k "sm_streams s" Canceled] by (auto simp: Streams_done_def Let_def nth_list_update)
  have r: "running ?s = running s - {k}" using at(1) by (auto simp: running_def s)
  have rf: "running_for u ?s = running_for u s - {k}" for u using at(2) by (auto simp: running_for_def r) (auto simp: running_def)
  have mem: "k \<in> running_for u s \<longleftrightarrow> u = ?u" for u using True by (auto simp: running_for_def)
  have pos: "0 < card (running_for ?u s)" using mem by (auto simp: card_gt_0_iff)
  have sc: "subject_count ?s u = (if u = ?u then subject_count s u - 1 else subject_count s u)" for u
    using assms pos by (auto simp: subject_count_def s streams_inv_def)
  have "subject_count ?s u = int (card (running_for u ?s))" for u
    using assms pos mem by (auto simp: sc rf streams_inv_def card_Diff_singleton of_nat_diff)
  moreover have "0 < card (running s)" using True by (auto simp: card_gt_0_iff)
  then have "sm_total ?s = int (card (running ?s))" using assms True by (simp add: r s streams_inv_def card_Diff_singleton of_nat_diff)
  moreover have "int (card (running_for u ?s)) \<le> sm_maxPerSubject ?s" for u
  proof -
    have "card (running_for u ?s) \<le> card (running_for u s)" unfolding rf by (rule card_mono) auto
    moreover have "int (card (running_for u s)) \<le> sm_maxPerSubject s" using assms by (simp add: streams_inv_def)
    ultimately show ?thesis by (simp add: s)
  qed
  moreover have "sr_cause (sm_streams ?s ! i) \<noteq> None" if "i < length (sm_streams ?s)" "i \<notin> running ?s \<or> sm_closed ?s" for i
    using that at(3) [of i] assms by (auto simp: r s streams_inv_def)
  ultimately show ?thesis using assms unfolding streams_inv_def by (simp add: r s)
qed (use assms in \<open>auto simp: Streams_done_def running_def\<close>)

lemma same_books:
  assumes "streams_inv s" "length (sm_streams s') = length (sm_streams s)"
    and "\<And>i. i < length (sm_streams s) \<Longrightarrow> sr_done (sm_streams s' ! i) = sr_done (sm_streams s ! i) \<and> sr_subject (sm_streams s' ! i) = sr_subject (sm_streams s ! i) \<and>
      (sr_cause (sm_streams s ! i) \<noteq> None \<or> sm_closed s' \<and> i \<in> running s \<longrightarrow> sr_cause (sm_streams s' ! i) \<noteq> None)"
    and "sm_total s' = sm_total s" "sm_bySubject s' = sm_bySubject s" "sm_cancels s' = sm_cancels s" "sm_maxTotal s' = sm_maxTotal s"
    and "sm_maxPerSubject s' = sm_maxPerSubject s"
  shows "streams_inv s'"
proof -
  have r: "running s' = running s" using assms(2,3) by (auto simp: running_def)
  have "running_for u s' = running_for u s" for u using assms(2,3) by (auto simp: running_for_def r) (auto simp: running_def)
  moreover have "sr_cause (sm_streams s' ! i) \<noteq> None" if "i < length (sm_streams s)" "i \<notin> running s \<or> sm_closed s'" for i
    using assms(3) [OF that(1)] that assms(1) unfolding streams_inv_def by blast
  ultimately show ?thesis using assms(1,2,4-8) unfolding streams_inv_def by (simp add: r subject_count_def)
qed

lemma close_inv: "streams_inv s \<Longrightarrow> streams_inv (Streams_Close s)"
  by (rule same_books) (auto simp: Streams_Close_def streams_inv_def)

lemma ends_inv: "streams_inv s \<Longrightarrow> streams_inv (stream_ends c k s)"
  by (rule same_books) (auto simp: stream_ends_def streams_inv_def)

lemma step_limits: "streams_step s s' \<Longrightarrow> sm_maxTotal s' = sm_maxTotal s \<and> sm_maxPerSubject s' = sm_maxPerSubject s"
  by (induction rule: streams_step.induct) (auto simp: Streams_Open_def Streams_done_def Streams_Close_def stream_ends_def Let_def)

lemma steps_inv:
  "streams_step\<^sup>*\<^sup>* s s' \<Longrightarrow> streams_inv s \<Longrightarrow> streams_inv s' \<and> sm_maxTotal s' = sm_maxTotal s \<and> sm_maxPerSubject s' = sm_maxPerSubject s"
proof (induction rule: rtranclp_induct)
  case (step s' s'')
  have "streams_inv s''" using step Open_inv done_inv close_inv ends_inv by (auto elim: streams_step.cases)
  with step step_limits show ?case by simp
qed simp

text \<open>
  C40: Over any history of opening and finishing streams, of timers and of callers that go away: the count is the number of
  streams whose \<open>done\<close> has not run, within the limits in total and for every subject; opening succeeds exactly when
  there is room and the streams are not closed, so that no slot is lost or counted twice; and once they are closed,
  every stream there has been has ended.
\<close>

theorem streams_bounded:
  assumes "NewStreams maxTotal maxPerSubject d = Inr s0" "streams_step\<^sup>*\<^sup>* s0 s"
  shows "Streams_Count s = int (card (running s)) \<and> Streams_Count s \<le> maxTotal \<and> int (card (running_for u s)) \<le> maxPerSubject \<and>
    (isl (fst (Streams_Open parent u s)) \<longleftrightarrow> sm_closed s \<or> int (card (running s)) = maxTotal \<or> int (card (running_for u s)) = maxPerSubject) \<and>
    (sm_closed s \<longrightarrow> (\<forall>x \<in> set (sm_streams s). sr_cause x \<noteq> None))"
proof -
  have inv: "streams_inv s" "sm_maxTotal s = maxTotal" "sm_maxPerSubject s = maxPerSubject"
    using steps_inv [OF assms(2)] NewStreams_inv [OF assms(1)] by auto
  have n: "subject_count s u = int (card (running_for u s))" "int (card (running_for u s)) \<le> maxPerSubject"
    "sm_total s = int (card (running s))" "int (card (running s)) \<le> maxTotal"
    using inv unfolding streams_inv_def by auto
  have "sr_cause x \<noteq> None" if "sm_closed s" "x \<in> set (sm_streams s)" for x
    using inv(1) that unfolding streams_inv_def in_set_conv_nth by blast
  moreover have "isl (fst (Streams_Open parent u s)) \<longleftrightarrow> sm_closed s \<or> maxTotal \<le> int (card (running s)) \<or> maxPerSubject \<le> int (card (running_for u s))"
    by (simp add: Streams_Open_def Let_def inv(2,3) n(1,3))
  moreover have "maxTotal \<le> int (card (running s)) \<longleftrightarrow> int (card (running s)) = maxTotal"
    "maxPerSubject \<le> int (card (running_for u s)) \<longleftrightarrow> int (card (running_for u s)) = maxPerSubject"
    using n by linarith+
  ultimately show ?thesis unfolding Streams_Count_def n(3) using n(2,4) by blast
qed

text \<open>Two streams of one subject, the first of which is finished; then the instance shuts down.\<close>

definition history :: "Streams \<Rightarrow> Streams" where
  "history s = Streams_Close (snd (Streams_Open None ''ada'' (Streams_done 0 (snd (Streams_Open None ''ada'' s)))))"

lemma history_steps: "streams_step\<^sup>*\<^sup>* s (history s)"
  unfolding history_def by (meson rtranclp.rtrancl_refl rtranclp.rtrancl_into_rtrancl step_open step_done step_close)

theorem streams_bounded_witness:
  "\<exists>s0. NewStreams 5 1 hour = Inr s0 \<and> Streams_Count (history s0) = 1 \<and> (\<forall>x \<in> set (sm_streams (history s0)). sr_cause x \<noteq> None)"
proof -
  obtain s0 where s0: "NewStreams 5 1 hour = Inr s0" by (simp add: NewStreams_def)
  have "sm_closed (history (projr (NewStreams 5 1 hour)))" "sm_total (history (projr (NewStreams 5 1 hour))) = 1" by code_simp+
  then have "sm_closed (history s0)" "sm_total (history s0) = 1" by (simp_all add: s0)
  then show ?thesis using streams_bounded [OF s0 history_steps] s0 by (auto simp: Streams_Count_def)
qed

end
