(* ===== verification/Spec2Isabelle.thy ===== *)
theory Spec2Isabelle
  imports Orgs_Purge Page Settings_Changes Retention Collector_Run Incidents_Pages Webhook_Props Httpx_Props Streams
begin

text \<open>
  A verification library for gorbital, a Go framework for multi-tenant services: small packages (\<open>actor\<close>, \<open>audit\<close>,
  \<open>page\<close>, \<open>ratelimit\<close>, \<open>requestid\<close>), modules over PostgreSQL (\<open>modules/...\<close>) and an HTTP layer that puts them together
  (\<open>gorbital/...\<close>). The library models the parts that carry the framework's own rules: who may do what in an
  organisation, what a limit shared by all instances allows, when a retried request runs again, which pages a client may
  ask for, and how flags and settings that operators change reach every instance.

  \<^bold>\<open>The parts and how they meet.\<close> A request carries its actor, principal, client and request ID in a context. The
  organisations service asks the membership check what the actor may do, works on its tables in transactions, and
  hands audit events to a recorder. Flags and settings keep a snapshot in memory that evaluation reads; a change is a
  transaction with a version check, a history row and a notification, and the notification makes the other instances
  reload. The rate limiter and the idempotency middleware stand before the handlers. Jobs delete what has expired.

  \<^bold>\<open>Theories and code.\<close>

  \<^item> \<open>Prelude\<close>, \<open>Go_Text\<close>: theorem collections, tables as lists of rows, results; the functions of \<open>strings\<close>, \<open>unicode\<close>
    and \<open>utf8\<close> the code calls, and its regular expressions for names.
  \<^item> \<open>Access\<close> (\<open>actor/actor.go\<close>, \<open>modules/auth/catalog.go\<close>, \<open>catalog_mfa.go\<close>, \<open>middleware.go\<close>, \<open>apikey.go\<close>): actors, contexts,
    principals, the catalog of roles and permissions, API key scopes. \<open>Audit_Events\<close> (\<open>audit/audit.go\<close>, \<open>requestid\<close>).
  \<^item> \<open>Txn\<close> (\<open>modules/postgres/tx.go\<close>): computations over tables, with a schedule of faults for every round trip (the statement
    fails, or takes effect and its answer is lost) and the changes other sessions commit in between. \<open>InTx\<close> is the
    module's, \<open>BeginFunc\<close> is pgx's as documented.
  \<^item> \<open>Orgs_Domain\<close>, \<open>Orgs_Store\<close>, \<open>Orgs_Access\<close>, \<open>Orgs_Service\<close>, \<open>Orgs_Members\<close> (\<open>gorbital/orgshttp\<close>, \<open>modules/orgs\<close>): entities, one
    definition per SQL statement, the membership check, organisations, members, invitations and account removal, one
    definition per use case with every guard. \<open>Orgs_Invariants\<close> and \<open>Orgs_Reach\<close>: what every use case keeps and the step relation
    of the service; \<open>Orgs_Props\<close>, \<open>Orgs_Requests\<close>, \<open>Orgs_Lifecycle\<close>, \<open>Orgs_Purge\<close>: the properties.
  \<^item> \<open>Ratelimit\<close> (\<open>ratelimit/ratelimit.go\<close>, \<open>modules/ratelimitpg\<close>): the in-memory limiter, GCRA in the database, the local
    check before it and the fallback when it does not answer.
  \<^item> \<open>Page\<close> (\<open>page/page.go\<close>): limits, sort orders and cursors, with base64 and \<open>Atoi\<close>.
  \<^item> \<open>Idempotency\<close> (\<open>modules/idempotency\<close>): the key table, claim, complete and release, the response recorder and the
    middleware.
  \<^item> \<open>Snapshots\<close>: the interface of a snapshot that follows a table, the locale \<open>versioned_memory\<close>. \<open>Flags\<close>, \<open>Flags_Props\<close>,
    \<open>Flags_Store\<close> (\<open>modules/flags\<close>): states and their bounds, evaluation, registry, store.
  \<^item> \<open>Settings\<close>, \<open>Settings_Store\<close>, \<open>Settings_Props\<close>, \<open>Settings_Orgs\<close>, \<open>Settings_Changes\<close> (\<open>modules/settings\<close>): declarations and
    validators, reads for the platform and for an organisation, the two snapshots, the store.
  \<^item> \<open>Retention\<close> (\<open>gorbital/internal/builtinjobs\<close>): the cleanup loops, the cleanup jobs, the detection job
    and the retention job over the stores above and below.
  \<^item> \<open>Incidents\<close> (\<open>modules/observability/incidents.go\<close>, \<open>detect.go\<close>, \<open>delete_minutes.go\<close>): incidents with their timelines, the
    statements and operations on them, automatic detection; \<open>Incidents_Props\<close>, \<open>Incidents_Pages\<close>: the abstract state machine
    \<open>incident_move\<close> every operation implements, and the properties.
  \<^item> \<open>Collector\<close> (\<open>collector.go\<close>, \<open>histogram.go\<close>, \<open>middleware.go\<close>), \<open>Collector_Store\<close> (\<open>write_minutes.go\<close>): one instance's request
    counts per minute, method and route, its flushes to a sink that may fail, and the table the store writes;
    \<open>Collector_Props\<close>, \<open>Collector_Balance\<close>, \<open>Collector_Run\<close>: both together. \<open>Streams\<close> (\<open>streams.go\<close>): the bounds on long-lived
    responses.
  \<^item> \<open>Go_Codec\<close>: \<open>strings.Fields\<close>, hexadecimal, standard base64 and \<open>http.Header\<close>. \<open>Netip\<close>, \<open>Netip_Text\<close>, \<open>Netip_Props\<close>: the addresses and
    prefixes of \<open>net/netip\<close>, their texts, and what a prefix contains.
  \<^item> \<open>Webhook\<close>, \<open>Webhook_Props\<close> (\<open>webhook/webhook.go\<close>, \<open>gorbital/guard/webhook.go\<close>): the HMAC and the standard scheme, signing,
    verification and the guard before a route.
  \<^item> \<open>Httpx\<close>, \<open>Httpx_Props\<close> (\<open>httpx/trusted_proxies.go\<close>, \<open>middleware.go\<close>, \<open>maintenance.go\<close>, \<open>problem.go\<close>, \<open>ipfilter\<close>): the client behind
    trusted proxies, request IDs, the address filter, maintenance, CORS, the body limit and the mapping of errors to
    problems.

  \<^bold>\<open>What the lemmas show.\<close>

  \<^item> Organisations: every live organisation has an owner in every reachable state; no use case gives a role above the
    caller's; an invitation is accepted once, by the invited account, while its inviter may still give the role; the
    membership check is sound and tells outsiders nothing; removal, purging and restoring do exactly what they say.
  \<^item> Limits: what GCRA allows in any interval, its refinement of a leaky bucket, exact retry times, and expiry that no
    caller can observe.
  \<^item> Idempotency: a key is claimed once until it is released or expires, a stored response is replayed byte for byte, and
    callers never share keys.
  \<^item> Pages: what a client may ask for; sort orders and cursors that survive a round trip.
  \<^item> Flags: bounds, the documented rules of evaluation, rollouts that only grow, instances that converge on the newest
    row in whatever order rows arrive, tables whose history is unbroken, changes that lose no update.
  \<^item> Settings: type safety of every read, organisations that do not see each other's values, reloads that lose nothing
    applied while they ran, changes that reach the other instances.
  \<^item> Jobs: the loops end and leave nothing expired behind.
  \<^item> Incidents: the timeline tells each incident's whole story, resolution is final, one automatic incident is open at a
    time, pages list everything once; and an incident whose timeline is full can no longer be resolved.
  \<^item> Request counts: what a collector recorded is in the store or reported as lost, whatever writes failed; its memory is
    bounded; the histogram's buckets are the documented ones. Streams stay within their limits and every place is given
    back once.
  \<^item> HTTP: the client of a forwarded request is the last hop no trusted proxy stands for, whatever the client wrote in
    front of it; the address filter answers as its lists say; credentials are only ever allowed to a listed origin;
    error codes do not depend on the order in which mappings were added.
  \<^item> Webhooks: a request is accepted exactly when one of its signatures was made with one of the secrets, over its own
    body, within the tolerance; and what the code signs it accepts.

  \<^bold>\<open>Interfaces as locales.\<close> Clients of a component rely on locales that are interpreted on the model: the membership
  source of the check, the taker of the rate limit middleware, the versioned memory (on flags and on settings), and the
  batched deletion (on flag history, setting history, idempotency keys, rate limit
  buckets and request minutes), and a request counter with its stored counterpart (on requests, server and client errors), and a webhook verifier (on the HMAC
  signatures).

  \<^bold>\<open>Bounds and fuel.\<close> \<open>TrimSpace\<close> removes at least one byte per round, so as many rounds as there are bytes are enough
  (proved in \<open>Go_Text\<close>). \<open>Purge\<close> runs over a list of clock ticks, one per batch, and its completeness assumes as many as
  there are expired organisations. A claim of a key tries as often as the code does. The loops of \<open>Retention\<close> have no
  bound and are partial functions, proved to return. Times and durations are integers of nanoseconds; \<open>uint64\<close>
  counters and hashes are taken modulo their width.

  \<^bold>\<open>Parameters.\<close> SHA-256, JSON of a state, of a cursor position and of setting values, what a \<open>jsonb\<close> column makes of a text, the
  database collation, \<open>time.ParseDuration\<close>, \<open>url.Parse\<close>, \<open>mail.ParseAddress\<close>, the token bucket of \<open>golang.org/x/time/rate\<close>,
  HMAC-SHA256,
  \<open>http.StatusText\<close>, random tokens and IDs, division of floats and their text. What the proofs need of them (JSON reads back what it wrote) are hypotheses of the theorems.

  \<^bold>\<open>Not modelled.\<close> Log lines, metrics and HTTP encoding, which are output only; listening connections and timers, whose effect
  (which reload runs when) is arbitrary in the theorems; goroutine interleaving within one method, since the code holds
  a mutex or a row lock there. Of the program's parts: sign-in and second factors (\<open>modules/auth\<close>, \<open>gorbital/authhttp\<close>),
  the summary query and quantiles of observability, the audit tables, JWT, and of \<open>httpx\<close> the panic recovery, the access
  log, captured responses and timeouts; the job queue, mail, storage and telemetry modules wrap third-party clients; the command line tool, the portal, the
  generated templates and the examples are not the framework's runtime.
\<close>

end
